(* ===== verification/Laser_Prelude.thy ===== *)
theory Laser_Prelude
  imports Main "HOL-Library.Word" "HOL-Library.AList" "HOL-Library.Multiset"
    "HOL-Library.Signed_Division"
begin

text \<open>
  Vocabulary shared by the component theories: Go's sized integers, panics as values,
  integer remainder as Go computes it, and Go maps.

  \<^item> A sized integer is a word of its width. Signedness is a way of reading a word
    (\<open>sint\<close> for \<open>int64\<close>, \<open>uint\<close> and \<open>unat\<close> for \<open>uint64\<close>), so that Go's conversions
    between types of the same width are the identity.
  \<^item> A run-time panic is a value \<open>Inl p\<close> of the type \<open>'a go\<close>.
  \<^item> A Go map whose iteration matters is an association list with distinct keys. Go leaves
    the order of a \<open>range\<close> over a map open, so every definition that ranges over a map
    takes a function \<open>order\<close> that permutes the entries, and the properties hold for each
    such function (\<open>is_order\<close>). A Go map that is only read and written by key is a HOL map.
\<close>

section \<open>Machine integers\<close>

type_synonym uint16 = "16 word"
type_synonym uint32 = "32 word"
type_synonym uint64 = "64 word"
type_synonym int32 = "32 word"
type_synonym int64 = "64 word"

named_theorems go_defs \<open>definitions of the Go vocabulary\<close>

text \<open>Run-time panics of the Go code in scope.\<close>

datatype panic = DivideByZero | IndexOutOfRange | NilDereference | NonPositiveTicker

type_synonym 'a go = "panic + 'a"

definition go_bind :: "'a go \<Rightarrow> ('a \<Rightarrow> 'b go) \<Rightarrow> 'b go" where
  [go_defs]: "go_bind r f = (case r of Inl p \<Rightarrow> Inl p | Inr x \<Rightarrow> f x)"

lemma go_bind_simps [simp]:
  "go_bind (Inl p) f = Inl p"
  "go_bind (Inr x) f = f x"
  by (simp_all add: go_bind_def)

lemma go_bind_eq_Inr:
  "go_bind r f = Inr y \<longleftrightarrow> (\<exists>x. r = Inr x \<and> f x = Inr y)"
  by (cases r) simp_all

text \<open>The remainder operator on \<open>int64\<close>: truncated, and a panic on a zero divisor.\<close>

definition go_rem64 :: "int64 \<Rightarrow> int64 \<Rightarrow> int64 go" where
  [go_defs]: "go_rem64 a b =
     (if b = 0 then Inl DivideByZero else Inr (word_of_int (sint a smod sint b)))"

lemma sint_word_of_int_64:
  "- 9223372036854775808 \<le> x \<Longrightarrow> x < 9223372036854775808 \<Longrightarrow> sint (word_of_int x :: int64) = x"
  by (simp add: int_word_sint)

lemma sint64_range: "- 9223372036854775808 \<le> sint (w :: int64)" "sint (w :: int64) < 9223372036854775808"
  using sint_ge [of w] sint_lt [of w] by simp_all

lemma sint64_eq_0_iff: "sint (w :: int64) = 0 \<longleftrightarrow> w = 0"
  by (metis sint_0 signed_word_eqI)

section \<open>Go maps that are iterated over\<close>

type_synonym ('k, 'v) gomap = "('k \<times> 'v) list"

text \<open>\<open>m[k] = append(m[k], v)\<close>: a missing key reads as the empty slice.\<close>

definition slot :: "('k, 'v list) gomap \<Rightarrow> 'k \<Rightarrow> 'v list" where
  "slot m k = (case map_of m k of None \<Rightarrow> [] | Some vs \<Rightarrow> vs)"

definition append_at :: "'k \<Rightarrow> 'v \<Rightarrow> ('k, 'v list) gomap \<Rightarrow> ('k, 'v list) gomap" where
  "append_at k v m = AList.update k (slot m k @ [v]) m"

fun append_all :: "('k \<times> 'v) list \<Rightarrow> ('k, 'v list) gomap \<Rightarrow> ('k, 'v list) gomap" where
  "append_all [] m = m"
| "append_all ((k, v) # kvs) m = append_all kvs (append_at k v m)"

text \<open>The values appended under one key, in order.\<close>

definition values_at :: "'k \<Rightarrow> ('k \<times> 'v) list \<Rightarrow> 'v list" where
  "values_at k kvs = map snd (filter (\<lambda>kv. fst kv = k) kvs)"

lemma values_at_simps [simp]:
  "values_at k [] = []"
  "values_at k ((k', v) # kvs) = (if k' = k then v # values_at k kvs else values_at k kvs)"
  "values_at k (xs @ ys) = values_at k xs @ values_at k ys"
  by (simp_all add: values_at_def)

lemma values_at_eq_Nil: "values_at k kvs = [] \<longleftrightarrow> k \<notin> fst ` set kvs"
  by (induction kvs) (auto split: if_splits)

lemma values_at_concat:
  "values_at k (concat xss) = concat (map (values_at k) xss)"
  by (induction xss) auto

lemma values_at_pair: "values_at k (map (\<lambda>x. (f x, g x)) xs) = map g (filter (\<lambda>x. f x = k) xs)"
  by (induction xs) auto

lemma slot_append_at [simp]:
  "slot (append_at k v m) k' = slot m k' @ (if k = k' then [v] else [])"
  by (simp add: slot_def append_at_def update_conv')

lemma slot_append_all: "slot (append_all kvs m) k = slot m k @ values_at k kvs"
  by (induction kvs m rule: append_all.induct) auto

lemma distinct_append_all:
  "distinct (map fst m) \<Longrightarrow> distinct (map fst (append_all kvs m))"
  by (induction kvs m rule: append_all.induct) (auto simp: append_at_def distinct_update)

lemma dom_append_at: "dom (map_of (append_at k v m)) = insert k (dom (map_of m))"
  by (auto simp: append_at_def update_conv')

lemma dom_append_all: "dom (map_of (append_all kvs m)) = fst ` set kvs \<union> dom (map_of m)"
  by (induction kvs m rule: append_all.induct) (auto simp: dom_append_at)

lemma map_of_append_all:
  "map_of (append_all kvs []) k = (if values_at k kvs = [] then None else Some (values_at k kvs))"
proof (cases "map_of (append_all kvs []) k")
  case None
  then have "k \<notin> dom (map_of (append_all kvs []))" by auto
  then show ?thesis using None by (simp add: dom_append_all values_at_eq_Nil)
next
  case (Some vs)
  then have "vs = slot (append_all kvs []) k" by (simp add: slot_def)
  also have "\<dots> = values_at k kvs" by (simp only: slot_append_all) (simp add: slot_def)
  finally have "vs = values_at k kvs" .
  moreover from Some have "k \<in> dom (map_of (append_all kvs []))" by auto
  ultimately show ?thesis using Some by (auto simp: dom_append_all values_at_eq_Nil)
qed

section \<open>Iteration order\<close>

text \<open>What the language promises about a \<open>range\<close> over a map: every entry once.\<close>

definition is_order :: "('a list \<Rightarrow> 'a list) \<Rightarrow> bool" where
  "is_order order \<longleftrightarrow> (\<forall>xs. mset (order xs) = mset xs)"

lemma is_orderD:
  assumes "is_order order"
  shows "mset (order xs) = mset xs" "set (order xs) = set xs"
    "distinct (order xs) = distinct xs" "distinct (map f (order xs)) = distinct (map f xs)"
proof -
  show eq: "mset (order xs) = mset xs" using assms by (simp add: is_order_def)
  then show "set (order xs) = set xs" by (metis set_mset_mset)
  from eq show "distinct (order xs) = distinct xs" by (metis mset_eq_imp_distinct_iff)
  from eq show "distinct (map f (order xs)) = distinct (map f xs)"
    by (metis mset_eq_imp_distinct_iff mset_map)
qed

lemma is_order_id: "is_order (\<lambda>xs. xs)"
  by (simp add: is_order_def)

lemma is_order_rev: "is_order rev"
  by (simp add: is_order_def)

lemma map_of_order:
  assumes "is_order order" "distinct (map fst m)"
  shows "map_of (order m) = map_of m"
  using assms by (intro map_of_inject_set [THEN iffD2]) (simp_all add: is_orderD)

text \<open>Writing entries into a HOL map one by one, and deleting keys from it one by one.\<close>

fun put_all :: "('k \<times> 'v) list \<Rightarrow> ('k \<rightharpoonup> 'v) \<Rightarrow> ('k \<rightharpoonup> 'v)" where
  "put_all [] m = m"
| "put_all ((k, v) # kvs) m = put_all kvs (m(k \<mapsto> v))"

fun delete_all :: "'k list \<Rightarrow> ('k \<rightharpoonup> 'v) \<Rightarrow> ('k \<rightharpoonup> 'v)" where
  "delete_all [] m = m"
| "delete_all (k # ks) m = delete_all ks (m(k := None))"

lemma put_all_lookup:
  "distinct (map fst kvs) \<Longrightarrow>
     put_all kvs m k = (case map_of kvs k of None \<Rightarrow> m k | Some v \<Rightarrow> Some v)"
proof (induction kvs arbitrary: m)
  case (Cons kv kvs)
  then have "map_of kvs (fst kv) = None" by (simp add: map_of_eq_None_iff)
  with Cons show ?case by (cases kv) (auto split: option.splits)
qed simp

lemma put_all_map_add: "distinct (map fst kvs) \<Longrightarrow> put_all kvs m = m ++ map_of kvs"
  by (rule ext) (simp add: put_all_lookup map_add_def)

lemma put_all_order:
  assumes "is_order order" "distinct (map fst kvs)"
  shows "put_all (order kvs) m = m ++ map_of kvs"
  using assms by (simp add: put_all_map_add is_orderD map_of_order)

text \<open>With repeated keys the last entry of a key wins.\<close>

definition last_opt :: "'a list \<Rightarrow> 'a option" where
  "last_opt xs = (if xs = [] then None else Some (last xs))"

lemma last_opt_simps [simp]:
  "last_opt [] = None"
  "last_opt (x # xs) = (case last_opt xs of None \<Rightarrow> Some x | Some y \<Rightarrow> Some y)"
  by (simp_all add: last_opt_def)

lemma last_opt_map: "last_opt (map f xs) = map_option f (last_opt xs)"
  by (simp add: last_opt_def last_map)

lemma put_all_last:
  "put_all kvs m k = (case last_opt (values_at k kvs) of None \<Rightarrow> m k | Some v \<Rightarrow> Some v)"
  by (induction kvs arbitrary: m) (auto split: option.splits)

lemma delete_all_lookup: "delete_all ks m k = (if k \<in> set ks then None else m k)"
  by (induction ks arbitrary: m) auto

end
