(* ===== verification/Laser_Strconv.thy ===== *)
theory Laser_Strconv
  imports Laser_Prelude "HOL-Library.Sublist"
begin

text \<open>
  What the sources use of Go's packages \<^verbatim>\<open>strconv\<close> and \<^verbatim>\<open>strings\<close>: decimal printing
  and parsing, splitting and joining at a separator character, and substring search.
  A string is its list of bytes.
\<close>

section \<open>Decimal printing: FormatUint and Itoa\<close>

definition digit_char :: "nat \<Rightarrow> char" where
  "digit_char d = char_of (48 + d)"

definition digit_val :: "char \<Rightarrow> nat option" where
  "digit_val c = (let n = of_char c :: nat in if 48 \<le> n \<and> n \<le> 57 then Some (n - 48) else None)"

fun FormatUint :: "nat \<Rightarrow> string" where
  "FormatUint n =
     (if n < 10 then [digit_char n] else FormatUint (n div 10) @ [digit_char (n mod 10)])"

declare FormatUint.simps [simp del]

definition Itoa :: "int \<Rightarrow> string" where
  "Itoa i = (if i < 0 then CHR ''-'' # FormatUint (nat (- i)) else FormatUint (nat i))"

lemma digit_val_char [simp]: "d < 10 \<Longrightarrow> digit_val (digit_char d) = Some d"
  by (simp add: digit_val_def digit_char_def Let_def of_char_of)

lemma FormatUint_not_Nil [simp]: "FormatUint n \<noteq> []"
  by (subst FormatUint.simps) simp

lemma FormatUint_digits: "c \<in> set (FormatUint n) \<Longrightarrow> digit_val c \<noteq> None"
proof (induction n rule: FormatUint.induct)
  case (1 n)
  then show ?case by (cases "n < 10") (auto simp: FormatUint.simps [of n])
qed

section \<open>Decimal parsing: ParseUint and Atoi\<close>

text \<open>
  The loop of \<open>ParseUint(s, 10, bits)\<close> reads from the left, and reports the first of a
  character that is no digit and a value past the largest of the given width.
\<close>

datatype num_result = Value nat | SyntaxError | RangeError

fun parse_loop :: "nat \<Rightarrow> nat \<Rightarrow> string \<Rightarrow> num_result" where
  "parse_loop bits n [] = Value n"
| "parse_loop bits n (c # cs) =
     (case digit_val c of
        None \<Rightarrow> SyntaxError
      | Some d \<Rightarrow> if n * 10 + d \<ge> 2 ^ bits then RangeError else parse_loop bits (n * 10 + d) cs)"

definition ParseUint :: "nat \<Rightarrow> string \<Rightarrow> num_result" where
  "ParseUint bits s = (if s = [] then SyntaxError else parse_loop bits 0 s)"

text \<open>
  The value of \<open>t, _ := strconv.Atoi(s)\<close>, whose error is dropped: 0 on a syntax error, and
  the nearest \<open>int64\<close> on a range error.
\<close>

definition Atoi :: "string \<Rightarrow> int" where
  "Atoi s =
     (let neg = (s \<noteq> [] \<and> hd s = CHR ''-'');
          body = (if s \<noteq> [] \<and> (hd s = CHR ''-'' \<or> hd s = CHR ''+'') then tl s else s)
      in case ParseUint 64 body of
           SyntaxError \<Rightarrow> 0
         | RangeError \<Rightarrow> if neg then - (2 ^ 63) else 2 ^ 63 - 1
         | Value n \<Rightarrow> if neg then (if n > 2 ^ 63 then - (2 ^ 63) else - int n)
                     else (if n \<ge> 2 ^ 63 then 2 ^ 63 - 1 else int n))"

fun decimal :: "nat \<Rightarrow> nat list \<Rightarrow> nat" where
  "decimal n [] = n"
| "decimal n (d # ds) = decimal (n * 10 + d) ds"

lemma decimal_mono: "n \<le> decimal n ds"
proof (induction ds arbitrary: n)
  case (Cons d ds)
  have "n \<le> n * 10 + d" by simp
  also have "\<dots> \<le> decimal (n * 10 + d) ds" by (rule Cons.IH)
  finally show ?case by simp
qed simp

lemma decimal_append: "decimal n (ds @ [d]) = decimal n ds * 10 + d"
  by (induction ds arbitrary: n) auto

lemma parse_loop_decimal:
  "map digit_val s = map Some ds \<Longrightarrow> decimal n ds < 2 ^ bits \<Longrightarrow>
     parse_loop bits n s = Value (decimal n ds)"
proof (induction s arbitrary: n ds)
  case (Cons c s)
  then obtain d ds' where ds: "ds = d # ds'" by (cases ds) auto
  have "n * 10 + d \<le> decimal (n * 10 + d) ds'" by (rule decimal_mono)
  with Cons.prems ds have "\<not> 2 ^ bits \<le> n * 10 + d" by simp
  with Cons ds show ?case by simp
qed simp

lemma FormatUint_decimal: "\<exists>ds. map digit_val (FormatUint n) = map Some ds \<and> decimal 0 ds = n"
proof (induction n rule: FormatUint.induct)
  case (1 n)
  show ?case
  proof (cases "n < 10")
    case True
    then show ?thesis
      by (intro exI [of _ "[n]"]) (simp add: FormatUint.simps [of n])
  next
    case False
    with 1 obtain ds where "map digit_val (FormatUint (n div 10)) = map Some ds"
      "decimal 0 ds = n div 10" by auto
    with False show ?thesis
      by (intro exI [of _ "ds @ [n mod 10]"]) (simp add: FormatUint.simps [of n] decimal_append)
  qed
qed

lemma ParseUint_FormatUint: "n < 2 ^ bits \<Longrightarrow> ParseUint bits (FormatUint n) = Value n"
  using FormatUint_decimal [of n] by (auto simp: ParseUint_def parse_loop_decimal)

lemma FormatUint_inject: "FormatUint m = FormatUint n \<longleftrightarrow> m = n"
proof
  assume eq: "FormatUint m = FormatUint n"
  have "max m n < 2 ^ max m n" by (rule less_exp)
  then have "m < 2 ^ max m n" "n < 2 ^ max m n" by linarith+
  with eq show "m = n" using ParseUint_FormatUint by (metis num_result.inject)
qed simp

section \<open>Splitting and joining at one character\<close>

fun Split :: "char \<Rightarrow> string \<Rightarrow> string list" where
  "Split sep [] = [[]]"
| "Split sep (c # cs) =
     (if c = sep then [] # Split sep cs
      else (case Split sep cs of [] \<Rightarrow> [[c]] | w # ws \<Rightarrow> (c # w) # ws))"

fun Join :: "char \<Rightarrow> string list \<Rightarrow> string" where
  "Join sep [] = []"
| "Join sep [w] = w"
| "Join sep (w # v # ws) = w @ sep # Join sep (v # ws)"

lemma Split_not_Nil [simp]: "Split sep s \<noteq> []"
  by (cases s) (auto split: list.splits)

lemma Split_no_sep: "sep \<notin> set w \<Longrightarrow> Split sep w = [w]"
  by (induction w) auto

lemma Split_append_sep: "sep \<notin> set w \<Longrightarrow> Split sep (w @ sep # s) = w # Split sep s"
  by (induction w) auto

lemma Split_Join:
  "ws \<noteq> [] \<Longrightarrow> \<forall>w \<in> set ws. sep \<notin> set w \<Longrightarrow> Split sep (Join sep ws) = ws"
  by (induction sep ws rule: Join.induct) (auto simp: Split_no_sep Split_append_sep)

section \<open>Substring search\<close>

definition Contains :: "string \<Rightarrow> string \<Rightarrow> bool" where
  "Contains s sub \<longleftrightarrow> list_ex (\<lambda>t. prefix sub t) (suffixes s)"

lemma Contains_sublist: "Contains s sub \<longleftrightarrow> sublist sub s"
  by (auto simp: Contains_def list_ex_iff sublist_altdef' Bex_def)

end
