(* ===== verification/Laser_Partition.thy ===== *)
theory Laser_Partition
  imports Laser_Strconv
begin

text \<open>
  Partitioning of keys, from \<^verbatim>\<open>src/sdk/go/laser_client/lib/format.go\<close> and
  \<^verbatim>\<open>src/sdk/go/laser_client/lib/partition.go\<close>: the hash of a key, the partition a key
  belongs to, and the shard a partition belongs to.

  The hash function of the package \<^verbatim>\<open>zentures/cityhash\<close> is not part of the repository; it is
  the argument \<open>city\<close> (data, length, seed) of every definition that uses it.
\<close>

section \<open>Keys\<close>

type_synonym cityhash = "string \<Rightarrow> uint32 \<Rightarrow> uint64 \<Rightarrow> uint64"

datatype KeyType = KeyType_DEFAULT | KeyType_COMPOSITE | KeyType_TTL_SORT

record LaserKeyFormat =
  primaryKeys :: "string list"
  columns :: "string list"
  keyType :: KeyType

text \<open>\<open>cityhash.CityHash64WithSeed([]byte(s), uint32(len(s)), seed)\<close>, the form of every call.\<close>

definition hash_str :: "cityhash \<Rightarrow> string \<Rightarrow> uint64 \<Rightarrow> uint64" where
  [go_defs]: "hash_str city s seed = city s (of_nat (length s)) seed"

definition NewLaserKeyFormat :: "string list \<Rightarrow> string list \<Rightarrow> LaserKeyFormat" where
  "NewLaserKeyFormat pks cols = \<lparr>primaryKeys = pks, columns = cols, keyType = KeyType_DEFAULT\<rparr>"

fun key_hash_loop :: "cityhash \<Rightarrow> string list \<Rightarrow> uint64 \<Rightarrow> uint64" where
  "key_hash_loop city [] res = res"
| "key_hash_loop city (key # keys) res = key_hash_loop city keys (hash_str city key res)"

definition GetKeyHash :: "cityhash \<Rightarrow> LaserKeyFormat \<Rightarrow> int64" where
  "GetKeyHash city kf = key_hash_loop city (primaryKeys kf) 0"

section \<open>Partitions\<close>

definition UINT32MAX :: int64 where
  "UINT32MAX = 4294967295"

definition abs64 :: "int64 \<Rightarrow> int64" where
  "abs64 v = (if sint v < 0 then - 1 * v else v)"

definition partition_key :: "cityhash \<Rightarrow> string \<Rightarrow> string \<Rightarrow> uint64 \<Rightarrow> int64" where
  "partition_key city dbName tableName seed = hash_str city tableName (hash_str city dbName seed)"

definition GetPartitionId ::
  "cityhash \<Rightarrow> string \<Rightarrow> string \<Rightarrow> LaserKeyFormat \<Rightarrow> int64 \<Rightarrow> uint32 go" where
  "GetPartitionId city dbName tableName formatKey partitionNumber =
     go_bind (go_rem64 (abs64 (partition_key city dbName tableName (GetKeyHash city formatKey)))
                partitionNumber)
       (\<lambda>r. Inr (ucast r))"

definition getShardId :: "int64 \<Rightarrow> uint32 \<Rightarrow> int64 go" where
  "getShardId partitionHash shardNumber =
     (if shardNumber = 0 then Inr UINT32MAX
      else go_rem64 (abs64 partitionHash) (ucast shardNumber))"

datatype DbRole = DbRole_LEADER | DbRole_Follower

record Partition =
  p_databaseName :: string
  p_tableName :: string
  p_partitionId :: uint32
  p_shardId :: int64
  p_dbRole :: DbRole

definition NewPartition :: "string \<Rightarrow> string \<Rightarrow> uint32 \<Rightarrow> Partition" where
  "NewPartition dbName tableName partitionId =
     \<lparr>p_databaseName = dbName, p_tableName = tableName, p_partitionId = partitionId,
      p_shardId = 0, p_dbRole = DbRole_LEADER\<rparr>"

definition GetPartitionHash :: "cityhash \<Rightarrow> Partition \<Rightarrow> int64" where
  "GetPartitionHash city p =
     partition_key city (p_databaseName p) (p_tableName p) (ucast (p_partitionId p))"

definition GetShardIdByShardNumber :: "cityhash \<Rightarrow> Partition \<Rightarrow> uint32 \<Rightarrow> int64 go" where
  "GetShardIdByShardNumber city p shardNumber = getShardId (GetPartitionHash city p) shardNumber"

section \<open>Arithmetic of the partition and shard numbers\<close>

definition MinInt64 :: int64 where
  "MinInt64 = 0x8000000000000000"

lemma sint_MinInt64: "sint MinInt64 = - (9223372036854775808)"
  by (simp add: MinInt64_def)

lemma MinInt64_iff: "v = MinInt64 \<longleftrightarrow> sint v = - (9223372036854775808)"
  by (metis sint_MinInt64 signed_word_eqI)

lemma sint_uminus64:
  assumes "v \<noteq> MinInt64"
  shows "sint (- v) = - sint v"
proof -
  have "sint v \<noteq> - 9223372036854775808" using assms by (simp only: MinInt64_iff not_False_eq_True)
  then have "sint (word_of_int (- sint v) :: int64) = - sint v"
    using sint64_range [of v] by (intro sint_word_of_int_64) linarith+
  then show ?thesis by (simp only: of_int_minus of_int_sint scast_id)
qed

lemma sint_abs64:
  assumes "v \<noteq> MinInt64"
  shows "sint (abs64 v) = \<bar>sint v\<bar>"
proof (cases "sint v < 0")
  case True
  then have "sint (abs64 v) = sint (- v)" by (simp only: abs64_def mult_minus1 if_True)
  with True show ?thesis using sint_uminus64 [OF assms] by linarith
next
  case False
  then show ?thesis by (simp only: abs64_def if_False abs_of_nonneg linorder_not_less [symmetric] not_False_eq_True)
qed

lemma abs64_MinInt64: "abs64 MinInt64 = MinInt64"
  by (simp add: abs64_def MinInt64_def)

lemma smod_nonneg: "0 \<le> a \<Longrightarrow> 0 < b \<Longrightarrow> (a :: int) smod b = a mod b"
  by (simp add: smod_int_alt_def sgn_if)

lemma go_rem64_abs64:
  assumes "v \<noteq> MinInt64" "0 < sint n"
  shows "\<exists>r. go_rem64 (abs64 v) n = Inr r \<and> sint r = \<bar>sint v\<bar> mod sint n"
proof -
  have n: "n \<noteq> 0" using assms(2) by auto
  let ?m = "\<bar>sint v\<bar> mod sint n"
  have "0 \<le> ?m" "?m < sint n" using assms(2) by simp_all
  then have "sint (word_of_int ?m :: int64) = ?m"
    using sint64_range(2) [of n] by (intro sint_word_of_int_64) linarith+
  with n assms show ?thesis by (simp add: go_rem64_def sint_abs64 smod_nonneg)
qed

lemma sint_ucast32: "sint (ucast (n :: uint32) :: int64) = uint n"
proof -
  have "uint n < 4294967296" "0 \<le> uint n" using uint_lt2p [of n] by simp_all
  then have "sint (word_of_int (uint n) :: int64) = uint n"
    by (intro sint_word_of_int_64) linarith+
  then show ?thesis by (simp only: ucast_eq)
qed

lemma uint_ucast_word_of_int:
  "uint (ucast (word_of_int k :: int64) :: uint32) = k mod 4294967296"
proof -
  have "uint (ucast (word_of_int k :: int64) :: uint32) = take_bit 32 (take_bit 64 k)"
    by (simp add: unsigned_ucast_eq uint_word_of_int_eq)
  then show ?thesis by (simp add: take_bit_eq_mod [of 32])
qed

lemma unat_ucast_of_sint:
  assumes "0 \<le> sint r" "sint (r :: int64) < 4294967296"
  shows "int (unat (ucast r :: uint32)) = sint r"
proof -
  have "uint (ucast r :: uint32) = take_bit 32 (uint r)"
    by (simp add: unsigned_ucast_eq)
  also have "\<dots> = take_bit 32 (sint r)"
    by (simp add: sint_uint take_bit_signed_take_bit)
  also have "\<dots> = sint r" using assms by (simp add: take_bit_int_eq_self)
  finally show ?thesis by simp
qed

section \<open>Partition and shard numbers stay in range\<close>

lemma partition_id_below:
  assumes "partition_key city db tab (GetKeyHash city kf) \<noteq> MinInt64"
    and "0 < sint n" and "sint n \<le> 4294967296"
  shows "\<exists>i. GetPartitionId city db tab kf n = Inr i \<and>
    int (unat i) = \<bar>sint (partition_key city db tab (GetKeyHash city kf))\<bar> mod sint n \<and>
    int (unat i) < sint n"
proof -
  let ?h = "partition_key city db tab (GetKeyHash city kf)"
  obtain r where r: "go_rem64 (abs64 ?h) n = Inr r" "sint r = \<bar>sint ?h\<bar> mod sint n"
    using go_rem64_abs64 [OF assms(1,2)] by blast
  have "0 \<le> sint r" "sint r < sint n" using r(2) assms(2) by simp_all
  then have "int (unat (ucast r :: uint32)) = sint r"
    using assms(3) by (intro unat_ucast_of_sint) linarith+
  with r \<open>sint r < sint n\<close> show ?thesis by (simp add: GetPartitionId_def)
qed

text \<open>C31. The partition of a key is a number below the table's partition number: for a positive
  partition number that fits 32 bits, \<open>GetPartitionId\<close> does not panic and returns the
  absolute value of the combined hash modulo the partition number. The one hash value left out
  is the least \<open>int64\<close>, whose absolute value is not an \<open>int64\<close>.\<close>

theorem GetPartitionId_in_range:
  assumes "partition_key city db tab (GetKeyHash city kf) \<noteq> MinInt64"
    and "0 < sint n" and "sint n \<le> 4294967296"
  shows "\<exists>i. GetPartitionId city db tab kf n = Inr i \<and>
    int (unat i) = \<bar>sint (partition_key city db tab (GetKeyHash city kf))\<bar> mod sint n \<and>
    int (unat i) < sint n"
  using assms by (rule partition_id_below)

definition toy_city :: cityhash where
  "toy_city s l seed = seed + ucast l"

theorem GetPartitionId_in_range_witness:
  "\<exists>i. GetPartitionId toy_city ''db'' ''tab'' (NewLaserKeyFormat [''k1''] []) 5 = Inr i \<and>
     int (unat i) < 5"
  using GetPartitionId_in_range [of toy_city "''db''" "''tab''" "NewLaserKeyFormat [''k1''] []" 5]
  by (auto simp: partition_key_def hash_str_def toy_city_def GetKeyHash_def NewLaserKeyFormat_def
      MinInt64_def)

text \<open>C40. On the least \<open>int64\<close> the partition number is out of range: \<open>abs\<close> returns its argument,
  the remainder is negative, and the conversion to \<open>uint32\<close> gives a number at least as large as
  the partition number, unless the partition number divides \<open>2^63\<close>.\<close>

theorem GetPartitionId_MinInt64_escapes:
  assumes "partition_key city db tab (GetKeyHash city kf) = MinInt64"
    and "0 < sint n" and "sint n < 2147483648" and "\<not> sint n dvd 9223372036854775808"
  shows "\<exists>i. GetPartitionId city db tab kf n = Inr i \<and> sint n \<le> int (unat i)"
proof -
  let ?m = "9223372036854775808 mod sint n"
  have n: "n \<noteq> 0" using assms(2) by auto
  have "0 \<le> ?m" "?m \<noteq> 0" using assms(2,4) by (simp_all add: dvd_eq_mod_eq_0)
  then have m: "0 < ?m" "?m < sint n"
    using assms(2) pos_mod_bound [of "sint n" 9223372036854775808] by linarith+
  have "sint MinInt64 smod sint n = - ?m" using assms(2)
    by (simp add: sint_MinInt64 smod_int_alt_def)
  then have id: "GetPartitionId city db tab kf n = Inr (ucast (word_of_int (- ?m) :: int64))"
    using n by (simp add: GetPartitionId_def assms(1) go_rem64_def abs64_MinInt64)
  have "uint (ucast (word_of_int (- ?m) :: int64) :: uint32) = (- ?m) mod 4294967296"
    by (rule uint_ucast_word_of_int)
  also have "\<dots> = 4294967296 - ?m" using m assms(3)
    by (simp add: zmod_zminus1_eq_if)
  finally have "sint n \<le> int (unat (ucast (word_of_int (- ?m) :: int64) :: uint32))"
    using m assms(3) by simp
  with id show ?thesis by blast
qed

theorem GetPartitionId_MinInt64_escapes_witness:
  "\<exists>i. GetPartitionId (\<lambda>s l seed. MinInt64) ''db'' ''tab'' (NewLaserKeyFormat [''k1''] []) 3 = Inr i \<and>
     3 \<le> int (unat i)"
  using GetPartitionId_MinInt64_escapes
    [of "\<lambda>s l seed. MinInt64" "''db''" "''tab''" "NewLaserKeyFormat [''k1''] []" 3]
  by (simp add: partition_key_def hash_str_def)

text \<open>\<open>getShardId\<close> never panics: the shard number 0 selects the marker \<open>UINT32MAX\<close> of an unsharded
  service, and any other shard number gives a shard id between 0 and the shard number, for every
  partition hash but the least \<open>int64\<close>.\<close>

theorem getShardId_in_range:
  "\<exists>r. getShardId h s = Inr r \<and>
     (if s = 0 then r = UINT32MAX
      else h \<noteq> MinInt64 \<longrightarrow> sint r = \<bar>sint h\<bar> mod uint s \<and> 0 \<le> sint r \<and> sint r < uint s)"
proof (cases "s = 0")
  case True
  then show ?thesis by (simp add: getShardId_def)
next
  case False
  then have "uint s \<noteq> 0" by (simp add: uint_0_iff)
  then have pos: "0 < sint (ucast s :: int64)" using uint_ge_0 [of s] by (simp only: sint_ucast32)
  show ?thesis
  proof (cases "h = MinInt64")
    case True
    with False pos show ?thesis by (auto simp: getShardId_def go_rem64_def)
  next
    case neq: False
    from go_rem64_abs64 [OF neq pos] False pos show ?thesis
      by (auto simp: getShardId_def sint_ucast32)
  qed
qed

theorem getShardId_in_range_witness:
  "\<exists>r. getShardId 10 4 = Inr r \<and> 0 \<le> sint r \<and> sint r < 4"
  using getShardId_in_range [of 10 4] by (auto simp: MinInt64_def)

end
