(* ===== verification/Laser_Entity.thy ===== *)
theory Laser_Entity
  imports Laser_Strconv
begin

text \<open>
  The data the service router passes around and the names it is stored under: constants and
  types of \<^verbatim>\<open>router.go\<close> and \<^verbatim>\<open>registry.go\<close> and the key paths of \<^verbatim>\<open>node.go\<close>, all in
  \<^verbatim>\<open>src/sdk/go/common/service_router\<close>.

  A slice is a list; a nil slice and an empty one are the same list except where the code
  tells them apart, in which case the field is an option.
\<close>

section \<open>Constants\<close>

abbreviation (input) LoadBalanceMethod_RANDOM :: string where
  "LoadBalanceMethod_RANDOM \<equiv> ''random''"
abbreviation (input) LoadBalanceMethod_ROUNDROBIN :: string where
  "LoadBalanceMethod_ROUNDROBIN \<equiv> ''roundrobin''"
abbreviation (input) LoadBalanceMethod_LOCALFIRST :: string where
  "LoadBalanceMethod_LOCALFIRST \<equiv> ''localfirst''"
abbreviation (input) LoadBalanceMethod_CONSISTENT :: string where
  "LoadBalanceMethod_CONSISTENT \<equiv> ''consistent''"
abbreviation (input) LoadBalanceMethod_CONFIGURABLE_WEIGHT :: string where
  "LoadBalanceMethod_CONFIGURABLE_WEIGHT \<equiv> ''configurable_weight''"
abbreviation (input) LoadBalanceMethod_ACTIVE_WEIGHT :: string where
  "LoadBalanceMethod_ACTIVE_WEIGHT \<equiv> ''active_weight''"
abbreviation (input) LoadBalanceMethod_USER_DEFINED :: string where
  "LoadBalanceMethod_USER_DEFINED \<equiv> ''user_defined''"
abbreviation (input) LoadBalanceMethod_IPRANGEFIRST :: string where
  "LoadBalanceMethod_IPRANGEFIRST \<equiv> ''iprangefirst''"
abbreviation (input) LoadBalanceMethod_STATIC_WEIGHT :: string where
  "LoadBalanceMethod_STATIC_WEIGHT \<equiv> ''static_weight''"

definition SupportedLoadBalanceMethod :: "string \<rightharpoonup> bool" where
  "SupportedLoadBalanceMethod = map_of
     [(LoadBalanceMethod_RANDOM, True),
      (LoadBalanceMethod_ROUNDROBIN, True),
      (LoadBalanceMethod_LOCALFIRST, True),
      (LoadBalanceMethod_CONSISTENT, False),
      (LoadBalanceMethod_CONFIGURABLE_WEIGHT, True),
      (LoadBalanceMethod_ACTIVE_WEIGHT, False),
      (LoadBalanceMethod_IPRANGEFIRST, True),
      (LoadBalanceMethod_STATIC_WEIGHT, True),
      (LoadBalanceMethod_USER_DEFINED, False)]"

abbreviation (input) ShardType_ALL :: string where "ShardType_ALL \<equiv> ''0''"
abbreviation (input) ShardType_LEADER :: string where "ShardType_LEADER \<equiv> ''1''"
abbreviation (input) ShardType_FOLLOWER :: string where "ShardType_FOLLOWER \<equiv> ''2''"

abbreviation (input) ServerProtocol_HTTP :: string where "ServerProtocol_HTTP \<equiv> ''http''"
abbreviation (input) ServerProtocol_THRIFT :: string where "ServerProtocol_THRIFT \<equiv> ''thrift''"

abbreviation (input) ServerStatus_AVAILABLE :: string where
  "ServerStatus_AVAILABLE \<equiv> ''available''"
abbreviation (input) ServerStatus_UNAVAILABLE :: string where
  "ServerStatus_UNAVAILABLE \<equiv> ''unavailable''"

definition DEFAULT_DC :: string where
  "DEFAULT_DC = ''default''"

section \<open>Servers and configuration\<close>

record Server =
  Host :: string
  Port :: uint16
  ServiceName :: string
  Protocol :: string
  Status :: string
  UpdateTime :: uint64
  Weight :: uint32
  ShardList :: "uint32 list"
  AvailableShardList :: "uint32 list"
  FollowerShardList :: "uint32 list"
  FollowerAvailableShardList :: "uint32 list"
  OtherSettings :: "(string, string) gomap"
  PartitionList :: "int64 list"
  IsEdgeNode :: bool
  Idc :: string
  Dc :: string

type_synonym ServerList = "Server list"

text \<open>The zero value of \<open>Server\<close>.\<close>

definition empty_server :: Server where
  "empty_server = \<lparr>Host = [], Port = 0, ServiceName = [], Protocol = [], Status = [],
     UpdateTime = 0, Weight = 0, ShardList = [], AvailableShardList = [],
     FollowerShardList = [], FollowerAvailableShardList = [], OtherSettings = [],
     PartitionList = [], IsEdgeNode = False, Idc = [], Dc = []\<rparr>"

record BalanceLocalFirstConfig =
  LocalIp :: string
  DiffRange :: int64

record ServerAddress =
  AddrHost :: string
  AddrPort :: uint16

record ServiceRouterConfig =
  TtlInMs :: uint32
  LoadBalanceMethod :: string
  TotalShards :: uint32
  PullInterval :: uint32

record ServiceConfig =
  RouterPart :: ServiceRouterConfig
  Configs :: "(string, string) gomap option"

definition DefaultServiceRouterConfig :: ServiceRouterConfig where
  "DefaultServiceRouterConfig = \<lparr>TtlInMs = 300000, LoadBalanceMethod = LoadBalanceMethod_RANDOM,
     TotalShards = 0, PullInterval = 3\<rparr>"

section \<open>Key paths in the registry\<close>

definition GetNodeName :: "Server \<Rightarrow> string" where
  "GetNodeName server =
     Protocol server @ '':'' @ Host server @ '':'' @ FormatUint (unat (Port server))"

definition GetNodesPath :: "Server \<Rightarrow> string" where
  "GetNodesPath server = ''ads-core/services/'' @ ServiceName server @ ''/nodes/''"

definition GetNodePath :: "Server \<Rightarrow> string" where
  "GetNodePath server = GetNodesPath server @ GetNodeName server"

definition GetConfigPath :: "Server \<Rightarrow> string" where
  "GetConfigPath server = ''ads-core/services/'' @ ServiceName server @ ''/config/''"

definition GetConfigVersionPath :: "Server \<Rightarrow> string" where
  "GetConfigVersionPath server = GetConfigPath server @ ''version''"

definition GetConfigsPath :: "Server \<Rightarrow> string" where
  "GetConfigsPath server = GetConfigPath server @ ''configs/''"

definition GetRouterConfigPath :: "Server \<Rightarrow> string" where
  "GetRouterConfigPath server = GetConfigPath server @ ''router''"

lemma FormatUint_no_colon [simp]: "CHR '':'' \<notin> set (FormatUint n)"
  using FormatUint_digits [of "CHR '':''" n] by (auto simp: digit_val_def)

lemma Split_GetNodeName:
  assumes "CHR '':'' \<notin> set (Protocol s)" "CHR '':'' \<notin> set (Host s)"
  shows "Split (CHR '':'') (GetNodeName s) =
    [Protocol s, Host s, FormatUint (unat (Port s))]"
  using assms by (simp add: GetNodeName_def Split_append_sep Split_no_sep)

text \<open>The registry keeps one entry per address: two servers of one service are stored under the
  same node path only if their protocol, host and port agree, provided protocols and hosts
  contain no colon.\<close>

theorem GetNodePath_injective:
  assumes "ServiceName s = ServiceName t" and "GetNodePath s = GetNodePath t"
    and "CHR '':'' \<notin> set (Protocol s)" "CHR '':'' \<notin> set (Host s)"
    and "CHR '':'' \<notin> set (Protocol t)" "CHR '':'' \<notin> set (Host t)"
  shows "Protocol s = Protocol t \<and> Host s = Host t \<and> Port s = Port t"
proof -
  have "GetNodeName s = GetNodeName t"
    using assms(1,2) by (simp add: GetNodePath_def GetNodesPath_def)
  then have "Split (CHR '':'') (GetNodeName s) = Split (CHR '':'') (GetNodeName t)" by simp
  with assms show ?thesis by (simp add: Split_GetNodeName FormatUint_inject word_unat_eq_iff)
qed

theorem GetNodePath_injective_witness:
  "GetNodePath (empty_server\<lparr>Protocol := ''thrift'', Host := ''10.0.0.1'', Port := 18080\<rparr>) \<noteq>
   GetNodePath (empty_server\<lparr>Protocol := ''thrift'', Host := ''10.0.0.11'', Port := 8080\<rparr>)"
  using GetNodePath_injective
    [of "empty_server\<lparr>Protocol := ''thrift'', Host := ''10.0.0.1'', Port := 18080\<rparr>"
        "empty_server\<lparr>Protocol := ''thrift'', Host := ''10.0.0.11'', Port := 8080\<rparr>"]
  by (auto simp: empty_server_def)

end
