(* ===== verification/Laser_Config.thy ===== *)
theory Laser_Config
  imports Laser_Partition Laser_Entity
begin

text \<open>
  The client's view of the cluster configuration, from
  \<^verbatim>\<open>src/sdk/go/laser_client/lib/config_manager.go\<close> and the part of \<^verbatim>\<open>partition.go\<close> that reads it.
  The decoders of the two JSON documents are the arguments \<open>decodeSchemas\<close> and \<open>decodeCluster\<close>
  (None: the document does not decode).
\<close>

section \<open>State\<close>

record TableSchema =
  ts_DatabaseName :: string
  ts_TableName :: string
  ts_PartitionNumber :: int64
  ts_Ttl :: uint64
  ts_BindEdgeNodes :: "string list option"
  ts_EdgeFlowRatio :: int64
  ts_Dc :: string
  ts_DistDc :: string

record DatabaseSchema =
  ds_DatabaseName :: string
  ds_Tables :: "TableSchema list"

record NodeShardList =
  nsl_NodeId :: uint32
  nsl_LeaderShardList :: "uint32 list"
  nsl_FollowerShardList :: "uint32 list"
  nsl_IsEdgeNode :: bool

record DataCenter =
  dc_Name :: string
  dc_ShardNumber :: uint32

record ClusterGroup =
  cg_GroupName :: string
  cg_Nodes :: "NodeShardList list"
  cg_Dc :: string

record ClusterInfo =
  ci_ClusterName :: string
  ci_ShardNumber :: uint32
  ci_Dcs :: "DataCenter list"
  ci_Groups :: "ClusterGroup list"

record ConfigManager =
  cm_targetServiceName :: string
  cm_tableSchemas :: "uint64 \<rightharpoonup> TableSchema"
  cm_clusterInfo :: ClusterInfo
  cm_dcs :: "string \<rightharpoonup> DataCenter"

abbreviation (input) LASER_CONFIG_DATABASE_TABLE_SCHEMA_DATA :: string where
  "LASER_CONFIG_DATABASE_TABLE_SCHEMA_DATA \<equiv> ''database_table_schema_data''"
abbreviation (input) LASER_CONFIG_CLUSTER_INFO :: string where
  "LASER_CONFIG_CLUSTER_INFO \<equiv> ''cluster_info_data''"

definition NewConfigManager :: "string \<Rightarrow> ConfigManager" where
  "NewConfigManager service = \<lparr>cm_targetServiceName = service, cm_tableSchemas = Map.empty,
     cm_clusterInfo = \<lparr>ci_ClusterName = [], ci_ShardNumber = 0, ci_Dcs = [], ci_Groups = []\<rparr>,
     cm_dcs = Map.empty\<rparr>"

section \<open>Operations\<close>

definition getTableSchemaHash :: "cityhash \<Rightarrow> string \<Rightarrow> string \<Rightarrow> uint64" where
  "getTableSchemaHash city databaseName tableName =
     hash_str city tableName (hash_str city databaseName 0)"

text \<open>The entries the two nested loops over databases and tables write, in order.\<close>

definition schema_entries :: "cityhash \<Rightarrow> DatabaseSchema list \<Rightarrow> (uint64 \<times> TableSchema) list" where
  "schema_entries city dbs =
     concat (map (\<lambda>db. map (\<lambda>t. (getTableSchemaHash city (ds_DatabaseName db) (ts_TableName t),
                                t\<lparr>ts_DatabaseName := ds_DatabaseName db\<rparr>)) (ds_Tables db)) dbs)"

definition config_notify_entry ::
  "cityhash \<Rightarrow> (string \<Rightarrow> DatabaseSchema list option) \<Rightarrow> (string \<Rightarrow> ClusterInfo option) \<Rightarrow>
   string \<times> string \<Rightarrow> ConfigManager \<Rightarrow> ConfigManager" where
  "config_notify_entry city decodeSchemas decodeCluster kv cm =
     (case kv of (k, v) \<Rightarrow>
        if Contains k LASER_CONFIG_DATABASE_TABLE_SCHEMA_DATA then
          (case decodeSchemas v of
             None \<Rightarrow> cm
           | Some dbs \<Rightarrow> cm\<lparr>cm_tableSchemas := put_all (schema_entries city dbs) Map.empty\<rparr>)
        else if Contains k LASER_CONFIG_CLUSTER_INFO then
          (case decodeCluster v of
             None \<Rightarrow> cm
           | Some ci \<Rightarrow> cm\<lparr>cm_clusterInfo := ci,
                            cm_dcs := put_all (map (\<lambda>dc. (dc_Name dc, dc)) (ci_Dcs ci)) Map.empty\<rparr>)
        else cm)"

definition ConfigNotify ::
  "cityhash \<Rightarrow> (string \<Rightarrow> DatabaseSchema list option) \<Rightarrow> (string \<Rightarrow> ClusterInfo option) \<Rightarrow>
   ((string \<times> string) list \<Rightarrow> (string \<times> string) list) \<Rightarrow> ServiceConfig \<Rightarrow> ConfigManager \<Rightarrow> ConfigManager" where
  "ConfigNotify city decodeSchemas decodeCluster order config cm =
     fold (config_notify_entry city decodeSchemas decodeCluster)
       (order (case Configs config of None \<Rightarrow> [] | Some m \<Rightarrow> m)) cm"

definition GetTableSchema :: "cityhash \<Rightarrow> ConfigManager \<Rightarrow> string \<Rightarrow> string \<Rightarrow> TableSchema option" where
  "GetTableSchema city cm databaseName tableName =
     cm_tableSchemas cm (getTableSchemaHash city databaseName tableName)"

definition GetShardNumber :: "ConfigManager \<Rightarrow> string \<Rightarrow> uint32" where
  "GetShardNumber cm dc =
     (case cm_dcs cm dc of
        Some d \<Rightarrow> dc_ShardNumber d
      | None \<Rightarrow> ci_ShardNumber (cm_clusterInfo cm))"

definition GetShardId :: "cityhash \<Rightarrow> Partition \<Rightarrow> ConfigManager \<Rightarrow> string \<Rightarrow> int64 go" where
  "GetShardId city p cm dc = getShardId (GetPartitionHash city p) (GetShardNumber cm dc)"

section \<open>What the configuration answers after a notification\<close>

abbreviation (input) schema_key :: "string \<Rightarrow> bool" where
  "schema_key k \<equiv> Contains k LASER_CONFIG_DATABASE_TABLE_SCHEMA_DATA"
abbreviation (input) cluster_key :: "string \<Rightarrow> bool" where
  "cluster_key k \<equiv> \<not> schema_key k \<and> Contains k LASER_CONFIG_CLUSTER_INFO"

lemma fold_frame:
  assumes "\<And>x s. x \<in> set xs \<Longrightarrow> g (f x s) = g s"
  shows "g (fold f xs s) = g s"
  using assms by (induction xs arbitrary: s) auto

text \<open>A loop over a map in which one entry only writes the field \<open>g\<close>.\<close>

lemma fold_single_writer:
  assumes "is_order order" "distinct (map fst m)" "(k, v) \<in> set m"
    and other: "\<And>x s. x \<in> set m \<Longrightarrow> fst x \<noteq> k \<Longrightarrow> g (f x s) = g s"
    and writer: "\<And>s. g (f (k, v) s) = w"
  shows "g (fold f (order m) s) = w"
proof -
  have "(k, v) \<in> set (order m)" using assms(1,3) by (simp add: is_orderD)
  then obtain xs ys where split: "order m = xs @ (k, v) # ys" by (meson split_list)
  have "distinct (map fst (order m))" using assms(1,2) by (simp add: is_orderD)
  then have ys: "k \<notin> fst ` set ys" using split by auto
  have "set ys \<subseteq> set m" using split is_orderD(2) [OF assms(1), of m] by auto
  with ys have "g (fold f ys (f (k, v) (fold f xs s))) = g (f (k, v) (fold f xs s))"
    by (intro fold_frame other) force+
  with split writer show ?thesis by simp
qed

text \<open>The tables a schema document lists under one database and table name, in order.\<close>

definition listed_tables :: "DatabaseSchema list \<Rightarrow> string \<Rightarrow> string \<Rightarrow> TableSchema list" where
  "listed_tables dbs d t =
     concat (map (\<lambda>db. if ds_DatabaseName db = d
                       then filter (\<lambda>ts. ts_TableName ts = t) (ds_Tables db) else []) dbs)"

definition listed_pairs :: "DatabaseSchema list \<Rightarrow> (string \<times> string) set" where
  "listed_pairs dbs = (\<Union>db \<in> set dbs. (\<lambda>ts. (ds_DatabaseName db, ts_TableName ts)) ` set (ds_Tables db))"

lemma values_at_schema_entries:
  assumes "inj_on (\<lambda>(d, t). getTableSchemaHash city d t) (insert (d, t) (listed_pairs dbs))"
  shows "values_at (getTableSchemaHash city d t) (schema_entries city dbs) =
    map (\<lambda>ts. ts\<lparr>ts_DatabaseName := d\<rparr>) (listed_tables dbs d t)"
  using assms
proof (induction dbs)
  case Nil
  then show ?case by (simp add: schema_entries_def listed_tables_def)
next
  case (Cons db dbs)
  have eq: "getTableSchemaHash city (ds_DatabaseName db) (ts_TableName ts) = getTableSchemaHash city d t
      \<longleftrightarrow> ds_DatabaseName db = d \<and> ts_TableName ts = t" if "ts \<in> set (ds_Tables db)" for ts
    using inj_on_eq_iff [OF Cons.prems, of "(ds_DatabaseName db, ts_TableName ts)" "(d, t)"] that
    by (auto simp: listed_pairs_def)
  have "filter (\<lambda>ts. getTableSchemaHash city (ds_DatabaseName db) (ts_TableName ts)
          = getTableSchemaHash city d t) (ds_Tables db)
      = (if ds_DatabaseName db = d then filter (\<lambda>ts. ts_TableName ts = t) (ds_Tables db) else [])"
    using eq by (auto intro: filter_cong simp: filter_empty_conv)
  moreover have "inj_on (\<lambda>(d, t). getTableSchemaHash city d t) (insert (d, t) (listed_pairs dbs))"
    by (rule inj_on_subset [OF Cons.prems]) (auto simp: listed_pairs_def)
  ultimately show ?case using Cons.IH
    by (simp add: schema_entries_def listed_tables_def values_at_pair)
qed

text \<open>Looking a table up after the schema document arrived gives the table the document lists (the
  last one if it lists several of that name) with its database name filled in, and nothing if it
  lists none. This holds for every iteration order of the configuration map, if one key of it
  carries the schema and the table hash has no collision among the names involved.\<close>

theorem GetTableSchema_after_notify:
  assumes "is_order order" and "Configs config = Some m" and "distinct (map fst m)"
    and "(k, v) \<in> set m" and "schema_key k" and "\<forall>k' \<in> fst ` set m. schema_key k' \<longrightarrow> k' = k"
    and "decodeSchemas v = Some dbs"
    and "inj_on (\<lambda>(d, t). getTableSchemaHash city d t) (insert (d, t) (listed_pairs dbs))"
  shows "GetTableSchema city (ConfigNotify city decodeSchemas decodeCluster order config cm) d t =
    map_option (\<lambda>ts. ts\<lparr>ts_DatabaseName := d\<rparr>) (last_opt (listed_tables dbs d t))"
proof -
  let ?f = "config_notify_entry city decodeSchemas decodeCluster"
  have "cm_tableSchemas (fold ?f (order m) cm) = put_all (schema_entries city dbs) Map.empty"
  proof (rule fold_single_writer [OF assms(1,3,4)])
    fix x s assume "x \<in> set m" "fst x \<noteq> k"
    with assms(6) have "\<not> schema_key (fst x)" by auto
    then show "cm_tableSchemas (?f x s) = cm_tableSchemas s"
      by (cases x) (simp add: config_notify_entry_def split: option.split)
  next
    fix s show "cm_tableSchemas (?f (k, v) s) = put_all (schema_entries city dbs) Map.empty"
      using assms(5,7) by (simp add: config_notify_entry_def)
  qed
  then show ?thesis
    by (simp add: GetTableSchema_def ConfigNotify_def assms(2) put_all_last
        values_at_schema_entries [OF assms(8)] last_opt_map split: option.split)
qed

text \<open>After the cluster document arrived the shard number of a data centre is the one the document
  gives it (the last entry of that name), and the cluster's own shard number for a data centre it does
  not name.\<close>

theorem GetShardNumber_after_notify:
  assumes "is_order order" and "Configs config = Some m" and "distinct (map fst m)"
    and "(k, v) \<in> set m" and "cluster_key k" and "\<forall>k' \<in> fst ` set m. cluster_key k' \<longrightarrow> k' = k"
    and "decodeCluster v = Some ci"
  shows "GetShardNumber (ConfigNotify city decodeSchemas decodeCluster order config cm) dc =
    (case last_opt (filter (\<lambda>x. dc_Name x = dc) (ci_Dcs ci)) of
       Some x \<Rightarrow> dc_ShardNumber x | None \<Rightarrow> ci_ShardNumber ci)"
proof -
  let ?f = "config_notify_entry city decodeSchemas decodeCluster"
  let ?g = "\<lambda>cm. (cm_clusterInfo cm, cm_dcs cm)"
  have "?g (fold ?f (order m) cm) = (ci, put_all (map (\<lambda>x. (dc_Name x, x)) (ci_Dcs ci)) Map.empty)"
  proof (rule fold_single_writer [OF assms(1,3,4)])
    fix x s assume "x \<in> set m" "fst x \<noteq> k"
    with assms(6) have "\<not> cluster_key (fst x)" by auto
    then show "?g (?f x s) = ?g s"
      by (cases x) (auto simp: config_notify_entry_def split: option.split)
  next
    fix s show "?g (?f (k, v) s) = (ci, put_all (map (\<lambda>x. (dc_Name x, x)) (ci_Dcs ci)) Map.empty)"
      using assms(5,7) by (simp add: config_notify_entry_def)
  qed
  then show ?thesis
    by (simp add: GetShardNumber_def ConfigNotify_def assms(2) put_all_last values_at_pair
        split: option.split)
qed

text \<open>A small configuration for the witnesses.\<close>

definition example_table :: TableSchema where
  "example_table = \<lparr>ts_DatabaseName = [], ts_TableName = ''t'', ts_PartitionNumber = 100, ts_Ttl = 0,
     ts_BindEdgeNodes = None, ts_EdgeFlowRatio = 0, ts_Dc = ''default'', ts_DistDc = []\<rparr>"

definition example_schemas :: "string \<Rightarrow> DatabaseSchema list option" where
  "example_schemas v = (if v = ''s'' then
     Some [\<lparr>ds_DatabaseName = ''db'', ds_Tables = [example_table]\<rparr>] else None)"

definition example_cluster :: "string \<Rightarrow> ClusterInfo option" where
  "example_cluster v = (if v = ''c'' then
     Some \<lparr>ci_ClusterName = ''x'', ci_ShardNumber = 400,
       ci_Dcs = [\<lparr>dc_Name = ''d1'', dc_ShardNumber = 10\<rparr>], ci_Groups = []\<rparr> else None)"

definition example_config :: ServiceConfig where
  "example_config = \<lparr>RouterPart = DefaultServiceRouterConfig,
     Configs = Some [(''p/database_table_schema_data'', ''s''), (''p/cluster_info_data'', ''c'')]\<rparr>"

lemma example_config_keys:
  "schema_key ''p/database_table_schema_data''" "\<not> schema_key ''p/cluster_info_data''"
  "Contains ''p/cluster_info_data'' LASER_CONFIG_CLUSTER_INFO"
  by (simp_all add: Contains_def)

theorem GetTableSchema_after_notify_witness:
  "GetTableSchema toy_city
     (ConfigNotify toy_city example_schemas example_cluster rev example_config (NewConfigManager ''s''))
     ''db'' ''t'' = Some (example_table\<lparr>ts_DatabaseName := ''db''\<rparr>)"
  by (subst GetTableSchema_after_notify
      [OF is_order_rev, where m = "[(''p/database_table_schema_data'', ''s''), (''p/cluster_info_data'', ''c'')]"
        and k = "''p/database_table_schema_data''" and v = "''s''"
        and dbs = "[\<lparr>ds_DatabaseName = ''db'', ds_Tables = [example_table]\<rparr>]"])
    (auto simp: example_config_def example_schemas_def listed_tables_def listed_pairs_def
      example_table_def example_config_keys)

theorem GetShardNumber_after_notify_witness:
  "GetShardNumber
     (ConfigNotify toy_city example_schemas example_cluster rev example_config (NewConfigManager ''s''))
     ''d1'' = 10"
  by (subst GetShardNumber_after_notify
      [OF is_order_rev, where m = "[(''p/database_table_schema_data'', ''s''), (''p/cluster_info_data'', ''c'')]"
        and k = "''p/cluster_info_data''" and v = "''c''"
        and ci = "the (example_cluster ''c'')"])
    (auto simp: example_config_def example_cluster_def example_config_keys)

end
