(* ===== verification/Laser_Pool.thy ===== *)
theory Laser_Pool
  imports Laser_Prelude
begin

text \<open>
  The connection pool of \<^verbatim>\<open>src/sdk/go/common/service_router/pool.go\<close>, with goroutines that call
  \<open>Aquire\<close>, use a connection and release it, interleaved at the pool's mutex.

  \<^item> A definition \<open>aquire_*\<close>, \<open>release_*\<close> or \<open>Close\<close> is what one region of the code does between
    \<open>p.Lock()\<close> and \<open>p.Unlock()\<close>; a \<open>phase\<close> is where a goroutine is between such regions.
  \<^item> \<open>pool_step\<close> runs one region of one goroutine. The answers of a connection (\<open>Good\<close>, \<open>Err\<close>,
    \<open>ForceClose\<close>), the outcome of the factory and the clock are free.
  \<^item> A connection is a number; the factory returns one that was not used before.
  \<^item> The channel \<open>queue\<close> is the number of its tokens, None for the nil channel. A send to it blocks when
    it is full, which is the value None of \<open>put_token\<close>; it is closed exactly when the pool is.
  \<^item> Times and durations are integers of nanoseconds.
\<close>

section \<open>Options\<close>

record poolOptions =
  opt_maxIdle :: int
  opt_maxActive :: int
  opt_wait :: bool
  opt_idleTimeout :: int

type_synonym PoolOption = "poolOptions \<Rightarrow> poolOptions"

definition PoolMaxIdle :: "int \<Rightarrow> PoolOption" where
  "PoolMaxIdle n o' = o'\<lparr>opt_maxIdle := n\<rparr>"

definition PoolMaxActive :: "int \<Rightarrow> PoolOption" where
  "PoolMaxActive n o' = o'\<lparr>opt_maxActive := n\<rparr>"

definition PoolWait :: "bool \<Rightarrow> PoolOption" where
  "PoolWait b o' = o'\<lparr>opt_wait := b\<rparr>"

definition PoolIdleTimeout :: "int \<Rightarrow> PoolOption" where
  "PoolIdleTimeout t o' = o'\<lparr>opt_idleTimeout := t\<rparr>"

definition defaultMaxIdleTime :: int where
  "defaultMaxIdleTime = 30 * 1000000000"

definition newPoolOptions :: "int \<Rightarrow> PoolOption list \<Rightarrow> poolOptions" where
  "newPoolOptions numCPU opt =
     (let opts = fold (\<lambda>f o'. f o') opt \<lparr>opt_maxIdle = 0, opt_maxActive = 0, opt_wait = False, opt_idleTimeout = 0\<rparr>;
          opts = (if opt_maxActive opts \<le> 0 then opts\<lparr>opt_maxActive := numCPU\<rparr> else opts);
          opts = (if opt_maxIdle opts \<le> 0 \<or> opt_maxActive opts < opt_maxIdle opts
                  then opts\<lparr>opt_maxIdle := opt_maxActive opts\<rparr> else opts);
          opts = (if opt_idleTimeout opts \<le> 0 then opts\<lparr>opt_idleTimeout := defaultMaxIdleTime\<rparr> else opts)
      in opts)"

section \<open>State\<close>

record poolConn =
  conn :: nat
  activeTime :: int

record Pool =
  MaxIdle :: int
  MaxActive :: int
  IdleTimeout :: int
  Wait :: bool
  initialized :: bool
  closed :: bool
  active :: int
  queue :: "nat option"
  idle :: "poolConn list"

definition NewPool :: "int \<Rightarrow> PoolOption list \<Rightarrow> Pool" where
  "NewPool numCPU opt =
     (let opts = newPoolOptions numCPU opt
      in \<lparr>MaxIdle = opt_maxIdle opts, MaxActive = opt_maxActive opts, IdleTimeout = opt_idleTimeout opts,
          Wait = opt_wait opts, initialized = False, closed = False, active = 0, queue = None, idle = []\<rparr>)"

text \<open>Where a goroutine is: about to call \<open>aquire\<close>; waiting for a token; about to lock; closing a stale
  connection, with the bound of the pruning loop; asking a connection whether it is good; closing one that
  is not; in the factory; using a connection; closing a connection it releases; done, or refused.\<close>

datatype phase =
    AqCall
  | AqWait
  | AqEnter
  | AqPrune poolConn nat
  | AqCheck poolConn
  | AqDrop poolConn
  | AqCreate
  | InUse poolConn
  | RelClose poolConn
  | Finished
  | Refused

section \<open>The regions\<close>

definition Close :: "Pool \<Rightarrow> Pool" where
  "Close p = (if closed p then p
     else p\<lparr>closed := True, active := active p - int (length (idle p)), idle := []\<rparr>)"

definition initQueue :: "Pool \<Rightarrow> Pool" where
  "initQueue p =
     (if initialized p then p
      else (if closed p then p else p\<lparr>queue := Some (nat (MaxActive p))\<rparr>)\<lparr>initialized := True\<rparr>)"

text \<open>\<open>p.queue <- struct{}{}\<close> under its guard.\<close>

definition put_token :: "Pool \<Rightarrow> Pool option" where
  "put_token p =
     (case queue p of
        Some n \<Rightarrow> if closed p then Some p
                  else if int n < MaxActive p then Some (p\<lparr>queue := Some (n + 1)\<rparr>) else None
      | None \<Rightarrow> Some p)"

text \<open>\<open><-p.queue\<close>: a nil channel blocks for ever, a closed one never.\<close>

definition take_token :: "Pool \<Rightarrow> Pool option" where
  "take_token p =
     (case queue p of
        Some n \<Rightarrow> if 0 < n then Some (p\<lparr>queue := Some (n - 1)\<rparr>)
                  else if closed p then Some p else None
      | None \<Rightarrow> None)"

definition idleBackTimeout :: "int \<Rightarrow> Pool \<Rightarrow> bool" where
  "idleBackTimeout now p \<longleftrightarrow> idle p \<noteq> [] \<and> activeTime (last (idle p)) + IdleTimeout p < now"

text \<open>From the loop over the front of the idle list to the next unlock.\<close>

definition aquire_idle :: "Pool \<Rightarrow> Pool \<times> phase" where
  "aquire_idle p =
     (case idle p of
        pc # rest \<Rightarrow> (p\<lparr>idle := rest\<rparr>, AqCheck pc)
      | [] \<Rightarrow> if \<not> Wait p \<and> 0 < MaxActive p \<and> MaxActive p \<le> active p then (p, Refused)
              else (p\<lparr>active := active p + 1\<rparr>, AqCreate))"

definition aquire_prune :: "int \<Rightarrow> nat \<Rightarrow> Pool \<Rightarrow> Pool \<times> phase" where
  "aquire_prune now k p =
     (if 0 < k \<and> idleBackTimeout now p
      then (p\<lparr>idle := butlast (idle p)\<rparr>, AqPrune (last (idle p)) (k - 1))
      else aquire_idle p)"

definition aquire_enter :: "int \<Rightarrow> Pool \<Rightarrow> Pool \<times> phase" where
  "aquire_enter now p =
     (if 0 < IdleTimeout p then aquire_prune now (length (idle p)) p else aquire_idle p)"

definition aquire_pruned :: "int \<Rightarrow> nat \<Rightarrow> Pool \<Rightarrow> Pool \<times> phase" where
  "aquire_pruned now k p = aquire_prune now k (p\<lparr>active := active p - 1\<rparr>)"

definition aquire_dropped :: "Pool \<Rightarrow> Pool \<times> phase" where
  "aquire_dropped p = aquire_idle (p\<lparr>active := active p - 1\<rparr>)"

definition aquire_failed :: "Pool \<Rightarrow> Pool option" where
  "aquire_failed p = put_token (p\<lparr>active := active p - 1\<rparr>)"

text \<open>The first region of \<open>release\<close>: the connection left to be closed, if any.\<close>

definition release_enter :: "int \<Rightarrow> bool \<Rightarrow> bool \<Rightarrow> poolConn \<Rightarrow> Pool \<Rightarrow> Pool \<times> poolConn option" where
  "release_enter now err forceClose pc p =
     (if \<not> closed p \<and> \<not> forceClose then
        let pc' = pc\<lparr>activeTime := now\<rparr>;
            idle' = (if err then idle p @ [pc'] else pc' # idle p)
        in if MaxIdle p < int (length idle') then (p\<lparr>idle := butlast idle'\<rparr>, Some (last idle'))
           else (p\<lparr>idle := idle'\<rparr>, None)
      else (p, Some pc))"

definition release_closed :: "Pool \<Rightarrow> Pool option" where
  "release_closed p = put_token (p\<lparr>active := active p - 1\<rparr>)"

section \<open>Goroutines\<close>

record PoolSys =
  pool :: Pool
  threads :: "phase list"
  fresh :: nat

definition goes :: "PoolSys \<Rightarrow> nat \<Rightarrow> Pool \<Rightarrow> phase \<Rightarrow> PoolSys" where
  "goes s i p ph = s\<lparr>pool := p, threads := (threads s)[i := ph]\<rparr>"

abbreviation (input) at :: "PoolSys \<Rightarrow> nat \<Rightarrow> phase \<Rightarrow> bool" where
  "at s i ph \<equiv> i < length (threads s) \<and> threads s ! i = ph"

inductive pool_step :: "PoolSys \<Rightarrow> PoolSys \<Rightarrow> bool" where
  spawn: "pool_step s (s\<lparr>threads := threads s @ [AqCall]\<rparr>)"
| close: "pool_step s (s\<lparr>pool := Close (pool s)\<rparr>)"
| call_wait: "at s i AqCall \<Longrightarrow> Wait (pool s) \<and> 0 < MaxActive (pool s) \<Longrightarrow>
    pool_step s (goes s i (initQueue (pool s)) AqWait)"
| call: "at s i AqCall \<Longrightarrow> \<not> (Wait (pool s) \<and> 0 < MaxActive (pool s)) \<Longrightarrow>
    pool_step s (goes s i (pool s) AqEnter)"
| wait: "at s i AqWait \<Longrightarrow> take_token (pool s) = Some p' \<Longrightarrow> pool_step s (goes s i p' AqEnter)"
| enter: "at s i AqEnter \<Longrightarrow> aquire_enter now (pool s) = (p', ph) \<Longrightarrow> pool_step s (goes s i p' ph)"
| prune: "at s i (AqPrune pc k) \<Longrightarrow> aquire_pruned now k (pool s) = (p', ph) \<Longrightarrow> pool_step s (goes s i p' ph)"
| good: "at s i (AqCheck pc) \<Longrightarrow> pool_step s (goes s i (pool s) (InUse pc))"
| bad: "at s i (AqCheck pc) \<Longrightarrow> pool_step s (goes s i (pool s) (AqDrop pc))"
| drop: "at s i (AqDrop pc) \<Longrightarrow> aquire_dropped (pool s) = (p', ph) \<Longrightarrow> pool_step s (goes s i p' ph)"
| created: "at s i AqCreate \<Longrightarrow>
    pool_step s ((goes s i (pool s) (InUse \<lparr>conn = fresh s, activeTime = 0\<rparr>))\<lparr>fresh := fresh s + 1\<rparr>)"
| failed: "at s i AqCreate \<Longrightarrow> aquire_failed (pool s) = Some p' \<Longrightarrow> pool_step s (goes s i p' Refused)"
| release: "at s i (InUse pc) \<Longrightarrow> release_enter now err forceClose pc (pool s) = (p', None) \<Longrightarrow>
    put_token p' = Some p'' \<Longrightarrow> pool_step s (goes s i p'' Finished)"
| release_close: "at s i (InUse pc) \<Longrightarrow> release_enter now err forceClose pc (pool s) = (p', Some pc') \<Longrightarrow>
    pool_step s (goes s i p' (RelClose pc'))"
| released: "at s i (RelClose pc) \<Longrightarrow> release_closed (pool s) = Some p' \<Longrightarrow>
    pool_step s (goes s i p' Finished)"

inductive_cases pool_stepE: "pool_step s s'"

definition pool_init :: "Pool \<Rightarrow> PoolSys" where
  "pool_init p = \<lparr>pool = p, threads = [], fresh = 0\<rparr>"

inductive pool_reach :: "Pool \<Rightarrow> PoolSys \<Rightarrow> bool" for p0 where
  init: "pool_reach p0 (pool_init p0)"
| step: "pool_reach p0 s \<Longrightarrow> pool_step s s' \<Longrightarrow> pool_reach p0 s'"

section \<open>Accounting\<close>

text \<open>What a goroutine in a phase holds: a share in the count of open connections, a token of the queue,
  and a connection.\<close>

fun conn_w :: "phase \<Rightarrow> nat" where
  "conn_w (AqPrune pc k) = 1" | "conn_w (AqCheck pc) = 1" | "conn_w (AqDrop pc) = 1"
| "conn_w AqCreate = 1" | "conn_w (InUse pc) = 1" | "conn_w (RelClose pc) = 1" | "conn_w ph = 0"

fun token_w :: "phase \<Rightarrow> nat" where
  "token_w AqEnter = 1" | "token_w ph = conn_w ph"

fun holds :: "nat \<Rightarrow> phase \<Rightarrow> nat" where
  "holds c (AqPrune pc k) = of_bool (conn pc = c)" | "holds c (AqCheck pc) = of_bool (conn pc = c)"
| "holds c (AqDrop pc) = of_bool (conn pc = c)" | "holds c (InUse pc) = of_bool (conn pc = c)"
| "holds c (RelClose pc) = of_bool (conn pc = c)" | "holds c ph = 0"

definition held :: "(phase \<Rightarrow> nat) \<Rightarrow> PoolSys \<Rightarrow> nat" where
  "held w s = sum_list (map w (threads s))"

abbreviation (input) idle_count :: "nat \<Rightarrow> Pool \<Rightarrow> nat" where
  "idle_count c p \<equiv> count_list (map conn (idle p)) c"

lemma sum_list_upd:
  fixes w :: "'a \<Rightarrow> nat"
  shows "i < length xs \<Longrightarrow> sum_list (map w (xs[i := x])) + w (xs ! i) = sum_list (map w xs) + w x"
  by (induction xs arbitrary: i) (auto split: nat.split simp: nth_Cons')

lemma sum_list_below:
  fixes v w :: "'a \<Rightarrow> nat"
  assumes "\<And>x. v x \<le> w x" "i < length xs" "v (xs ! i) < w (xs ! i)"
  shows "sum_list (map v xs) < sum_list (map w xs)"
proof -
  have le: "sum_list (map v xs) \<le> sum_list (map w xs)" using assms(1) by (induction xs) (auto intro: add_mono)
  show ?thesis using assms(2,3)
  proof (induction xs arbitrary: i)
    case (Cons x xs)
    have "sum_list (map v xs) \<le> sum_list (map w xs)" using assms(1) by (induction xs) (auto intro: add_mono)
    with Cons assms(1) [of x] show ?case by (cases i) (auto intro: add_le_less_mono add_less_le_mono)
  qed simp
qed

lemma conn_le_token: "conn_w ph \<le> token_w ph"
  by (cases ph) auto

text \<open>The parameters of a pool never change.\<close>

definition same_limits :: "Pool \<Rightarrow> Pool \<Rightarrow> bool" where
  "same_limits p p' \<longleftrightarrow> MaxIdle p' = MaxIdle p \<and> MaxActive p' = MaxActive p \<and>
     IdleTimeout p' = IdleTimeout p \<and> Wait p' = Wait p"

definition pool_wf :: "Pool \<Rightarrow> bool" where
  "pool_wf p \<longleftrightarrow> 0 < MaxIdle p \<and> MaxIdle p \<le> MaxActive p"

text \<open>The invariant: the counter of open connections counts the idle ones and those of the goroutines and
  stays below its limit, the idle list stays below its own, no connection is in two places, and the tokens
  in the queue and with the goroutines add up.\<close>

definition counted :: "PoolSys \<Rightarrow> bool" where
  "counted s \<longleftrightarrow> active (pool s) = int (length (idle (pool s))) + int (held conn_w s)"

definition bounded :: "PoolSys \<Rightarrow> bool" where
  "bounded s \<longleftrightarrow> int (length (idle (pool s))) \<le> MaxIdle (pool s) \<and>
     (\<not> (Wait (pool s) \<and> closed (pool s)) \<longrightarrow> active (pool s) \<le> MaxActive (pool s))"

definition exclusive :: "PoolSys \<Rightarrow> bool" where
  "exclusive s \<longleftrightarrow> (\<forall>c. idle_count c (pool s) + held (holds c) s \<le> of_bool (c < fresh s))"

definition tokens_ok :: "PoolSys \<Rightarrow> bool" where
  "tokens_ok s \<longleftrightarrow>
     (if \<not> Wait (pool s) then queue (pool s) = None
      else closed (pool s) \<or>
        (case queue (pool s) of
           Some n \<Rightarrow> initialized (pool s) \<and> int n + int (held token_w s) = MaxActive (pool s)
         | None \<Rightarrow> \<not> initialized (pool s) \<and> held token_w s = 0))"

definition pool_inv :: "PoolSys \<Rightarrow> bool" where
  "pool_inv s \<longleftrightarrow> pool_wf (pool s) \<and> counted s \<and> bounded s \<and> exclusive s \<and> tokens_ok s"

lemmas pool_inv_defs = pool_inv_def pool_wf_def counted_def bounded_def exclusive_def tokens_ok_def

text \<open>What a region may do on behalf of a goroutine in a phase.\<close>

definition keeps_conns :: "Pool \<Rightarrow> phase \<Rightarrow> Pool \<Rightarrow> phase \<Rightarrow> bool" where
  "keeps_conns p ph p' ph' \<longleftrightarrow> (\<forall>c. idle_count c p' + holds c ph' \<le> idle_count c p + holds c ph)"

definition keeps_counts :: "Pool \<Rightarrow> phase \<Rightarrow> Pool \<Rightarrow> phase \<Rightarrow> bool" where
  "keeps_counts p ph p' ph' \<longleftrightarrow> same_limits p p' \<and> closed p' = closed p \<and> initialized p' = initialized p \<and>
     active p' - int (length (idle p')) - int (conn_w ph') = active p - int (length (idle p)) - int (conn_w ph) \<and>
     (int (length (idle p)) \<le> MaxIdle p \<longrightarrow> int (length (idle p')) \<le> MaxIdle p) \<and>
     (active p' \<le> active p \<or> active p' = active p + 1 \<and> idle p = [] \<and> ph = AqEnter \<and>
        (\<not> Wait p \<longrightarrow> active p < MaxActive p))"

definition keeps_tokens :: "Pool \<Rightarrow> phase \<Rightarrow> Pool \<Rightarrow> phase \<Rightarrow> bool" where
  "keeps_tokens p ph p' ph' \<longleftrightarrow>
     (case queue p of
        None \<Rightarrow> queue p' = None \<and> (Wait p \<longrightarrow> token_w ph = 1)
      | Some n \<Rightarrow> (\<exists>n'. queue p' = Some n' \<and> (closed p \<or> n' + token_w ph' = n + token_w ph)))"

definition region_ok :: "Pool \<Rightarrow> phase \<Rightarrow> Pool \<Rightarrow> phase \<Rightarrow> bool" where
  "region_ok p ph p' ph' \<longleftrightarrow> keeps_conns p ph p' ph' \<and> keeps_counts p ph p' ph' \<and> keeps_tokens p ph p' ph'"

lemmas region_defs = region_ok_def keeps_conns_def keeps_counts_def keeps_tokens_def same_limits_def

lemma region_okI_token:
  "pool_wf p \<Longrightarrow> \<not> (Wait p \<and> 0 < MaxActive p) \<Longrightarrow> queue p = None \<Longrightarrow> region_ok p AqCall p AqEnter"
  by (simp add: region_defs pool_wf_def)

lemma take_token_ok: "take_token p = Some p' \<Longrightarrow> region_ok p AqWait p' AqEnter"
  by (auto simp: take_token_def region_defs split: option.splits if_splits)

lemma put_token_ok: "put_token p = Some p' \<Longrightarrow> token_w ph = 1 \<Longrightarrow> conn_w ph = 0 \<Longrightarrow> region_ok p ph p' Finished"
  by (auto simp: put_token_def region_defs split: option.splits if_splits)

lemma aquire_idle_ok:
  "aquire_idle p = (p', ph') \<Longrightarrow> pool_wf p \<Longrightarrow> (\<not> Wait p \<longrightarrow> queue p = None) \<Longrightarrow> region_ok p AqEnter p' ph'"
  by (auto simp: aquire_idle_def region_defs pool_wf_def split: list.splits if_splits option.splits)

lemma count_list_butlast_last:
  "xs \<noteq> [] \<Longrightarrow> count_list (map f (butlast xs)) c + of_bool (f (last xs) = c) = count_list (map f xs) c"
  by (induction xs rule: rev_induct) auto

lemma aquire_prune_ok:
  "aquire_prune now k p = (p', ph') \<Longrightarrow> pool_wf p \<Longrightarrow> (\<not> Wait p \<longrightarrow> queue p = None) \<Longrightarrow>
     region_ok p AqEnter p' ph'"
  unfolding aquire_prune_def
  by (auto simp: aquire_idle_ok split: if_splits)
    (auto simp: region_defs idleBackTimeout_def count_list_butlast_last of_nat_diff
      Suc_le_eq split: option.splits)

lemma aquire_enter_ok:
  "aquire_enter now p = (p', ph') \<Longrightarrow> pool_wf p \<Longrightarrow> (\<not> Wait p \<longrightarrow> queue p = None) \<Longrightarrow>
     region_ok p AqEnter p' ph'"
  by (auto simp: aquire_enter_def aquire_prune_ok aquire_idle_ok split: if_splits)

text \<open>A goroutine that closed a connection goes on like one that has just entered.\<close>

lemma region_ok_closed:
  assumes "region_ok (p\<lparr>active := active p - 1\<rparr>) AqEnter p' ph'" "conn_w ph = 1" "token_w ph = 1"
  shows "region_ok p ph p' ph'"
  unfolding region_ok_def
proof (intro conjI)
  have "idle_count c p' + holds c ph' \<le> idle_count c p" for c
    using assms(1) by (simp add: region_ok_def keeps_conns_def)
  then show "keeps_conns p ph p' ph'"
    unfolding keeps_conns_def by (simp add: trans_le_add1)
  show "keeps_counts p ph p' ph'"
    using assms by (auto simp: region_ok_def keeps_counts_def same_limits_def)
  show "keeps_tokens p ph p' ph'"
    using assms by (auto simp: region_ok_def keeps_tokens_def split: option.splits)
qed

lemma pool_wf_active [simp]: "pool_wf (p\<lparr>active := n\<rparr>) = pool_wf p"
  by (simp add: pool_wf_def)

lemma aquire_pruned_ok:
  "aquire_pruned now k p = (p', ph') \<Longrightarrow> pool_wf p \<Longrightarrow> (\<not> Wait p \<longrightarrow> queue p = None) \<Longrightarrow>
     region_ok p (AqPrune pc j) p' ph'"
  by (rule region_ok_closed) (auto simp: aquire_pruned_def intro: aquire_prune_ok)

lemma aquire_dropped_ok:
  "aquire_dropped p = (p', ph') \<Longrightarrow> pool_wf p \<Longrightarrow> (\<not> Wait p \<longrightarrow> queue p = None) \<Longrightarrow>
     region_ok p (AqDrop pc) p' ph'"
  by (rule region_ok_closed) (auto simp: aquire_dropped_def intro: aquire_idle_ok)

lemma aquire_failed_ok: "aquire_failed p = Some p' \<Longrightarrow> region_ok p AqCreate p' Refused"
  by (auto simp: aquire_failed_def put_token_def region_defs split: option.splits if_splits)

lemma release_closed_ok: "release_closed p = Some p' \<Longrightarrow> region_ok p (RelClose pc) p' Finished"
  by (rule region_ok_closed)
    (auto simp: release_closed_def put_token_def region_defs split: option.splits if_splits)

lemma release_enter_close_ok:
  assumes "release_enter now err f pc p = (p', Some pc')"
  shows "region_ok p (InUse pc) p' (RelClose pc')"
proof (cases "closed p \<or> f")
  case True
  with assms show ?thesis by (auto simp: release_enter_def region_defs split: option.splits)
next
  case False
  let ?l = "if err then idle p @ [pc\<lparr>activeTime := now\<rparr>] else pc\<lparr>activeTime := now\<rparr> # idle p"
  have p': "p' = p\<lparr>idle := butlast ?l\<rparr>" "pc' = last ?l"
    using assms False by (auto simp: release_enter_def Let_def split: if_splits)
  have l: "?l \<noteq> []" "length (butlast ?l) = length (idle p)" by simp_all
  have "idle_count c p' + of_bool (conn pc' = c) = idle_count c p + of_bool (conn pc = c)" for c
    using count_list_butlast_last [OF l(1), of conn c] by (simp add: p')
  with l(2) show ?thesis by (simp add: region_defs p' split: option.splits)
qed

lemma release_ok:
  "release_enter now err f pc p = (p', None) \<Longrightarrow> put_token p' = Some p'' \<Longrightarrow> region_ok p (InUse pc) p'' Finished"
  by (auto simp: release_enter_def put_token_def region_defs Let_def
      split: if_splits option.splits)
section \<open>The invariant\<close>

lemma goes_simps [simp]:
  "pool (goes s i p ph) = p" "fresh (goes s i p ph) = fresh s" "threads (goes s i p ph) = (threads s)[i := ph]"
  by (simp_all add: goes_def)

lemma held_simps [simp]:
  "held w (s\<lparr>pool := p\<rparr>) = held w s" "held w (s\<lparr>fresh := n\<rparr>) = held w s"
  "held w (s\<lparr>threads := threads s @ [ph]\<rparr>) = held w s + w ph"
  "held w (pool_init p) = 0"
  by (simp_all add: held_def pool_init_def)

lemma held_goes:
  "at s i ph \<Longrightarrow> held w (goes s i p' ph') + w ph = held w s + w ph'"
  using sum_list_upd [of i "threads s" w ph'] by (simp add: held_def)

lemma held_ge:
  assumes "at s i ph"
  shows "w ph \<le> held w s"
proof -
  have "ph \<in> set (threads s)" using assms nth_mem by blast
  then show ?thesis unfolding held_def by (intro member_le_sum_list) simp_all
qed

lemma exclusive_region:
  assumes "exclusive s" "at s i ph" "keeps_conns (pool s) ph p' ph'"
  shows "exclusive (goes s i p' ph')"
  unfolding exclusive_def
proof
  fix c
  have "held (holds c) (goes s i p' ph') + holds c ph = held (holds c) s + holds c ph'"
    using assms(2) by (rule held_goes)
  moreover have "idle_count c p' + holds c ph' \<le> idle_count c (pool s) + holds c ph"
    using assms(3) by (simp add: keeps_conns_def)
  moreover have "idle_count c (pool s) + held (holds c) s \<le> of_bool (c < fresh s)"
    using assms(1) by (simp add: exclusive_def)
  ultimately show "idle_count c (pool (goes s i p' ph')) + held (holds c) (goes s i p' ph') \<le>
      of_bool (c < fresh (goes s i p' ph'))"
    by simp
qed

lemma tokens_region:
  assumes "tokens_ok s" "at s i ph" "keeps_counts (pool s) ph p' ph'" "keeps_tokens (pool s) ph p' ph'"
  shows "tokens_ok (goes s i p' ph')"
proof -
  have h: "held token_w (goes s i p' ph') + token_w ph = held token_w s + token_w ph'"
    using assms(2) by (rule held_goes)
  have ge: "token_w ph \<le> held token_w s" using assms(2) by (rule held_ge)
  show ?thesis
  proof (cases "Wait (pool s) \<and> \<not> closed (pool s)")
    case False
    with assms(1,3,4) show ?thesis
      by (auto simp: tokens_ok_def keeps_counts_def keeps_tokens_def same_limits_def)
  next
    case True
    with assms(1,3,4) h ge show ?thesis
      by (cases "queue (pool s)") (auto simp: tokens_ok_def keeps_counts_def keeps_tokens_def same_limits_def)
  qed
qed

text \<open>A goroutine that opens a connection finds no idle one, so all open connections are with goroutines
  that hold a token each, and it holds one itself.\<close>

lemma entering_below:
  assumes "pool_inv s" "at s i AqEnter" "idle (pool s) = []" "Wait (pool s)" "\<not> closed (pool s)"
  shows "active (pool s) < MaxActive (pool s)"
proof -
  have "held conn_w s < held token_w s"
    unfolding held_def using assms(2) by (intro sum_list_below [where i = i]) (auto simp: conn_le_token)
  with assms show ?thesis by (auto simp: pool_inv_defs split: option.splits)
qed

lemma pool_inv_region:
  assumes "pool_inv s" "at s i ph" "region_ok (pool s) ph p' ph'"
  shows "pool_inv (goes s i p' ph')"
proof -
  have r: "keeps_conns (pool s) ph p' ph'" "keeps_counts (pool s) ph p' ph'" "keeps_tokens (pool s) ph p' ph'"
    using assms(3) by (simp_all add: region_ok_def)
  have inv: "pool_wf (pool s)" "counted s" "bounded s" "exclusive s" "tokens_ok s"
    using assms(1) by (simp_all add: pool_inv_def)
  have "pool_wf p'" using inv(1) r(2) by (simp add: pool_wf_def keeps_counts_def same_limits_def)
  moreover have "counted (goes s i p' ph')"
    using inv(2) r(2) held_goes [OF assms(2), of conn_w p' ph'] by (simp add: counted_def keeps_counts_def)
  moreover have "bounded (goes s i p' ph')"
  proof (cases "active p' \<le> active (pool s)")
    case True
    with inv(3) r(2) show ?thesis by (auto simp: bounded_def keeps_counts_def same_limits_def)
  next
    case False
    then have "active p' = active (pool s) + 1" "idle (pool s) = []" "at s i AqEnter"
      "\<not> Wait (pool s) \<longrightarrow> active (pool s) < MaxActive (pool s)"
      using r(2) assms(2) by (auto simp: keeps_counts_def)
    with entering_below [OF assms(1), of i] inv(3) r(2) show ?thesis
      by (auto simp: bounded_def keeps_counts_def same_limits_def)
  qed
  ultimately show ?thesis
    using exclusive_region [OF inv(4) assms(2) r(1)] tokens_region [OF inv(5) assms(2) r(2,3)]
    by (simp add: pool_inv_def)
qed

lemma pool_inv_created:
  assumes "pool_inv s" "at s i AqCreate"
  shows "pool_inv ((goes s i (pool s) (InUse \<lparr>conn = fresh s, activeTime = 0\<rparr>))\<lparr>fresh := fresh s + 1\<rparr>)"
    (is "pool_inv ?s'")
proof -
  have h: "held w ?s' + w AqCreate = held w s + w (InUse \<lparr>conn = fresh s, activeTime = 0\<rparr>)" for w
    using held_goes [OF assms(2)] by simp
  have "idle_count c (pool s) + held (holds c) ?s' \<le> of_bool (c < fresh s + 1)" for c
  proof -
    have "idle_count c (pool s) + held (holds c) s \<le> of_bool (c < fresh s)"
      using assms(1) by (simp add: pool_inv_defs)
    with h [of "holds c"] show ?thesis by (cases "c = fresh s") auto
  qed
  then have "exclusive ?s'" by (simp add: exclusive_def)
  then show ?thesis using assms(1) h [of conn_w] h [of token_w]
    by (auto simp: pool_inv_def pool_wf_def counted_def bounded_def tokens_ok_def split: option.splits)
qed

lemma pool_inv_initQueue:
  assumes "pool_inv s" "at s i AqCall" "Wait (pool s)"
  shows "pool_inv (goes s i (initQueue (pool s)) AqWait)"
proof -
  have h: "held w (goes s i (initQueue (pool s)) AqWait) + w AqCall = held w s + w AqWait" for w
    using assms(2) by (rule held_goes)
  have "exclusive (goes s i (initQueue (pool s)) AqWait)"
    using assms by (intro exclusive_region [where ph = AqCall]) (auto simp: pool_inv_def keeps_conns_def initQueue_def)
  then show ?thesis
    using assms h [of conn_w] h [of token_w]
    by (auto simp: pool_inv_def pool_wf_def counted_def bounded_def tokens_ok_def initQueue_def split: option.splits)
qed

lemma pool_inv_Close: "pool_inv s \<Longrightarrow> pool_inv (s\<lparr>pool := Close (pool s)\<rparr>)"
proof -
  assume inv: "pool_inv s"
  have "exclusive (s\<lparr>pool := Close (pool s)\<rparr>)"
    unfolding exclusive_def
  proof
    fix c
    have "idle_count c (pool s) + held (holds c) s \<le> of_bool (c < fresh s)"
      using inv by (simp add: pool_inv_defs)
    then show "idle_count c (pool (s\<lparr>pool := Close (pool s)\<rparr>)) + held (holds c) (s\<lparr>pool := Close (pool s)\<rparr>)
        \<le> of_bool (c < fresh (s\<lparr>pool := Close (pool s)\<rparr>))"
      by (auto simp: Close_def split: if_splits)
  qed
  with inv show ?thesis
    by (auto simp: pool_inv_def pool_wf_def counted_def bounded_def tokens_ok_def Close_def split: option.splits)
qed

lemma pool_inv_spawn: "pool_inv s \<Longrightarrow> pool_inv (s\<lparr>threads := threads s @ [AqCall]\<rparr>)"
  by (auto simp: pool_inv_defs split: option.splits)

lemma pool_inv_step:
  assumes "pool_step s s'" "pool_inv s"
  shows "pool_inv s'"
proof -
  have wf: "pool_wf (pool s)" and q: "\<not> Wait (pool s) \<longrightarrow> queue (pool s) = None"
    using assms(2) by (auto simp: pool_inv_def tokens_ok_def)
  note region = pool_inv_region [OF assms(2)]
  show ?thesis using assms(1)
  proof cases
    case spawn then show ?thesis using assms(2) pool_inv_spawn by simp
  next
    case close then show ?thesis using assms(2) pool_inv_Close by simp
  next
    case (call_wait i) then show ?thesis using assms(2) pool_inv_initQueue by simp
  next
    case (call i) then show ?thesis
      using region [of i AqCall "pool s" AqEnter] region_okI_token [OF wf] q wf by (auto simp: pool_wf_def)
  next
    case (wait i p') then show ?thesis using region take_token_ok by blast
  next
    case (enter i now p' ph) then show ?thesis using region aquire_enter_ok [OF _ wf q] by blast
  next
    case (prune i pc k now p' ph) then show ?thesis using region aquire_pruned_ok [OF _ wf q] by blast
  next
    case (good i pc) then show ?thesis using region [of i "AqCheck pc" "pool s" "InUse pc"]
      by (auto simp: region_defs split: option.splits)
  next
    case (bad i pc) then show ?thesis using region [of i "AqCheck pc" "pool s" "AqDrop pc"]
      by (auto simp: region_defs split: option.splits)
  next
    case (drop i pc p' ph) then show ?thesis using region aquire_dropped_ok [OF _ wf q] by blast
  next
    case (created i) then show ?thesis using assms(2) pool_inv_created by simp
  next
    case (failed i p') then show ?thesis using region aquire_failed_ok by blast
  next
    case (release i pc now err f p' p'') then show ?thesis using region release_ok by blast
  next
    case (release_close i pc now err f p' pc') then show ?thesis using region release_enter_close_ok by blast
  next
    case (released i pc p') then show ?thesis using region release_closed_ok by blast
  qed
qed

lemma newPoolOptions_wf:
  "0 < numCPU \<Longrightarrow> 0 < opt_maxIdle (newPoolOptions numCPU opt) \<and>
     opt_maxIdle (newPoolOptions numCPU opt) \<le> opt_maxActive (newPoolOptions numCPU opt) \<and>
     0 < opt_idleTimeout (newPoolOptions numCPU opt)"
  by (simp add: newPoolOptions_def Let_def defaultMaxIdleTime_def)

lemma NewPool_simps [simp]:
  "idle (NewPool numCPU opt) = []" "active (NewPool numCPU opt) = 0" "queue (NewPool numCPU opt) = None"
  "closed (NewPool numCPU opt) = False" "initialized (NewPool numCPU opt) = False"
  "MaxIdle (NewPool numCPU opt) = opt_maxIdle (newPoolOptions numCPU opt)"
  "MaxActive (NewPool numCPU opt) = opt_maxActive (newPoolOptions numCPU opt)"
  by (simp_all add: NewPool_def Let_def)

lemma pool_init_simps [simp]: "pool (pool_init p) = p" "fresh (pool_init p) = 0"
  by (simp_all add: pool_init_def)

lemma pool_inv_init: "0 < numCPU \<Longrightarrow> pool_inv (pool_init (NewPool numCPU opt))"
  using newPoolOptions_wf [of numCPU opt] by (auto simp: pool_inv_defs)

lemma pool_inv_reach: "pool_reach (NewPool numCPU opt) s \<Longrightarrow> 0 < numCPU \<Longrightarrow> pool_inv s"
  by (induction rule: pool_reach.induct) (auto simp: pool_inv_init intro: pool_inv_step)
section \<open>Properties of the pool\<close>



text \<open>A goroutine that gives its token back never blocks on the full channel while it holds the
  mutex: not when it releases a connection, not after closing one, and not after a failed factory call.\<close>

theorem pool_token_never_blocks:
  assumes "0 < numCPU" and "pool_reach (NewPool numCPU opt) s" and "i < length (threads s)"
  shows "(threads s ! i = InUse pc \<and> release_enter now err f pc (pool s) = (p', None) \<longrightarrow> put_token p' \<noteq> None) \<and>
    (threads s ! i = RelClose pc \<longrightarrow> release_closed (pool s) \<noteq> None) \<and>
    (threads s ! i = AqCreate \<longrightarrow> aquire_failed (pool s) \<noteq> None)"
proof -
  have tok: "tokens_ok s" using pool_inv_reach [OF assms(2,1)] by (simp add: pool_inv_def)
  have room: "put_token p \<noteq> None"
    if "token_w (threads s ! i) = 1" "queue p = queue (pool s)" "closed p = closed (pool s)"
      "MaxActive p = MaxActive (pool s)" for p
  proof -
    have "1 \<le> held token_w s" using held_ge [of i s "threads s ! i" token_w] assms(3) that(1) by simp
    with tok that(2-4) show ?thesis
      by (auto simp: tokens_ok_def put_token_def split: option.splits if_splits)
  qed
  have "put_token p' \<noteq> None" if "threads s ! i = InUse pc" "release_enter now err f pc (pool s) = (p', None)"
    using that by (intro room) (auto simp: release_enter_def Let_def split: if_splits)
  with room show ?thesis by (simp add: release_closed_def aquire_failed_def)
qed

text \<open>The pool refuses a goroutine only when it does not wait, no connection is idle and as many
  connections as the pool allows are with other goroutines.\<close>

theorem pool_refuses_only_exhausted:
  assumes "0 < numCPU" and "pool_reach (NewPool numCPU opt) s"
    and "i < length (threads s)" "threads s ! i = AqEnter" "aquire_enter now (pool s) = (p', Refused)"
  shows "\<not> Wait (pool s) \<and> idle (pool s) = [] \<and> int (held conn_w s) = MaxActive (pool s) \<and> p' = pool s"
proof -
  have inv: "pool_inv s" by (rule pool_inv_reach [OF assms(2,1)])
  have "\<not> Wait (pool s) \<and> idle (pool s) = [] \<and> MaxActive (pool s) \<le> active (pool s) \<and> p' = pool s"
    using assms(5) by (auto simp: aquire_enter_def aquire_prune_def aquire_idle_def split: if_splits list.splits)
  with inv show ?thesis by (auto simp: pool_inv_defs)
qed

lemma closed_nil_step:
  assumes "pool_step s s'" "closed (pool s)" "queue (pool s) = None"
  shows "closed (pool s') \<and> queue (pool s') = None \<and> (at s i AqWait \<longrightarrow> at s' i AqWait)"
  using assms
  by cases (auto simp: Close_def initQueue_def take_token_def put_token_def aquire_enter_def aquire_pruned_def
      aquire_dropped_def aquire_prune_def aquire_idle_def aquire_failed_def release_enter_def release_closed_def
      Let_def nth_list_update nth_append split: if_splits list.splits)

text \<open>A waiting pool that is closed before its first use hangs its callers: a goroutine that waits for
  a token of the channel, which is never made, waits in every later state.\<close>

theorem closed_pool_hangs:
  assumes "closed (pool s)" "queue (pool s) = None" "i < length (threads s)" "threads s ! i = AqWait"
    and "pool_step\<^sup>*\<^sup>* s s'"
  shows "i < length (threads s') \<and> threads s' ! i = AqWait"
proof -
  have "closed (pool s') \<and> queue (pool s') = None \<and> at s' i AqWait"
    using assms(5,1-4)
  proof (induction rule: rtranclp_induct)
    case (step t u)
    then show ?case using closed_nil_step [of t u i] by blast
  qed simp
  then show ?thesis by simp
qed

subsection \<open>A run\<close>

text \<open>Three goroutines on a pool of two connections.\<close>

definition example_pool :: "int \<Rightarrow> Pool" where
  "example_pool n = \<lparr>MaxIdle = 2, MaxActive = 2, IdleTimeout = defaultMaxIdleTime, Wait = False,
     initialized = False, closed = False, active = n, queue = None, idle = []\<rparr>"

definition example_state :: PoolSys where
  "example_state = \<lparr>pool = example_pool 2, threads = [InUse \<lparr>conn = 0, activeTime = 0\<rparr>,
     InUse \<lparr>conn = 1, activeTime = 0\<rparr>, AqEnter], fresh = 2\<rparr>"

lemma example_new: "NewPool 8 [PoolMaxActive 2] = example_pool 0"
  by (simp add: NewPool_def newPoolOptions_def example_pool_def PoolMaxActive_def Let_def)

lemma aquire_example:
  assumes "pool_reach p0 \<lparr>pool = example_pool n, threads = ts, fresh = k\<rparr>" "n < 2"
  shows "pool_reach p0 \<lparr>pool = example_pool (n + 1), threads = ts @ [InUse \<lparr>conn = k, activeTime = 0\<rparr>], fresh = k + 1\<rparr>"
proof -
  let ?i = "length ts"
  have 1: "pool_reach p0 \<lparr>pool = example_pool n, threads = ts @ [AqCall], fresh = k\<rparr>"
    using pool_reach.step [OF assms(1) pool_step.spawn] by simp
  have 2: "pool_reach p0 \<lparr>pool = example_pool n, threads = ts @ [AqEnter], fresh = k\<rparr>"
    using pool_reach.step [OF 1 pool_step.call [of ?i]] by (simp add: goes_def example_pool_def)
  have 3: "pool_reach p0 \<lparr>pool = example_pool (n + 1), threads = ts @ [AqCreate], fresh = k\<rparr>"
    using pool_reach.step [OF 2 pool_step.enter [of ?i _ 0 "example_pool (n + 1)" AqCreate]] assms(2)
    by (simp add: goes_def example_pool_def aquire_enter_def aquire_prune_def aquire_idle_def idleBackTimeout_def)
  show ?thesis
    using pool_reach.step [OF 3 pool_step.created [of ?i]] by (simp add: goes_def)
qed

lemma example_reach: "pool_reach (NewPool 8 [PoolMaxActive 2]) example_state"
proof -
  let ?p = "NewPool 8 [PoolMaxActive 2]"
  have 0: "pool_reach ?p \<lparr>pool = example_pool 0, threads = [], fresh = 0\<rparr>"
    using pool_reach.init [of ?p] by (simp add: pool_init_def example_new)
  have 2: "pool_reach ?p \<lparr>pool = example_pool 2, threads = [InUse \<lparr>conn = 0, activeTime = 0\<rparr>,
      InUse \<lparr>conn = 1, activeTime = 0\<rparr>], fresh = 2\<rparr>"
    using aquire_example [OF aquire_example [OF 0]] by (simp add: numeral_2_eq_2)
  have 3: "pool_reach ?p \<lparr>pool = example_pool 2, threads = [InUse \<lparr>conn = 0, activeTime = 0\<rparr>,
      InUse \<lparr>conn = 1, activeTime = 0\<rparr>, AqCall], fresh = 2\<rparr>"
    using pool_reach.step [OF 2 pool_step.spawn] by simp
  show ?thesis
    using pool_reach.step [OF 3 pool_step.call [of 2]]
    by (simp add: goes_def example_pool_def example_state_def numeral_2_eq_2)
qed

lemmas example_run = example_reach example_state_def example_pool_def



theorem pool_token_never_blocks_witness:
  "put_token ((example_pool 2)\<lparr>idle := [\<lparr>conn = 0, activeTime = 5\<rparr>]\<rparr>) \<noteq> None"
  using pool_token_never_blocks [OF _ example_reach, of 0 "\<lparr>conn = 0, activeTime = 0\<rparr>" 5 False False
      "(example_pool 2)\<lparr>idle := [\<lparr>conn = 0, activeTime = 5\<rparr>]\<rparr>"]
  by (simp add: example_state_def release_enter_def example_pool_def)

theorem pool_refuses_only_exhausted_witness:
  "aquire_enter 5 (pool example_state) = (pool example_state, Refused) \<and>
     int (held conn_w example_state) = MaxActive (pool example_state)"
proof -
  have "aquire_enter 5 (pool example_state) = (pool example_state, Refused)"
    by (simp add: example_state_def example_pool_def aquire_enter_def aquire_prune_def aquire_idle_def idleBackTimeout_def)
  then show ?thesis
    using pool_refuses_only_exhausted [OF _ example_reach, of 2 5 "pool example_state"]
    by (simp add: example_state_def)
qed

theorem closed_pool_hangs_witness:
  "\<exists>s. closed (pool s) \<and> threads s = [AqWait] \<and> (\<forall>s'. pool_step\<^sup>*\<^sup>* s s' \<longrightarrow> threads s' ! 0 = AqWait)"
proof -
  let ?s = "\<lparr>pool = (Close (NewPool 8 [PoolWait True]))\<lparr>initialized := True\<rparr>, threads = [AqWait], fresh = 0\<rparr>"
  have c: "closed (pool ?s)" "queue (pool ?s) = None" by (simp_all add: Close_def)
  have "threads s' ! 0 = AqWait" if "pool_step\<^sup>*\<^sup>* ?s s'" for s'
    using closed_pool_hangs [OF c, of 0 s'] that by simp
  with c show ?thesis by (intro exI [of _ ?s]) simp
qed

section \<open>The pool lends connections\<close>
















end
