(* ===== verification/Laser_Conn.thy ===== *)
theory Laser_Conn
  imports Laser_Pool Laser_Strconv
begin

text \<open>
  Connections and their groups: \<^verbatim>\<open>src/sdk/go/common/service_router/thrift.go\<close>, the result types and the
  pooled connection of \<^verbatim>\<open>pool.go\<close>.

  \<^item> An error is a transport error or another one, which is what \<open>errors.As\<close> tells apart.
  \<^item> The functions of a connection that come from the caller (\<open>closeFunc\<close>, \<open>pingFunc\<close>, actions and
    callbacks) are arguments; the definitions return the calls they make of them.
  \<^item> The thrift package is third-party: opening a transport is the argument \<open>open\<close>, and the model keeps
    which transport, protocol and address is asked for.
\<close>

section \<open>Errors and results\<close>

datatype go_error = TransportException string | OtherException string

record 'r Then =
  Resp :: "'r option"
  ThenErr :: "go_error option"

text \<open>A callback is present or nil; the calls made are a list.\<close>

datatype 'r call = SucCall "'r option" | ErrCall go_error

definition OnSuccess :: "bool \<Rightarrow> 'r Then \<Rightarrow> 'r call list" where
  "OnSuccess suc t = (if ThenErr t = None \<and> suc then [SucCall (Resp t)] else [])"

definition OnError :: "bool \<Rightarrow> 'r Then \<Rightarrow> 'r call list" where
  "OnError err t = (case ThenErr t of Some e \<Rightarrow> if err then [ErrCall e] else [] | None \<Rightarrow> [])"

definition TryResponse :: "bool \<Rightarrow> bool \<Rightarrow> 'r Then \<Rightarrow> 'r call list" where
  "TryResponse suc err t =
     (case ThenErr t of
        Some e \<Rightarrow> if err then [ErrCall e] else []
      | None \<Rightarrow> if suc then [SucCall (Resp t)] else [])"

section \<open>Thrift connections\<close>

record 'c ThriftConn =
  tc_err :: "go_error option"
  tc_client :: 'c

definition Err :: "'c ThriftConn \<Rightarrow> go_error option" where
  "Err tc = tc_err tc"

definition SetErr :: "go_error option \<Rightarrow> 'c ThriftConn \<Rightarrow> 'c ThriftConn" where
  "SetErr e tc = tc\<lparr>tc_err := e\<rparr>"

definition ForceClose :: "'c ThriftConn \<Rightarrow> bool" where
  "ForceClose tc = (case Err tc of Some (TransportException m) \<Rightarrow> True | _ \<Rightarrow> False)"

definition Do :: "('c \<Rightarrow> 'r option \<times> go_error option) option \<Rightarrow> 'c ThriftConn \<Rightarrow> 'r Then" where
  "Do action tc =
     (case action of
        Some f \<Rightarrow> (case f (tc_client tc) of (resp, err) \<Rightarrow> \<lparr>Resp = resp, ThenErr = err\<rparr>)
      | None \<Rightarrow> \<lparr>Resp = None, ThenErr = None\<rparr>)"

definition Good :: "('c \<Rightarrow> bool) option \<Rightarrow> 'c ThriftConn \<Rightarrow> bool" where
  "Good pingFunc tc = (case pingFunc of Some f \<Rightarrow> f (tc_client tc) | None \<Rightarrow> True)"

text \<open>\<open>Close\<close>: the connection after it, the error returned, and the clients \<open>closeFunc\<close> was called on.\<close>

definition ThriftConn_Close ::
  "('c \<Rightarrow> go_error option) \<Rightarrow> 'c ThriftConn \<Rightarrow> 'c ThriftConn \<times> go_error option \<times> 'c list" where
  "ThriftConn_Close closeFunc tc =
     (case tc_err tc of
        None \<Rightarrow> (tc\<lparr>tc_err := Some (OtherException ''thrift closed'')\<rparr>, closeFunc (tc_client tc), [tc_client tc])
      | Some e \<Rightarrow> (tc, Some e, []))"

text \<open>The pooled connection hands its state to \<open>release\<close>; None is a nil \<open>poolConn\<close>.\<close>

definition activeConn_Close ::
  "int \<Rightarrow> (poolConn \<Rightarrow> 'c ThriftConn) \<Rightarrow> poolConn option \<Rightarrow> Pool \<Rightarrow> (Pool \<times> poolConn option) option" where
  "activeConn_Close now conn_of ac p =
     (case ac of
        None \<Rightarrow> None
      | Some pc \<Rightarrow> Some (release_enter now (Err (conn_of pc) \<noteq> None) (ForceClose (conn_of pc)) pc p))"

definition activeConn_Err :: "'c ThriftConn option \<Rightarrow> go_error option" where
  "activeConn_Err ac = (case ac of None \<Rightarrow> None | Some tc \<Rightarrow> Err tc)"

definition activeConn_SetErr :: "go_error option \<Rightarrow> 'c ThriftConn option \<Rightarrow> 'c ThriftConn option" where
  "activeConn_SetErr e ac = map_option (SetErr e) ac"

definition activeConn_Good :: "('c \<Rightarrow> bool) option \<Rightarrow> 'c ThriftConn option \<Rightarrow> bool" where
  "activeConn_Good ping ac = (case ac of None \<Rightarrow> False | Some tc \<Rightarrow> Good ping tc)"

definition activeConn_Do ::
  "('c \<Rightarrow> 'r option \<times> go_error option) option \<Rightarrow> 'c ThriftConn option \<Rightarrow> 'r Then option" where
  "activeConn_Do action ac = (case ac of None \<Rightarrow> None | Some tc \<Rightarrow> Some (Do action tc))"

definition activeConn_ForceClose :: "'c ThriftConn option \<Rightarrow> bool" where
  "activeConn_ForceClose ac = (case ac of None \<Rightarrow> True | Some tc \<Rightarrow> ForceClose tc)"

section \<open>Opening connections\<close>

abbreviation (input) THRIFT_TRANSPORT_HEADER :: string where "THRIFT_TRANSPORT_HEADER \<equiv> ''HEADER''"
abbreviation (input) THRIFT_TRANSPORT_FREMED :: string where "THRIFT_TRANSPORT_FREMED \<equiv> ''FRAMED''"

record ThriftConfig =
  cfg_Host :: string
  cfg_Port :: int
  cfg_TransportType :: string
  cfg_CompressionMethod :: uint32

datatype transport = FramedTransport string | HeaderTransport string "uint32 list"

datatype protocol = BinaryProtocol | HeaderProtocol

text \<open>\<open>net.JoinHostPort\<close> brackets a host with a colon in it.\<close>

definition JoinHostPort :: "string \<Rightarrow> string \<Rightarrow> string" where
  "JoinHostPort host port =
     (if CHR '':'' \<in> set host then ''['' @ host @ '']:'' @ port else host @ '':'' @ port)"

definition makeTransport ::
  "(string \<Rightarrow> go_error option) \<Rightarrow> (transport \<Rightarrow> go_error option) \<Rightarrow> string \<Rightarrow> int \<Rightarrow> string \<Rightarrow> uint32 \<Rightarrow> go_error + transport" where
  "makeTransport newSocket open host port tTransport transId =
     (let addr = JoinHostPort host (Itoa port) in
      case newSocket addr of
        Some e \<Rightarrow> Inl e
      | None \<Rightarrow>
          let tport = (if tTransport = THRIFT_TRANSPORT_FREMED then FramedTransport addr
                       else HeaderTransport addr (if transId \<noteq> 0 then [transId] else []))
          in case open tport of Some e \<Rightarrow> Inl e | None \<Rightarrow> Inr tport)"

definition NewThriftConn ::
  "(string \<Rightarrow> go_error option) \<Rightarrow> (transport \<Rightarrow> go_error option) \<Rightarrow> ThriftConfig \<Rightarrow> go_error + (transport \<times> protocol) ThriftConn" where
  "NewThriftConn newSocket open config =
     (case makeTransport newSocket open (cfg_Host config) (cfg_Port config) (cfg_TransportType config)
             (cfg_CompressionMethod config) of
        Inl e \<Rightarrow> Inl e
      | Inr tport \<Rightarrow> Inr \<lparr>tc_err = None,
          tc_client = (tport, if cfg_TransportType config = THRIFT_TRANSPORT_FREMED then BinaryProtocol else HeaderProtocol)\<rparr>)"

section \<open>The group of pools\<close>

text \<open>A pool remembers the configuration its factory captured.\<close>

type_synonym ConnGroup = "string \<rightharpoonup> ThriftConfig \<times> Pool"

definition GetConnGroup :: ConnGroup where
  "GetConnGroup = Map.empty"

definition group_key :: "ThriftConfig \<Rightarrow> string" where
  "group_key config = cfg_Host config @ Itoa (cfg_Port config)"

text \<open>\<open>GetConnection\<close> up to the call of \<open>Aquire\<close> on the pool.\<close>

definition GetConnection_pool ::
  "int \<Rightarrow> ThriftConfig \<Rightarrow> PoolOption list \<Rightarrow> ConnGroup \<Rightarrow> (ThriftConfig \<times> Pool) \<times> ConnGroup" where
  "GetConnection_pool numCPU config opts cg =
     (let key = group_key config in
      case cg key of
        Some pl \<Rightarrow> (pl, cg)
      | None \<Rightarrow> let pl = (config, NewPool numCPU opts) in (pl, cg(key \<mapsto> pl)))"

section \<open>Properties\<close>

text \<open>Chaining \<open>OnSuccess\<close> and \<open>OnError\<close> on a result makes the same calls as \<open>TryResponse\<close>.\<close>

theorem TryResponse_chained: "TryResponse suc err t = OnSuccess suc t @ OnError err t"
  by (simp add: TryResponse_def OnSuccess_def OnError_def split: option.split)

text \<open>A connection that the pool closes by force is dropped without closing its client: a transport
  error keeps \<open>release\<close> from returning the connection to the idle list, and the same recorded error keeps
  \<open>Close\<close> from calling the close function, so the socket stays open.\<close>

theorem forced_close_leaks:
  assumes "ForceClose tc"
  shows "release_enter now (Err tc \<noteq> None) (ForceClose tc) pc p = (p, Some pc) \<and>
    snd (snd (ThriftConn_Close closeFunc tc)) = []"
  using assms
  by (auto simp: release_enter_def ThriftConn_Close_def ForceClose_def Err_def split: option.splits)

theorem forced_close_leaks_witness:
  "snd (snd (ThriftConn_Close (\<lambda>c. None) \<lparr>tc_err = Some (TransportException ''EOF''), tc_client = (7 :: nat)\<rparr>)) = []"
  using forced_close_leaks [of "\<lparr>tc_err = Some (TransportException ''EOF''), tc_client = (7 :: nat)\<rparr>" 0 "\<lparr>conn = 0, activeTime = 0\<rparr>" "NewPool 8 []" "\<lambda>c. None"]
  by (simp add: ForceClose_def Err_def)

text \<open>Closing a connection twice closes its client at most once, and exactly once if no error was
  recorded before.\<close>

theorem ThriftConn_Close_once:
  "(case ThriftConn_Close closeFunc tc of (tc', e, calls) \<Rightarrow>
     calls = (if Err tc = None then [tc_client tc] else []) \<and>
     snd (snd (ThriftConn_Close closeFunc tc')) = [])"
  by (simp add: ThriftConn_Close_def Err_def split: option.split)

text \<open>The pools of a group are those their keys were made for.\<close>

definition group_ok :: "ConnGroup \<Rightarrow> bool" where
  "group_ok cg \<longleftrightarrow> (\<forall>key cfg p. cg key = Some (cfg, p) \<longrightarrow> group_key cfg = key)"

lemma group_ok_GetConnGroup: "group_ok GetConnGroup"
  by (simp add: group_ok_def GetConnGroup_def)

lemma group_ok_GetConnection_pool:
  "group_ok cg \<Longrightarrow> group_ok (snd (GetConnection_pool numCPU config opts cg))"
  by (auto simp: group_ok_def GetConnection_pool_def Let_def split: option.splits)

lemma Itoa_nonneg_inject: "0 \<le> a \<Longrightarrow> 0 \<le> b \<Longrightarrow> Itoa a = Itoa b \<Longrightarrow> a = b"
  by (simp add: Itoa_def FormatUint_inject)

text \<open>A group never mixes up two ports of one host: the pool it returns for a configuration was made
  for that host's port, provided the group was asked about this host only.\<close>

theorem GetConnection_pool_port:
  assumes "group_ok cg" and "\<forall>key cfg p. cg key = Some (cfg, p) \<longrightarrow> cfg_Host cfg = cfg_Host config \<and> 0 \<le> cfg_Port cfg"
    and "0 \<le> cfg_Port config"
  shows "cfg_Host (fst (fst (GetConnection_pool numCPU config opts cg))) = cfg_Host config \<and>
    cfg_Port (fst (fst (GetConnection_pool numCPU config opts cg))) = cfg_Port config"
proof (cases "cg (group_key config)")
  case None
  then show ?thesis by (simp add: GetConnection_pool_def Let_def)
next
  case (Some q)
  obtain cfg p where q: "q = (cfg, p)" by (cases q)
  with Some have c: "cg (group_key config) = Some (cfg, p)" by simp
  have "group_key cfg = group_key config" using assms(1) c unfolding group_ok_def by blast
  have "cfg_Host cfg = cfg_Host config" "0 \<le> cfg_Port cfg" using assms(2) c by blast+
  with assms(3) \<open>group_key cfg = group_key config\<close> have "cfg_Port cfg = cfg_Port config"
    by (auto simp: group_key_def intro: Itoa_nonneg_inject)
  with Some q \<open>cfg_Host cfg = cfg_Host config\<close> show ?thesis by (simp add: GetConnection_pool_def Let_def)
qed

definition cfg :: "string \<Rightarrow> int \<Rightarrow> ThriftConfig" where
  "cfg h p = \<lparr>cfg_Host = h, cfg_Port = p, cfg_TransportType = THRIFT_TRANSPORT_HEADER, cfg_CompressionMethod = 0\<rparr>"

theorem GetConnection_pool_port_witness:
  "cfg_Port (fst (fst (GetConnection_pool 8 (cfg ''10.0.0.1'' 8080) []
     (snd (GetConnection_pool 8 (cfg ''10.0.0.1'' 18080) [] GetConnGroup))))) = 8080"
proof -
  have "group_ok (snd (GetConnection_pool 8 (cfg ''10.0.0.1'' 18080) [] GetConnGroup))"
    by (rule group_ok_GetConnection_pool) (rule group_ok_GetConnGroup)
  then show ?thesis
    using GetConnection_pool_port [of "snd (GetConnection_pool 8 (cfg ''10.0.0.1'' 18080) [] GetConnGroup)"
        "cfg ''10.0.0.1'' 8080" 8 "[]"]
    by (auto simp: cfg_def GetConnection_pool_def GetConnGroup_def Let_def split: if_splits)
qed

text \<open>Across hosts the group confuses addresses: after a connection to port 18080 of 10.0.0.1, asking
  for port 8080 of 10.0.0.11 returns the pool of 10.0.0.1, since host and port are joined without a
  separator.\<close>

theorem GetConnection_pool_confuses:
  "fst (GetConnection_pool n (cfg ''10.0.0.11'' 8080) opts'
     (snd (GetConnection_pool n (cfg ''10.0.0.1'' 18080) opts GetConnGroup))) =
   (cfg ''10.0.0.1'' 18080, NewPool n opts)"
proof -
  have "group_key (cfg ''10.0.0.11'' 8080) = group_key (cfg ''10.0.0.1'' 18080)"
    by (simp add: group_key_def cfg_def Itoa_def FormatUint.simps digit_char_def char_of_def bit_0)
  then show ?thesis by (simp add: GetConnection_pool_def GetConnGroup_def Let_def)
qed

end
