(* ===== verification/Laser_Balance.thy ===== *)
theory Laser_Balance
  imports Laser_Entity
begin

text \<open>
  The load balancers of \<^verbatim>\<open>src/sdk/go/common/service_router/load_balance.go\<close>.

  \<^item> Each balancer is a function from entropy, its state and a server list to an outcome: None
    when the call never returns, \<open>Some (Inl p)\<close> when it panics, and otherwise the selected
    server, if any, and the new state.
  \<^item> \<open>rand.Int(rand.Reader, n)\<close> is \<open>rand_Int r n\<close>, some number below \<open>n\<close> that the entropy \<open>r\<close>
    determines; the prime drawn by the static balancer is the entropy itself.
  \<^item> \<open>float64_to_int32\<close> is the conversion as amd64 computes it, with the value \<open>0x80000000\<close> outside
    the range; the repository's own test of \<open>IpToInt\<close> expects it.
  \<^item> \<open>math.Abs(float64(diff)) <= diffrange\<close> compares integers of at most 33 bits with a converted
    \<open>int\<close>, which is the comparison of the integers.
\<close>

section \<open>Outcomes and the contract of a balancer\<close>

type_synonym 'st outcome = "(Server option \<times> 'st) go option"

abbreviation (input) selects :: "Server \<Rightarrow> 'st \<Rightarrow> 'st outcome" where
  "selects s st \<equiv> Some (Inr (Some s, st))"
abbreviation (input) selects_none :: "'st \<Rightarrow> 'st outcome" where
  "selects_none st \<equiv> Some (Inr (None, st))"
abbreviation (input) diverges :: "'st outcome" where
  "diverges \<equiv> None"

text \<open>
  What the router relies on: an empty list selects nothing and leaves the state alone, and a
  selected server is one of the list.
\<close>

locale balancer =
  fixes select :: "nat \<Rightarrow> 'st \<Rightarrow> ServerList \<Rightarrow> 'st outcome"
  assumes select_Nil: "select r st [] = selects_none st"
    and select_mem: "select r st xs = selects s st' \<Longrightarrow> s \<in> set xs"
begin

lemma select_Some_nonempty: "select r st xs = selects s st' \<Longrightarrow> xs \<noteq> []"
  using select_mem by force

lemma select_satisfies:
  "select r st xs = selects s st' \<Longrightarrow> \<forall>x \<in> set xs. P x \<Longrightarrow> P s"
  using select_mem by blast

end

text \<open>A balancer that always finds a server in a list that has one.\<close>

locale total_balancer = balancer +
  assumes select_total: "xs \<noteq> [] \<Longrightarrow> \<exists>s st'. select r st xs = selects s st'"
begin

lemma select_cases:
  "(xs = [] \<and> select r st xs = selects_none st) \<or>
   (\<exists>s st'. s \<in> set xs \<and> select r st xs = selects s st')"
  using select_Nil select_mem select_total by (metis)

end

section \<open>Addresses as numbers\<close>

definition float64_to_int32 :: "int \<Rightarrow> int32" where
  "float64_to_int32 x =
     (if - 2147483648 \<le> x \<and> x < 2147483648 then word_of_int x else 0x80000000)"

fun ip_loop :: "string list \<Rightarrow> nat \<Rightarrow> int32 \<Rightarrow> int32" where
  "ip_loop [] i tot = tot"
| "ip_loop (v # vs) i tot =
     ip_loop vs (i - 1) (tot + float64_to_int32 (Atoi v * 256 ^ i))"

definition IpToInt :: "string \<Rightarrow> uint32" where
  "IpToInt ip =
     (let arr = Split (CHR ''.'') ip in if length arr \<noteq> 4 then 0 else ip_loop arr 3 0)"

section \<open>Random and round robin\<close>

definition rand_Int :: "nat \<Rightarrow> nat \<Rightarrow> nat" where
  "rand_Int r n = r mod n"

definition pick_random :: "nat \<Rightarrow> ServerList \<Rightarrow> Server" where
  "pick_random r xs = xs ! rand_Int r (length xs)"

definition Random_Select :: "nat \<Rightarrow> unit \<Rightarrow> ServerList \<Rightarrow> unit outcome" where
  "Random_Select r st xs = (if xs = [] then selects_none st else selects (pick_random r xs) st)"

definition Roundrobin_Select :: "nat \<Rightarrow> uint64 \<Rightarrow> ServerList \<Rightarrow> uint64 outcome" where
  "Roundrobin_Select r request xs =
     (if xs = [] then selects_none request
      else let req = request + 1 in selects (xs ! (unat req mod length xs)) req)"

section \<open>Local first and IP range first\<close>

record LocalFirst =
  localIp :: uint32
  config :: BalanceLocalFirstConfig

definition NewLoadBalanceLocalFirst :: "BalanceLocalFirstConfig \<Rightarrow> LocalFirst" where
  "NewLoadBalanceLocalFirst c = \<lparr>localIp = IpToInt (LocalIp c), config = c\<rparr>"

text \<open>The loop over the servers: \<open>Inl\<close> the local server it returns at once, or \<open>Inr\<close> the servers
  in range.\<close>

fun local_scan :: "LocalFirst \<Rightarrow> ServerList \<Rightarrow> ServerList \<Rightarrow> Server + ServerList" where
  "local_scan st [] refers = Inr refers"
| "local_scan st (server # rest) refers =
     (let ip = IpToInt (Host server) in
      if ip = 0 then local_scan st rest refers
      else if ip = localIp st then Inl server
      else let diff = ip - localIp st in
        if \<bar>sint diff\<bar> \<le> sint (DiffRange (config st))
        then local_scan st rest (refers @ [server])
        else local_scan st rest refers)"

definition LocalFirst_Select :: "nat \<Rightarrow> LocalFirst \<Rightarrow> ServerList \<Rightarrow> LocalFirst outcome" where
  "LocalFirst_Select r st xs =
     (if xs = [] then selects_none st
      else case local_scan st xs [] of
             Inl server \<Rightarrow> selects server st
           | Inr refers \<Rightarrow> selects (pick_random r (if refers = [] then xs else refers)) st)"

fun range_scan :: "LocalFirst \<Rightarrow> ServerList \<Rightarrow> ServerList \<Rightarrow> ServerList" where
  "range_scan st [] refers = refers"
| "range_scan st (server # rest) refers =
     (let ip = IpToInt (Host server) in
      if ip = 0 then range_scan st rest refers
      else let diff = ip - localIp st in
        if uint diff \<le> sint (DiffRange (config st))
        then range_scan st rest (refers @ [server])
        else range_scan st rest refers)"

definition IpRangeFirst_Select :: "nat \<Rightarrow> LocalFirst \<Rightarrow> ServerList \<Rightarrow> LocalFirst outcome" where
  "IpRangeFirst_Select r st xs =
     (if xs = [] then selects_none st
      else let refers = range_scan st xs []
           in selects (pick_random r (if refers = [] then xs else refers)) st)"

section \<open>Static weights\<close>

fun static_pick :: "nat \<Rightarrow> ServerList \<Rightarrow> Server option" where
  "static_pick idx [] = None"
| "static_pick idx (server # rest) =
     (if idx < unat (Weight server) then Some server
      else static_pick (idx - unat (Weight server)) rest)"

definition weight_sum :: "ServerList \<Rightarrow> uint32" where
  "weight_sum xs = foldl (\<lambda>acc s. acc + Weight s) 0 xs"

definition StaticWeight_Select :: "nat \<Rightarrow> unit \<Rightarrow> ServerList \<Rightarrow> unit outcome" where
  "StaticWeight_Select r st xs =
     (if xs = [] then selects_none st
      else if weight_sum xs = 0 then selects (pick_random r xs) st
      else Some (Inr (static_pick (r mod unat (weight_sum xs)) xs, st)))"

section \<open>Configurable weights\<close>

text \<open>The greatest common divisor by remainders; the first remainder panics on a zero divisor.\<close>

function Gcd :: "uint32 \<Rightarrow> uint32 \<Rightarrow> uint32 go" where
  "Gcd a b = (if b = 0 then Inl DivideByZero
              else if a mod b = 0 then Inr b else Gcd b (a mod b))"
  by pat_completeness auto
termination
  by (relation "measure (\<lambda>(a, b). unat b)") (auto simp: word_less_nat_alt unat_mod unat_gt_0)

declare Gcd.simps [simp del]

record CurrentState =
  currentIndex :: int
  currentWeight :: int

definition NewLoadBalanceConfigurableWeight :: CurrentState where
  "NewLoadBalanceConfigurableWeight = \<lparr>currentIndex = - 1, currentWeight = 0\<rparr>"

text \<open>The first loop: the divisor and the maximum of the weights, with the flag \<open>first\<close> for
  \<open>index == 0\<close>; the last weight enters the maximum after the loop.\<close>

fun weights_loop :: "bool \<Rightarrow> uint32 list \<Rightarrow> uint32 \<Rightarrow> uint32 \<Rightarrow> (uint32 \<times> uint32) go" where
  "weights_loop first [] g m = Inr (g, m)"
| "weights_loop first [w] g m = Inr (g, max m w)"
| "weights_loop first (w # w' # ws) g m =
     go_bind (if first then Gcd w w' else Gcd g w)
       (\<lambda>g'. weights_loop False (w' # ws) g' (max m w))"

text \<open>The second loop, which ends only by returning.\<close>

partial_function (option) weight_loop ::
  "ServerList \<Rightarrow> uint32 \<Rightarrow> uint32 \<Rightarrow> int \<Rightarrow> int \<Rightarrow> (Server option \<times> CurrentState) option" where
  "weight_loop xs g m idx cw =
     (let idx' = (idx + 1) smod int (length xs);
          cw' = (if idx' = 0 then (if cw - uint g \<le> 0 then uint m else cw - uint g) else cw);
          st' = \<lparr>currentIndex = idx', currentWeight = cw'\<rparr>
      in if idx' = 0 \<and> cw' = 0 then Some (None, st')
         else if word_of_int cw' \<le> Weight (xs ! nat idx') then Some (Some (xs ! nat idx'), st')
         else weight_loop xs g m idx' cw')"

definition ConfigurableWeight_Select :: "nat \<Rightarrow> CurrentState \<Rightarrow> ServerList \<Rightarrow> CurrentState outcome" where
  "ConfigurableWeight_Select r st xs =
     (if xs = [] then selects_none st
      else case weights_loop True (map Weight xs) 0 0 of
             Inl p \<Rightarrow> Some (Inl p)
           | Inr (g, m) \<Rightarrow> map_option Inr (weight_loop xs g m (currentIndex st) (currentWeight st)))"

section \<open>The balancers meet their contract\<close>

lemma pick_random_mem: "xs \<noteq> [] \<Longrightarrow> pick_random r xs \<in> set xs"
  by (simp add: pick_random_def rand_Int_def)

lemma local_scan_Inl: "local_scan st xs refers = Inl s \<Longrightarrow> s \<in> set xs \<and> IpToInt (Host s) = localIp st"
  by (induction xs arbitrary: refers) (auto simp: Let_def split: if_splits)

lemma local_scan_Inr:
  "local_scan st xs refers = Inr ys \<Longrightarrow>
     ys = refers @ filter (\<lambda>s. IpToInt (Host s) \<noteq> 0 \<and>
       \<bar>sint (IpToInt (Host s) - localIp st)\<bar> \<le> sint (DiffRange (config st))) xs
     \<and> (\<forall>s \<in> set xs. IpToInt (Host s) \<noteq> 0 \<longrightarrow> IpToInt (Host s) \<noteq> localIp st)"
  by (induction xs arbitrary: refers) (fastforce simp: Let_def split: if_splits)+

lemma range_scan_filter:
  "range_scan st xs refers = refers @ filter (\<lambda>s. IpToInt (Host s) \<noteq> 0 \<and>
     uint (IpToInt (Host s) - localIp st) \<le> sint (DiffRange (config st))) xs"
  by (induction xs arbitrary: refers) (auto simp: Let_def)

lemma static_pick_mem: "static_pick idx xs = Some s \<Longrightarrow> s \<in> set xs \<and> 0 < unat (Weight s)"
  by (induction xs arbitrary: idx) (auto split: if_splits)

lemma static_pick_total:
  "idx < sum_list (map (\<lambda>s. unat (Weight s)) xs) \<Longrightarrow> \<exists>s. static_pick idx xs = Some s"
  by (induction xs arbitrary: idx) auto

text \<open>The 32-bit sum of the weights is at most their true sum, so that wrapping around does not
  make the balancer miss.\<close>

lemma unat_weight_sum_le:
  "unat (foldl (\<lambda>acc s. acc + Weight s) a xs) \<le> unat a + sum_list (map (\<lambda>s. unat (Weight s)) xs)"
proof (induction xs arbitrary: a)
  case (Cons x xs)
  have "unat (a + Weight x) \<le> unat a + unat (Weight x)" by (simp add: unat_word_ariths)
  with Cons [of "a + Weight x"] show ?case by simp
qed simp

interpretation random: total_balancer Random_Select
  by unfold_locales (auto simp: Random_Select_def pick_random_mem split: if_splits)

interpretation roundrobin: total_balancer Roundrobin_Select
  by unfold_locales (auto simp: Roundrobin_Select_def Let_def split: if_splits)

interpretation local_first: total_balancer LocalFirst_Select
proof unfold_locales
  fix r st xs s st'
  assume "LocalFirst_Select r st xs = selects s st'"
  then show "s \<in> set xs"
    by (auto simp: LocalFirst_Select_def dest!: local_scan_Inl local_scan_Inr
        split: if_splits sum.splits intro: pick_random_mem)
      (metis (no_types, lifting) filter_is_subset pick_random_mem subsetD)
qed (auto simp: LocalFirst_Select_def split: sum.split)

interpretation ip_range: total_balancer IpRangeFirst_Select
proof unfold_locales
  fix r st xs s st'
  assume "IpRangeFirst_Select r st xs = selects s st'"
  then show "s \<in> set xs"
    by (auto simp: IpRangeFirst_Select_def range_scan_filter Let_def split: if_splits intro: pick_random_mem)
      (metis (no_types, lifting) filter_is_subset pick_random_mem subsetD)
qed (auto simp: IpRangeFirst_Select_def Let_def)

interpretation static_weight: total_balancer StaticWeight_Select
proof unfold_locales
  fix r st xs s st'
  assume "StaticWeight_Select r st xs = selects s st'"
  then show "s \<in> set xs"
    by (auto simp: StaticWeight_Select_def pick_random_mem dest: static_pick_mem split: if_splits)
next
  fix xs :: ServerList and r :: nat and st :: unit
  assume ne: "xs \<noteq> []"
  show "\<exists>s st'. StaticWeight_Select r st xs = selects s st'"
  proof (cases "weight_sum xs = 0")
    case True
    with ne show ?thesis by (simp add: StaticWeight_Select_def)
  next
    case False
    then have "r mod unat (weight_sum xs) < unat (weight_sum xs)" by (simp add: unat_gt_0)
    also have "\<dots> \<le> sum_list (map (\<lambda>s. unat (Weight s)) xs)"
      using unat_weight_sum_le [of 0 xs] by (simp add: weight_sum_def)
    finally show ?thesis using static_pick_total ne False
      by (fastforce simp: StaticWeight_Select_def)
  qed
qed (simp add: StaticWeight_Select_def)


section \<open>The configurable weights balancer returns\<close>

lemma Gcd_correct: "b \<noteq> 0 \<Longrightarrow> \<exists>g. Gcd a b = Inr g \<and> unat g = gcd (unat a) (unat b)"
proof (induction a b rule: Gcd.induct)
  case (1 a b)
  show ?case
  proof (cases "a mod b = 0")
    case True
    then have "unat b dvd unat a" by (metis unat_mod unat_0 dvd_eq_mod_eq_0)
    with True 1(2) show ?thesis by (simp add: Gcd.simps [of a b] gcd_proj2_if_dvd_nat)
  next
    case False
    with 1 obtain g where "Gcd b (a mod b) = Inr g" "unat g = gcd (unat b) (unat (a mod b))" by blast
    with False 1(2) show ?thesis
      by (simp add: Gcd.simps [of a b] unat_mod gcd_red_nat [of "unat a" "unat b"])
  qed
qed

lemma Gcd_nonzero: "b \<noteq> 0 \<Longrightarrow> \<exists>g. Gcd a b = Inr g \<and> g \<noteq> 0"
  using Gcd_correct [of b a] by (metis gcd_eq_0_iff unat_eq_zero)

lemma weights_loop_rest:
  "g \<noteq> 0 \<Longrightarrow> \<forall>w \<in> set ws. w \<noteq> 0 \<Longrightarrow>
     \<exists>g'. weights_loop False ws g m = Inr (g', foldl max m ws) \<and> g' \<noteq> 0"
proof (induction False ws g m rule: weights_loop.induct)
  case (3 w w' ws g m)
  then obtain g' where "Gcd g w = Inr g'" "g' \<noteq> 0" using Gcd_nonzero [of w g] by auto
  with 3 show ?case by simp
qed auto

lemma weights_loop_nonzero:
  assumes "2 \<le> length ws" "\<forall>w \<in> set ws. w \<noteq> 0"
  shows "\<exists>g. weights_loop True ws 0 0 = Inr (g, foldl max 0 ws) \<and> g \<noteq> 0"
proof -
  from assms(1) obtain w w' ws' where ws: "ws = w # w' # ws'"
    by (metis Suc_le_length_iff numeral_2_eq_2)
  with assms(2) obtain g where "Gcd w w' = Inr g" "g \<noteq> 0" using Gcd_nonzero [of w' w] by auto
  with assms(2) show ?thesis using weights_loop_rest [of g "w' # ws'" "max 0 w"] by (simp add: ws)
qed

lemma foldl_max_mem: "foldl max m ws \<in> insert m (set ws)" for m :: uint32
proof (induction ws arbitrary: m)
  case (Cons w ws)
  then show ?case using Cons.IH [of "max m w"] by (auto simp: max_def split: if_splits)
qed simp

lemma foldl_max_ge: "m \<le> foldl max m ws" "w \<in> set ws \<Longrightarrow> w \<le> foldl max m ws" for m :: uint32
proof (induction ws arbitrary: m)
  case (Cons x ws)
  {
    case 1
    show ?case using Cons.IH(1) [of "max m x"] by auto
  next
    case 2
    then show ?case using Cons.IH [of "max m x"] by auto
  }
qed auto

lemma foldl_max_attained:
  assumes "ws \<noteq> []" "\<forall>w \<in> set ws. w \<noteq> (0 :: uint32)"
  obtains j where "j < length ws" "ws ! j = foldl max 0 ws" "foldl max 0 ws \<noteq> 0"
proof -
  from assms(1) have "hd ws \<in> set ws" by simp
  with assms(2) have "hd ws \<noteq> 0" "hd ws \<le> foldl max 0 ws" by (auto intro: foldl_max_ge)
  then have "foldl max 0 ws \<noteq> 0" by auto
  moreover from this have "foldl max 0 ws \<in> set ws" using foldl_max_mem [of 0 ws] by auto
  ultimately show ?thesis using that by (auto simp: in_set_conv_nth)
qed

subsection \<open>One round of the second loop\<close>

definition next_weight :: "uint32 \<Rightarrow> uint32 \<Rightarrow> int \<Rightarrow> int" where
  "next_weight g m cw = (if cw - uint g \<le> 0 then uint m else cw - uint g)"

lemma weight_loop_inner:
  assumes "- 1 \<le> idx" and i: "(idx + 1) mod int (length xs) = int i" and "0 < i"
  shows "weight_loop xs g m idx cw =
    (if word_of_int cw \<le> Weight (xs ! i)
     then Some (Some (xs ! i), \<lparr>currentIndex = int i, currentWeight = cw\<rparr>)
     else weight_loop xs g m (int i) cw)"
proof -
  have "(idx + 1) smod int (length xs) = int i"
    using assms(1) i by (cases "idx + 1 = 0") (auto simp: smod_int_alt_def sgn_if)
  with assms(3) show ?thesis by (subst weight_loop.simps) (simp add: Let_def)
qed

lemma weight_loop_wrap:
  assumes "- 1 \<le> idx" "xs \<noteq> []" "(idx + 1) mod int (length xs) = 0" "m \<noteq> 0"
  shows "weight_loop xs g m idx cw =
    (if word_of_int (next_weight g m cw) \<le> Weight (xs ! 0)
     then Some (Some (xs ! 0), \<lparr>currentIndex = 0, currentWeight = next_weight g m cw\<rparr>)
     else weight_loop xs g m 0 (next_weight g m cw))"
proof -
  have "(idx + 1) smod int (length xs) = 0"
    using assms(1,3) by (simp add: smod_int_alt_def sgn_if)
  moreover have "next_weight g m cw \<noteq> 0" using assms(4) by (auto simp: next_weight_def uint_0_iff)
  ultimately show ?thesis
    by (subst weight_loop.simps) (simp add: Let_def next_weight_def)
qed

text \<open>A returned server with a state the next call can start from.\<close>

definition good_return :: "ServerList \<Rightarrow> (Server option \<times> CurrentState) option \<Rightarrow> bool" where
  "good_return xs res \<longleftrightarrow> (\<exists>s \<in> set xs. \<exists>st. res = Some (Some s, st) \<and>
     0 \<le> currentIndex st \<and> 0 \<le> currentWeight st)"

text \<open>A server ahead of the index whose weight reaches the current weight ends the loop.\<close>

lemma weight_loop_scan:
  "i < j \<Longrightarrow> j < length xs \<Longrightarrow> word_of_int cw \<le> Weight (xs ! j) \<Longrightarrow> 0 \<le> cw \<Longrightarrow>
     good_return xs (weight_loop xs g m (int i) cw)"
proof (induction "j - i" arbitrary: i)
  case (Suc d)
  have mod: "(int i + 1) mod int (length xs) = int (Suc i)" using Suc.prems(1,2) by simp
  show ?case
  proof (cases "word_of_int cw \<le> Weight (xs ! Suc i)")
    case True
    with Suc.prems show ?thesis
      by (subst weight_loop_inner [OF _ mod]) (auto simp: good_return_def)
  next
    case False
    with Suc.prems have "Suc i < j" using less_antisym by fastforce
    moreover have "d = j - Suc i" using Suc.hyps(2) by simp
    ultimately have "good_return xs (weight_loop xs g m (int (Suc i)) cw)"
      using Suc.hyps(1) Suc.prems by blast
    with False show ?thesis by (subst weight_loop_inner [OF _ mod]) simp_all
  qed
qed simp

text \<open>Wrapping around with a small weight restarts at the maximum, and then returns.\<close>

lemma weight_loop_restart:
  assumes "- 1 \<le> idx" "(idx + 1) mod int (length xs) = 0" "cw - uint g \<le> 0"
    and "j < length xs" "Weight (xs ! j) = m" "m \<noteq> 0"
  shows "good_return xs (weight_loop xs g m idx cw)"
proof -
  have ne: "xs \<noteq> []" using assms(4) by auto
  have m: "next_weight g m cw = uint m" using assms(3) by (simp add: next_weight_def)
  show ?thesis
  proof (cases "m \<le> Weight (xs ! 0)")
    case True
    then show ?thesis using ne assms
      by (subst weight_loop_wrap [OF assms(1) ne assms(2,6)]) (auto simp: m good_return_def)
  next
    case False
    with assms have "0 < j" by (cases j) auto
    then have "good_return xs (weight_loop xs g m (int 0) (uint m))"
      using assms by (intro weight_loop_scan) auto
    with False show ?thesis
      by (subst weight_loop_wrap [OF assms(1) ne assms(2,6)]) (simp add: m)
  qed
qed

lemma weight_loop_returns:
  assumes "j < length xs" "Weight (xs ! j) = m" "m \<noteq> 0" "g \<noteq> 0"
  shows "- 1 \<le> idx \<Longrightarrow> 0 \<le> cw \<Longrightarrow> good_return xs (weight_loop xs g m idx cw)"
proof (induction "nat cw" arbitrary: cw idx rule: less_induct)
  case less
  have ne: "xs \<noteq> []" and g: "0 < uint g"
    using assms(1,4) uint_ge_0 [of g] by (auto simp: order_less_le uint_0_iff)
  have wrap: "good_return xs (weight_loop xs g m idx cw)"
    if "- 1 \<le> idx" "(idx + 1) mod int (length xs) = 0" for idx
  proof (cases "cw - uint g \<le> 0")
    case True
    with that assms show ?thesis by (intro weight_loop_restart) auto
  next
    case False
    then have cw: "next_weight g m cw = cw - uint g" by (simp add: next_weight_def)
    have "good_return xs (weight_loop xs g m 0 (cw - uint g))"
      using False g by (intro less.hyps) auto
    with False ne show ?thesis
      by (subst weight_loop_wrap [OF that(1) ne that(2) assms(3)]) (auto simp: cw good_return_def)
  qed
  have inner: "good_return xs (weight_loop xs g m (int i) cw)" if "i < length xs" for i
    using that
  proof (induction "length xs - i" arbitrary: i)
    case (Suc d)
    show ?case
    proof (cases "Suc i < length xs")
      case True
      then have mod: "(int i + 1) mod int (length xs) = int (Suc i)" by simp
      have "good_return xs (weight_loop xs g m (int (Suc i)) cw)"
        using Suc True by (intro Suc.hyps) auto
      with True less.prems(2) show ?thesis
        by (subst weight_loop_inner [OF _ mod]) (auto simp: good_return_def)
    next
      case False
      with Suc.prems have "Suc i = length xs" by simp
      then have "(int i + 1) mod int (length xs) = 0" by (metis of_nat_Suc add.commute mod_self)
      then show ?thesis by (intro wrap) auto
    qed
  qed simp
  let ?i = "nat ((idx + 1) mod int (length xs))"
  have i: "(idx + 1) mod int (length xs) = int ?i" "?i < length xs" using ne by (auto simp: nat_less_iff)
  show ?case
  proof (cases "?i = 0")
    case True
    with i(1) less.prems(1) show ?thesis by (intro wrap) auto
  next
    case False
    then show ?thesis
      using inner [OF i(2)] i(2) less.prems
      by (subst weight_loop_inner [OF less.prems(1) i(1)]) (auto simp: good_return_def)
  qed
qed

lemma weight_loop_mem:
  assumes "weight_loop xs g m idx cw = Some (Some s, st)" "xs \<noteq> []"
  shows "s \<in> set xs"
proof -
  have "\<forall>s. fst r = Some s \<longrightarrow> xs \<noteq> [] \<longrightarrow> s \<in> set xs"
    if "weight_loop xs g m idx cw = Some r" for r
  proof (rule weight_loop.raw_induct [where P = "\<lambda>xs g m idx cw r. \<forall>s. fst r = Some s \<longrightarrow> xs \<noteq> [] \<longrightarrow> s \<in> set xs", OF _ that])
    fix f xs g m idx cw r
    assume IH: "\<And>xs g m idx cw r. f xs g m idx cw = Some r \<Longrightarrow> \<forall>s. fst r = Some s \<longrightarrow> xs \<noteq> [] \<longrightarrow> s \<in> set xs"
      and eq: "(let idx' = (idx + 1) smod int (length xs);
          cw' = (if idx' = 0 then (if cw - uint g \<le> 0 then uint m else cw - uint g) else cw);
          st' = \<lparr>currentIndex = idx', currentWeight = cw'\<rparr>
        in if idx' = 0 \<and> cw' = 0 then Some (None, st')
         else if word_of_int cw' \<le> Weight (xs ! nat idx') then Some (Some (xs ! nat idx'), st')
         else f xs g m idx' cw') = Some r"
    have "nat ((idx + 1) smod int (length xs)) < length xs" if "xs \<noteq> []"
      using smod_int_range [of "int (length xs)" "idx + 1"] that by auto
    with eq IH show "\<forall>s. fst r = Some s \<longrightarrow> xs \<noteq> [] \<longrightarrow> s \<in> set xs"
      by (auto simp: Let_def split: if_splits)
  qed
  with assms show ?thesis by auto
qed

interpretation configurable_weight: balancer ConfigurableWeight_Select
  by unfold_locales
    (auto simp: ConfigurableWeight_Select_def split: sum.splits dest: weight_loop_mem split: if_splits)

section \<open>Properties of the balancers\<close>

text \<open>C13. The configurable weights balancer returns: on a list of at least two servers whose weights are
  all positive, whatever list and weights earlier calls saw, \<open>Select\<close> ends its loop and selects a
  server of the list, and leaves a state from which the next call returns too.\<close>

theorem ConfigurableWeight_returns:
  assumes "2 \<le> length xs" and "\<forall>s \<in> set xs. Weight s \<noteq> 0"
    and "- 1 \<le> currentIndex st" and "0 \<le> currentWeight st"
  shows "\<exists>s \<in> set xs. \<exists>st'. ConfigurableWeight_Select r st xs = selects s st' \<and>
    0 \<le> currentIndex st' \<and> 0 \<le> currentWeight st'"
proof -
  let ?ws = "map Weight xs"
  have ws: "2 \<le> length ?ws" "\<forall>w \<in> set ?ws. w \<noteq> 0" "?ws \<noteq> []" using assms(1,2) by auto
  obtain g where g: "weights_loop True ?ws 0 0 = Inr (g, foldl max 0 ?ws)" "g \<noteq> 0"
    using weights_loop_nonzero [OF ws(1,2)] by blast
  obtain j where "j < length ?ws" "?ws ! j = foldl max 0 ?ws" "foldl max 0 ?ws \<noteq> 0"
    using foldl_max_attained [OF ws(3,2)] .
  then have "good_return xs (weight_loop xs g (foldl max 0 ?ws) (currentIndex st) (currentWeight st))"
    using g(2) assms(3,4) by (intro weight_loop_returns [of j]) auto
  with g(1) ws(3) show ?thesis by (auto simp: ConfigurableWeight_Select_def good_return_def)
qed

definition srv :: "string \<Rightarrow> uint32 \<Rightarrow> Server" where
  "srv h w = empty_server\<lparr>Host := h, Weight := w\<rparr>"

theorem ConfigurableWeight_returns_witness:
  "\<exists>s \<in> {srv ''a'' 4, srv ''b'' 2}. \<exists>st'.
     ConfigurableWeight_Select 0 NewLoadBalanceConfigurableWeight [srv ''a'' 4, srv ''b'' 2] = selects s st'"
  using ConfigurableWeight_returns
    [of "[srv ''a'' 4, srv ''b'' 2]" NewLoadBalanceConfigurableWeight 0]
  by (auto simp: srv_def NewLoadBalanceConfigurableWeight_def)

lemma weight_loop_stuck:
  assumes "weight_loop xs g m idx cw = Some r"
  shows "\<not> (length xs = 1 \<and> g = 0 \<and> 0 < cw \<and> cw < 4294967296 \<and> uint (Weight (xs ! 0)) < cw)"
proof (rule weight_loop.raw_induct [where P = "\<lambda>xs g m idx cw r.
    \<not> (length xs = 1 \<and> g = 0 \<and> 0 < cw \<and> cw < 4294967296 \<and> uint (Weight (xs ! 0)) < cw)", OF _ assms])
  fix f xs g m idx cw r
  assume IH: "\<And>xs g m idx cw r. f xs g m idx cw = Some r \<Longrightarrow>
      \<not> (length xs = 1 \<and> g = 0 \<and> 0 < cw \<and> cw < 4294967296 \<and> uint (Weight (xs ! 0)) < cw)"
    and eq: "(let idx' = (idx + 1) smod int (length xs);
          cw' = (if idx' = 0 then (if cw - uint g \<le> 0 then uint m else cw - uint g) else cw);
          st' = \<lparr>currentIndex = idx', currentWeight = cw'\<rparr>
        in if idx' = 0 \<and> cw' = 0 then Some (None, st')
         else if word_of_int cw' \<le> Weight (xs ! nat idx') then Some (Some (xs ! nat idx'), st')
         else f xs g m idx' cw') = Some r"
  show "\<not> (length xs = 1 \<and> g = 0 \<and> 0 < cw \<and> cw < 4294967296 \<and> uint (Weight (xs ! 0)) < cw)"
  proof
    assume stuck: "length xs = 1 \<and> g = 0 \<and> 0 < cw \<and> cw < 4294967296 \<and> uint (Weight (xs ! 0)) < cw"
    then have "(idx + 1) smod int (length xs) = 0" by (simp add: smod_int_alt_def)
    moreover have "\<not> word_of_int cw \<le> Weight (xs ! 0)"
      using stuck by (simp add: word_le_def uint_word_of_int)
    ultimately have "f xs g m 0 cw = Some r" using eq stuck by (auto simp: Let_def)
    with IH stuck show False by blast
  qed
qed

text \<open>C37. A single remaining server can hang the balancer for good: after a call that selected a server
  of weight \<open>w\<^sub>1\<close> from a one-server list, a call on a one-server list of smaller weight \<open>w\<^sub>2\<close> never
  returns (the divisor of a one-server list is 0, so the current weight is never lowered). The code
  holds the balancer's mutex meanwhile.\<close>

theorem ConfigurableWeight_hangs:
  assumes "0 < Weight b" and "Weight b < Weight a"
  shows "ConfigurableWeight_Select r NewLoadBalanceConfigurableWeight [a] =
      selects a \<lparr>currentIndex = 0, currentWeight = uint (Weight a)\<rparr> \<and>
    ConfigurableWeight_Select r' \<lparr>currentIndex = 0, currentWeight = uint (Weight a)\<rparr> [b] = diverges"
proof
  have a: "Weight a \<noteq> 0" using assms by auto
  show "ConfigurableWeight_Select r NewLoadBalanceConfigurableWeight [a] =
      selects a \<lparr>currentIndex = 0, currentWeight = uint (Weight a)\<rparr>"
    using a by (subst ConfigurableWeight_Select_def, subst weight_loop.simps)
      (simp add: NewLoadBalanceConfigurableWeight_def Let_def uint_0_iff)
  have "weight_loop [b] 0 (Weight b) 0 (uint (Weight a)) = None"
  proof (rule ccontr)
    assume "weight_loop [b] 0 (Weight b) 0 (uint (Weight a)) \<noteq> None"
    then obtain res where "weight_loop [b] 0 (Weight b) 0 (uint (Weight a)) = Some res" by blast
    from weight_loop_stuck [OF this] have "\<not> (0 < uint (Weight a) \<and> uint (Weight a) < 4294967296 \<and>
      uint (Weight b) < uint (Weight a))" by simp
    moreover have "uint (Weight b) < uint (Weight a)" using assms(2) by (simp add: word_less_def)
    moreover have "0 \<le> uint (Weight b)" by simp
    moreover have "uint (Weight a) < 4294967296" using uint_lt2p [of "Weight a"] by simp
    ultimately show False by linarith
  qed
  then show "ConfigurableWeight_Select r' \<lparr>currentIndex = 0, currentWeight = uint (Weight a)\<rparr> [b] = diverges"
    by (simp add: ConfigurableWeight_Select_def)
qed

theorem ConfigurableWeight_hangs_witness:
  "ConfigurableWeight_Select 0 \<lparr>currentIndex = 0, currentWeight = 10\<rparr> [srv ''b'' 5] = diverges"
  using ConfigurableWeight_hangs [of "srv ''b'' 5" "srv ''a'' 10" 0 0] by (simp add: srv_def)

text \<open>A zero weight in the second position makes the configurable weights balancer panic with a
  division by zero, whatever the other weights are.\<close>

theorem ConfigurableWeight_zero_weight_panics:
  "ConfigurableWeight_Select r st (a # b\<lparr>Weight := 0\<rparr> # rest) = Some (Inl DivideByZero)"
  by (simp add: ConfigurableWeight_Select_def Gcd.simps [of _ 0])

subsection \<open>Round robin\<close>

fun rr_run :: "nat \<Rightarrow> uint64 \<Rightarrow> ServerList \<Rightarrow> ServerList" where
  "rr_run 0 request xs = []"
| "rr_run (Suc n) request xs =
     (case Roundrobin_Select 0 request xs of
        Some (Inr (Some s, request')) \<Rightarrow> s # rr_run n request' xs
      | _ \<Rightarrow> [])"

lemma rr_run_map:
  "xs \<noteq> [] \<Longrightarrow> unat request + n < 18446744073709551616 \<Longrightarrow>
     rr_run n request xs = map (\<lambda>k. xs ! ((unat request + 1 + k) mod length xs)) [0..<n]"
proof (induction n arbitrary: request)
  case (Suc n)
  then have "unat (request + 1) = unat request + 1" by (simp add: unat_word_ariths)
  with Suc show ?case
    by (simp add: Roundrobin_Select_def Let_def upt_conv_Cons map_Suc_upt [symmetric] del: upt_Suc)
qed simp

text \<open>Round robin is fair: as many consecutive selections as there are servers visit every server
  once, in list order starting after the last one served, until the 64-bit counter wraps around.\<close>

theorem Roundrobin_rotation:
  assumes "xs \<noteq> []" and "unat request + length xs < 18446744073709551616"
  shows "rr_run (length xs) request xs = rotate (unat request + 1) xs"
proof (rule nth_equalityI)
  fix i
  assume "i < length (rr_run (length xs) request xs)"
  then have i: "i < length xs" using assms by (simp add: rr_run_map)
  then show "rr_run (length xs) request xs ! i = rotate (unat request + 1) xs ! i"
    using assms by (subst nth_rotate [OF i]) (simp add: rr_run_map)
qed (use assms in \<open>simp add: rr_run_map\<close>)

theorem Roundrobin_rotation_witness:
  "rr_run (Suc (Suc (Suc 0))) 7 [srv ''a'' 0, srv ''b'' 0, srv ''c'' 0] = [srv ''c'' 0, srv ''a'' 0, srv ''b'' 0]"
  using Roundrobin_rotation [of "[srv ''a'' 0, srv ''b'' 0, srv ''c'' 0]" 7]
  by (simp add: rotate_drop_take del: rr_run.simps)

subsection \<open>Static weights\<close>

text \<open>The static weights balancer selects a server from every list that has one, even when the sum
  of the weights wraps around 32 bits; and unless that sum is 0 it never selects a server of weight
  0.\<close>

theorem StaticWeight_selects:
  assumes "xs \<noteq> []"
  shows "\<exists>s \<in> set xs. StaticWeight_Select r st xs = selects s st \<and>
    (weight_sum xs \<noteq> 0 \<longrightarrow> Weight s \<noteq> 0)"
proof -
  obtain s st' where sel: "StaticWeight_Select r st xs = selects s st'"
    using static_weight.select_total [OF assms] by blast
  then have "s \<in> set xs" by (rule static_weight.select_mem)
  moreover have "Weight s \<noteq> 0" if "weight_sum xs \<noteq> 0"
    using sel that assms by (auto simp: StaticWeight_Select_def dest!: static_pick_mem)
  ultimately show ?thesis using sel by auto
qed

theorem StaticWeight_selects_witness:
  "\<exists>s. StaticWeight_Select 3000000019 () [srv ''a'' 0, srv ''b'' 4294967295, srv ''c'' 2] = selects s () \<and>
     Weight s \<noteq> 0"
  using StaticWeight_selects [of "[srv ''a'' 0, srv ''b'' 4294967295, srv ''c'' 2]" 3000000019 "()"]
  by (auto simp: weight_sum_def srv_def)

subsection \<open>Addresses\<close>

lemma Atoi_FormatUint: "n < 9223372036854775808 \<Longrightarrow> Atoi (FormatUint n) = int n"
proof -
  assume n: "n < 9223372036854775808"
  have "digit_val (hd (FormatUint n)) \<noteq> None" using FormatUint_digits [of "hd (FormatUint n)" n] by simp
  then have "hd (FormatUint n) \<noteq> CHR ''-''" "hd (FormatUint n) \<noteq> CHR ''+''"
    by (auto simp: digit_val_def)
  with n show ?thesis by (simp add: Atoi_def ParseUint_FormatUint Let_def)
qed

definition dotted :: "nat \<Rightarrow> nat \<Rightarrow> nat \<Rightarrow> nat \<Rightarrow> string" where
  "dotted a b c d = Join (CHR ''.'') (map FormatUint [a, b, c, d])"

lemma FormatUint_no_dot: "CHR ''.'' \<notin> set (FormatUint n)"
  using FormatUint_digits [of "CHR ''.''" n] by (auto simp: digit_val_def)

lemma Split_dotted: "Split (CHR ''.'') (dotted a b c d) = map FormatUint [a, b, c, d]"
  unfolding dotted_def by (rule Split_Join) (auto simp: FormatUint_no_dot)

text \<open>\<open>IpToInt\<close> on a dotted quad: the four octets weigh \<open>2^24\<close>, \<open>2^16\<close>, \<open>2^8\<close> and 1, but a first
  octet of 128 or more always counts as \<open>2^31\<close>, since its product does not fit the \<open>int32\<close> it is
  converted to. Hosts that differ only in a first octet of at least 128 get the same number.\<close>

theorem IpToInt_dotted:
  assumes "a < 256" "b < 256" "c < 256" "d < 256"
  shows "IpToInt (dotted a b c d) =
    of_nat (if a < 128 then a * 16777216 else 2147483648) + of_nat (b * 65536 + c * 256 + d)"
proof -
  have conv: "float64_to_int32 (int k) = of_nat k" if "k < 2147483648" for k
    using that by (simp add: float64_to_int32_def)
  have a: "float64_to_int32 (int a * 16777216) =
      of_nat (if a < 128 then a * 16777216 else 2147483648)"
    by (simp add: float64_to_int32_def)
  have "float64_to_int32 (int b * 65536) = of_nat (b * 65536)"
      "float64_to_int32 (int c * 256) = of_nat (c * 256)" "float64_to_int32 (int d) = of_nat d"
    using conv [of "b * 65536"] conv [of "c * 256"] conv [of d] assms by simp_all
  with a assms show ?thesis
    by (simp add: IpToInt_def Split_dotted Atoi_FormatUint Let_def numeral_3_eq_3)
qed

theorem IpToInt_dotted_witness:
  "IpToInt (dotted 192 168 1 1) = 2158493953 \<and> IpToInt (dotted 172 168 1 1) = 2158493953"
  using IpToInt_dotted [of 192 168 1 1] IpToInt_dotted [of 172 168 1 1] by simp

subsection \<open>Local first and IP range first\<close>

definition near :: "LocalFirst \<Rightarrow> Server \<Rightarrow> bool" where
  "near st s \<longleftrightarrow> IpToInt (Host s) \<noteq> 0 \<and>
     \<bar>sint (IpToInt (Host s) - localIp st)\<bar> \<le> sint (DiffRange (config st))"

definition local :: "LocalFirst \<Rightarrow> Server \<Rightarrow> bool" where
  "local st s \<longleftrightarrow> IpToInt (Host s) \<noteq> 0 \<and> IpToInt (Host s) = localIp st"

lemma local_scan_Inl_local: "local_scan st xs refers = Inl s \<Longrightarrow> local st s"
  by (induction xs arbitrary: refers) (auto simp: Let_def local_def split: if_splits)

text \<open>Local first keeps its order of preference: a server on the caller's own address if the list
  has one, else a server within the configured distance if there is one, else any server.\<close>

theorem LocalFirst_preference:
  assumes "xs \<noteq> []"
  shows "\<exists>s \<in> set xs. LocalFirst_Select r st xs = selects s st \<and>
    ((\<exists>x \<in> set xs. local st x) \<longrightarrow> local st s) \<and>
    ((\<nexists>x. x \<in> set xs \<and> local st x) \<and> (\<exists>x \<in> set xs. near st x) \<longrightarrow> near st s)"
proof (cases "local_scan st xs []")
  case (Inl s)
  then have "LocalFirst_Select r st xs = selects s st" using assms by (simp add: LocalFirst_Select_def)
  moreover from this have "s \<in> set xs" by (rule local_first.select_mem)
  moreover have "local st s" using Inl local_scan_Inl_local by blast
  ultimately show ?thesis by blast
next
  case (Inr refers)
  then have refers: "refers = filter (near st) xs" and none: "\<nexists>x. x \<in> set xs \<and> local st x"
    using local_scan_Inr [OF Inr] by (auto simp: near_def [abs_def] local_def)
  let ?s = "pick_random r (if refers = [] then xs else refers)"
  have sel: "LocalFirst_Select r st xs = selects ?s st"
    using Inr assms by (simp add: LocalFirst_Select_def)
  have "near st ?s" if "\<exists>x \<in> set xs. near st x"
  proof -
    have "refers \<noteq> []" using that refers by (auto simp: filter_empty_conv)
    then have "pick_random r refers \<in> set refers" by (rule pick_random_mem)
    with refers \<open>refers \<noteq> []\<close> show ?thesis by auto
  qed
  with sel none local_first.select_mem [OF sel] show ?thesis by blast
qed

theorem LocalFirst_preference_witness:
  "\<exists>s. LocalFirst_Select 5 \<lparr>localIp = IpToInt (dotted 10 0 0 2), config = \<lparr>LocalIp = dotted 10 0 0 2, DiffRange = 256\<rparr>\<rparr>
     [srv (dotted 10 0 0 1) 1, srv (dotted 10 0 0 2) 1] = selects s
       \<lparr>localIp = IpToInt (dotted 10 0 0 2), config = \<lparr>LocalIp = dotted 10 0 0 2, DiffRange = 256\<rparr>\<rparr> \<and>
     IpToInt (Host s) = IpToInt (dotted 10 0 0 2)"
  using LocalFirst_preference
    [of "[srv (dotted 10 0 0 1) 1, srv (dotted 10 0 0 2) 1]" 5
       "\<lparr>localIp = IpToInt (dotted 10 0 0 2), config = \<lparr>LocalIp = dotted 10 0 0 2, DiffRange = 256\<rparr>\<rparr>"]
  by (auto simp: local_def srv_def IpToInt_dotted)

text \<open>IP range first looks upwards only: it selects a server whose number exceeds the local one by
  at most the configured distance if there is one, and a server whose number lies below the local
  one, however close, is not in that range (the difference is taken without sign).\<close>

theorem IpRangeFirst_upwards:
  assumes "s \<in> set xs" and "IpToInt (Host s) \<noteq> 0"
    and "uint (IpToInt (Host s) - localIp st) \<le> sint (DiffRange (config st))"
    and "sint (DiffRange (config st)) < 2147483648"
  shows "\<exists>t \<in> set xs. IpRangeFirst_Select r st xs = selects t st \<and>
    uint (IpToInt (Host t) - localIp st) \<le> sint (DiffRange (config st)) \<and>
    localIp st - 1 \<noteq> IpToInt (Host t)"
proof -
  let ?refers = "range_scan st xs []"
  have "s \<in> set ?refers" using assms by (simp add: range_scan_filter)
  then have ne: "?refers \<noteq> []" "xs \<noteq> []" using assms(1) by auto
  then have sel: "IpRangeFirst_Select r st xs = selects (pick_random r ?refers) st"
    by (simp add: IpRangeFirst_Select_def)
  have "pick_random r ?refers \<in> set ?refers" using ne by (simp add: pick_random_mem)
  then have t: "uint (IpToInt (Host (pick_random r ?refers)) - localIp st) \<le> sint (DiffRange (config st))"
    by (simp add: range_scan_filter)
  have "localIp st - 1 \<noteq> IpToInt (Host (pick_random r ?refers))"
  proof
    assume "localIp st - 1 = IpToInt (Host (pick_random r ?refers))"
    then have "IpToInt (Host (pick_random r ?refers)) - localIp st = - 1" by (simp add: algebra_simps flip: eq_diff_eq)
    with t assms(4) show False by (simp add: unsigned_minus_1_eq_mask mask_eq_exp_minus_1)
  qed
  with sel t ip_range.select_mem [OF sel] show ?thesis by blast
qed

theorem IpRangeFirst_upwards_witness:
  "\<exists>t. IpRangeFirst_Select 1 \<lparr>localIp = IpToInt (dotted 10 0 0 2), config = \<lparr>LocalIp = dotted 10 0 0 2, DiffRange = 256\<rparr>\<rparr>
     [srv (dotted 10 0 0 1) 1, srv (dotted 10 0 0 3) 1] = selects t
       \<lparr>localIp = IpToInt (dotted 10 0 0 2), config = \<lparr>LocalIp = dotted 10 0 0 2, DiffRange = 256\<rparr>\<rparr> \<and>
     IpToInt (dotted 10 0 0 2) - 1 \<noteq> IpToInt (Host t)"
  using IpRangeFirst_upwards
    [of "srv (dotted 10 0 0 3) 1" "[srv (dotted 10 0 0 1) 1, srv (dotted 10 0 0 3) 1]"
       "\<lparr>localIp = IpToInt (dotted 10 0 0 2), config = \<lparr>LocalIp = dotted 10 0 0 2, DiffRange = 256\<rparr>\<rparr>" 1]
  by (auto simp: srv_def IpToInt_dotted)

end
