(* ===== verification/Laser_RouterDb.thy ===== *)
theory Laser_RouterDb
  imports Laser_Partition Laser_Entity
begin

text \<open>
  The routing table of \<^verbatim>\<open>src/sdk/go/common/service_router/router_db.go\<close>: server lists under a hash
  of service, protocol, route id, shard type and data centre, refreshed by notifications of the
  registry. The hash is the argument \<open>city\<close>, the clock the argument \<open>now\<close>, and the two \<open>range\<close> loops over
  maps take the orders \<open>order1\<close> and \<open>order2\<close>.

  The locks of \<open>UpdateServers\<close> are not modelled: notifications of one registry come from one
  goroutine per puller, and the model runs one update after the other.
\<close>

section \<open>State and keys\<close>

record RouterDb =
  rd_services :: "int64 \<rightharpoonup> ServerList"
  rd_lastPartitionKeys :: "string \<rightharpoonup> int64 list"
  rd_configs :: "string \<rightharpoonup> ServiceConfig"

definition GetServiceKey :: "cityhash \<Rightarrow> string \<Rightarrow> string \<Rightarrow> int64 \<Rightarrow> string \<Rightarrow> string \<Rightarrow> int64" where
  "GetServiceKey city serviceName protocol routerId shardType dc =
     (let key = hash_str city dc routerId;
          key = hash_str city serviceName key;
          key = hash_str city protocol key;
          key = hash_str city shardType key
      in key)"

definition GetRouterDb :: RouterDb where
  "GetRouterDb = \<lparr>rd_services = Map.empty, rd_lastPartitionKeys = Map.empty, rd_configs = Map.empty\<rparr>"

section \<open>Configuration\<close>

definition GetConfigs :: "RouterDb \<Rightarrow> (string \<rightharpoonup> ServiceConfig)" where
  "GetConfigs rd = rd_configs rd"

definition GetServiceConfig :: "RouterDb \<Rightarrow> string \<Rightarrow> (string, string) gomap option" where
  "GetServiceConfig rd serviceName =
     (case rd_configs rd serviceName of
        Some config \<Rightarrow> (case Configs config of Some m \<Rightarrow> Some m | None \<Rightarrow> None)
      | None \<Rightarrow> None)"

definition GetServiceRouterConfig :: "RouterDb \<Rightarrow> string \<Rightarrow> ServiceRouterConfig" where
  "GetServiceRouterConfig rd serviceName =
     (case rd_configs rd serviceName of
        Some config \<Rightarrow> RouterPart config
      | None \<Rightarrow> DefaultServiceRouterConfig)"

definition UpdateConfig :: "string \<Rightarrow> ServiceConfig \<Rightarrow> RouterDb \<Rightarrow> RouterDb" where
  "UpdateConfig serviceName config rd = rd\<lparr>rd_configs := (rd_configs rd)(serviceName \<mapsto> config)\<rparr>"

section \<open>Picking and registering servers\<close>

fun PickServers :: "uint64 \<Rightarrow> RouterDb \<Rightarrow> string \<Rightarrow> ServerList \<Rightarrow> ServerList" where
  "PickServers now rd serviceName [] = []"
| "PickServers now rd serviceName (s # rest) =
     (if UpdateTime s + ucast (TtlInMs (GetServiceRouterConfig rd serviceName)) < now
      then PickServers now rd serviceName rest
      else if Status s \<noteq> ServerStatus_AVAILABLE then PickServers now rd serviceName rest
      else s # PickServers now rd serviceName rest)"

definition with_dc :: "Server \<Rightarrow> Server" where
  "with_dc sv = (if Dc sv = [] then sv\<lparr>Dc := DEFAULT_DC\<rparr> else sv)"

definition partition_entries :: "cityhash \<Rightarrow> string \<Rightarrow> Server \<Rightarrow> (int64 \<times> Server) list" where
  "partition_entries city serviceName sv =
     map (\<lambda>partitionHash. (GetServiceKey city serviceName (Protocol sv) partitionHash ShardType_FOLLOWER (Dc sv), sv))
       (PartitionList sv)"

definition available_shards :: "Server \<Rightarrow> uint32 list" where
  "available_shards sv =
     (if ShardList sv = [] \<and> FollowerShardList sv = []
      then AvailableShardList sv @ [ucast UINT32MAX] else AvailableShardList sv)"

definition shard_entries :: "cityhash \<Rightarrow> string \<Rightarrow> Server \<Rightarrow> (int64 \<times> Server) list" where
  "shard_entries city serviceName sv =
     concat (map (\<lambda>as. [(GetServiceKey city serviceName (Protocol sv) (ucast as) ShardType_LEADER (Dc sv), sv),
                       (GetServiceKey city serviceName (Protocol sv) (ucast as) ShardType_ALL (Dc sv), sv)])
               (available_shards sv)) @
     concat (map (\<lambda>afs. [(GetServiceKey city serviceName (Protocol sv) (ucast afs) ShardType_FOLLOWER (Dc sv), sv),
                        (GetServiceKey city serviceName (Protocol sv) (ucast afs) ShardType_ALL (Dc sv), sv)])
               (FollowerAvailableShardList sv))"

text \<open>The loop over the picked servers, with the maps \<open>partitionServers\<close> and \<open>shardServers\<close>.\<close>

fun collect_servers ::
  "cityhash \<Rightarrow> string \<Rightarrow> ServerList \<Rightarrow> (int64, ServerList) gomap \<times> (int64, ServerList) gomap \<Rightarrow>
   (int64, ServerList) gomap \<times> (int64, ServerList) gomap" where
  "collect_servers city serviceName [] acc = acc"
| "collect_servers city serviceName (s # rest) (partitionServers, shardServers) =
     (let sv = with_dc s in
      if IsEdgeNode sv
      then collect_servers city serviceName rest
             (append_all (partition_entries city serviceName sv) partitionServers, shardServers)
      else collect_servers city serviceName rest
             (partitionServers, append_all (shard_entries city serviceName sv) shardServers))"

definition clean_partitions :: "string \<Rightarrow> RouterDb \<Rightarrow> RouterDb" where
  "clean_partitions serviceName rd =
     (case rd_lastPartitionKeys rd serviceName of
        Some keys \<Rightarrow> rd\<lparr>rd_services := delete_all keys (rd_services rd),
                        rd_lastPartitionKeys := (rd_lastPartitionKeys rd)(serviceName \<mapsto> [])\<rparr>
      | None \<Rightarrow> rd\<lparr>rd_lastPartitionKeys := (rd_lastPartitionKeys rd)(serviceName \<mapsto> [])\<rparr>)"

fun store_partitions :: "string \<Rightarrow> (int64 \<times> ServerList) list \<Rightarrow> RouterDb \<Rightarrow> RouterDb" where
  "store_partitions serviceName [] rd = rd"
| "store_partitions serviceName ((key, serverList) # rest) rd =
     store_partitions serviceName rest
       (rd\<lparr>rd_services := (rd_services rd)(key \<mapsto> serverList),
           rd_lastPartitionKeys := (rd_lastPartitionKeys rd)(serviceName \<mapsto>
             (case rd_lastPartitionKeys rd serviceName of None \<Rightarrow> [] | Some keys \<Rightarrow> keys) @ [key])\<rparr>)"

definition picked_servers :: "uint64 \<Rightarrow> RouterDb \<Rightarrow> string \<Rightarrow> ServerList \<Rightarrow> ServerList" where
  "picked_servers now rd serviceName serverList =
     (let pickedResult = PickServers now rd serviceName serverList
      in if pickedResult = [] then serverList else pickedResult)"

definition UpdateServers ::
  "cityhash \<Rightarrow> uint64 \<Rightarrow> ((int64 \<times> ServerList) list \<Rightarrow> (int64 \<times> ServerList) list) \<Rightarrow>
   ((int64 \<times> ServerList) list \<Rightarrow> (int64 \<times> ServerList) list) \<Rightarrow>
   string \<Rightarrow> ServerList \<Rightarrow> RouterDb \<Rightarrow> RouterDb" where
  "UpdateServers city now order1 order2 serviceName serverList rd =
     (if serverList = [] then rd
      else case collect_servers city serviceName (picked_servers now rd serviceName serverList) ([], []) of
        (partitionServers, shardServers) \<Rightarrow>
          let rd1 = store_partitions serviceName (order1 partitionServers) (clean_partitions serviceName rd)
          in rd1\<lparr>rd_services := put_all (order2 shardServers) (rd_services rd1)\<rparr>)"

section \<open>Selecting servers\<close>

definition SelectServers ::
  "cityhash \<Rightarrow> RouterDb \<Rightarrow> string \<Rightarrow> string \<Rightarrow> int64 \<Rightarrow> string \<Rightarrow> string \<Rightarrow> ServerList option" where
  "SelectServers city rd serviceName protocol routerId shardType dc =
     rd_services rd (GetServiceKey city serviceName protocol routerId shardType dc)"

fun batch_select_loop ::
  "cityhash \<Rightarrow> RouterDb \<Rightarrow> string \<Rightarrow> string \<Rightarrow> int64 list \<Rightarrow> string \<Rightarrow> string \<Rightarrow>
   (int64 \<rightharpoonup> ServerList) \<Rightarrow> (int64 \<rightharpoonup> ServerList)" where
  "batch_select_loop city rd serviceName protocol [] shardType dc result = result"
| "batch_select_loop city rd serviceName protocol (routerId # rest) shardType dc result =
     batch_select_loop city rd serviceName protocol rest shardType dc
       (case SelectServers city rd serviceName protocol routerId shardType dc of
          Some serverList \<Rightarrow> result(routerId \<mapsto> serverList)
        | None \<Rightarrow> result)"

definition BatchSelectServers ::
  "cityhash \<Rightarrow> RouterDb \<Rightarrow> string \<Rightarrow> string \<Rightarrow> int64 list \<Rightarrow> string \<Rightarrow> string \<Rightarrow> (int64 \<rightharpoonup> ServerList)" where
  "BatchSelectServers city rd serviceName protocol routerIds shardType dc =
     batch_select_loop city rd serviceName protocol routerIds shardType dc Map.empty"

section \<open>What an update writes\<close>

lemma PickServers_filter:
  "PickServers now rd name xs = filter (\<lambda>s. Status s = ServerStatus_AVAILABLE \<and>
     now \<le> UpdateTime s + ucast (TtlInMs (GetServiceRouterConfig rd name))) xs"
  by (induction xs) (auto simp: not_less)

text \<open>The entries of both maps, as the loop writes them.\<close>

definition all_partition_entries :: "cityhash \<Rightarrow> string \<Rightarrow> ServerList \<Rightarrow> (int64 \<times> Server) list" where
  "all_partition_entries city name svs =
     concat (map (partition_entries city name) (filter IsEdgeNode (map with_dc svs)))"

definition all_shard_entries :: "cityhash \<Rightarrow> string \<Rightarrow> ServerList \<Rightarrow> (int64 \<times> Server) list" where
  "all_shard_entries city name svs =
     concat (map (shard_entries city name) (filter (\<lambda>s. \<not> IsEdgeNode s) (map with_dc svs)))"

lemma append_all_append: "append_all (xs @ ys) m = append_all ys (append_all xs m)"
  by (induction xs arbitrary: m) auto

lemma collect_servers_entries:
  "collect_servers city name svs (p, q) =
     (append_all (all_partition_entries city name svs) p, append_all (all_shard_entries city name svs) q)"
  by (induction svs arbitrary: p q)
    (simp_all add: all_partition_entries_def all_shard_entries_def Let_def append_all_append)

lemma clean_partitions_simps [simp]:
  "rd_services (clean_partitions name rd) k =
     (if k \<in> set (case rd_lastPartitionKeys rd name of None \<Rightarrow> [] | Some ks \<Rightarrow> ks) then None else rd_services rd k)"
  "rd_lastPartitionKeys (clean_partitions name rd) = (rd_lastPartitionKeys rd)(name \<mapsto> [])"
  "rd_configs (clean_partitions name rd) = rd_configs rd"
  by (auto simp: clean_partitions_def delete_all_lookup split: option.splits)

lemma store_partitions_services:
  "rd_services (store_partitions name kvs rd) = put_all kvs (rd_services rd)"
  by (induction kvs arbitrary: rd) auto

lemma store_partitions_keys:
  "rd_lastPartitionKeys rd name = Some ks \<Longrightarrow>
     rd_lastPartitionKeys (store_partitions name kvs rd) name' =
       (if name' = name then Some (ks @ map fst kvs) else rd_lastPartitionKeys rd name')"
proof (induction kvs arbitrary: rd ks)
  case (Cons kv kvs)
  obtain k v where kv: "kv = (k, v)" by (cases kv)
  show ?case
    using Cons.prems Cons.IH [of "rd\<lparr>rd_services := (rd_services rd)(k \<mapsto> v),
      rd_lastPartitionKeys := (rd_lastPartitionKeys rd)(name \<mapsto> ks @ [k])\<rparr>" "ks @ [k]"]
    by (simp add: kv)
qed simp

lemma store_partitions_configs [simp]:
  "rd_configs (store_partitions name kvs rd) = rd_configs rd"
  by (induction kvs arbitrary: rd) auto

definition last_keys :: "RouterDb \<Rightarrow> string \<Rightarrow> int64 list" where
  "last_keys rd name = (case rd_lastPartitionKeys rd name of None \<Rightarrow> [] | Some ks \<Rightarrow> ks)"

text \<open>The routing table after an update, key by key.\<close>

lemma UpdateServers_services:
  assumes "is_order order1" "is_order order2" "xs \<noteq> []"
  shows "rd_services (UpdateServers city now order1 order2 name xs rd) k =
    (let picked = picked_servers now rd name xs;
         shards = values_at k (all_shard_entries city name picked);
         parts = values_at k (all_partition_entries city name picked)
     in if shards \<noteq> [] then Some shards else if parts \<noteq> [] then Some parts
        else if k \<in> set (last_keys rd name) then None else rd_services rd k)"
proof -
  have d: "distinct (map fst (append_all kvs ([] :: (int64, ServerList) gomap)))" for kvs
    by (rule distinct_append_all) simp
  show ?thesis
    using assms(3) d
    by (simp add: UpdateServers_def collect_servers_entries Let_def store_partitions_services
        put_all_order [OF assms(1)] put_all_order [OF assms(2)] map_add_def map_of_append_all last_keys_def
        split: option.splits)
qed

lemma UpdateServers_last_keys:
  assumes "is_order order1" "xs \<noteq> []"
  shows "set (last_keys (UpdateServers city now order1 order2 name xs rd) name) =
      fst ` set (all_partition_entries city name (picked_servers now rd name xs))"
    and "name' \<noteq> name \<Longrightarrow>
      last_keys (UpdateServers city now order1 order2 name xs rd) name' = last_keys rd name'"
proof -
  let ?p = "append_all (all_partition_entries city name (picked_servers now rd name xs)) []"
  have keys: "rd_lastPartitionKeys (UpdateServers city now order1 order2 name xs rd) n =
      (if n = name then Some (map fst (order1 ?p)) else rd_lastPartitionKeys rd n)" for n
    using assms(2) by (simp add: UpdateServers_def collect_servers_entries Let_def
        store_partitions_keys [where ks = "[]"])
  have "set (map fst (order1 ?p)) = dom (map_of ?p)"
    using assms(1) by (simp add: is_orderD dom_map_of_conv_image_fst)
  then show "set (last_keys (UpdateServers city now order1 order2 name xs rd) name) =
      fst ` set (all_partition_entries city name (picked_servers now rd name xs))"
    by (simp add: last_keys_def keys dom_append_all)
  show "name' \<noteq> name \<Longrightarrow>
      last_keys (UpdateServers city now order1 order2 name xs rd) name' = last_keys rd name'"
    by (simp add: last_keys_def keys)
qed

lemma UpdateServers_configs [simp]:
  "rd_configs (UpdateServers city now order1 order2 name xs rd) = rd_configs rd"
  by (simp add: UpdateServers_def Let_def split: prod.split)

section \<open>Routes\<close>

text \<open>A route as the client asks for it, and the routes a server offers: an edge node the partitions it
  holds, as follower; any other server its available leader and follower shards under their own type and
  under the type of all replicas, and shard \<open>2^32 - 1\<close> when it holds no shards at all.\<close>

record route =
  rt_protocol :: string
  rt_id :: int64
  rt_shardType :: string
  rt_dc :: string

definition route_key :: "cityhash \<Rightarrow> string \<Rightarrow> route \<Rightarrow> int64" where
  "route_key city name r = GetServiceKey city name (rt_protocol r) (rt_id r) (rt_shardType r) (rt_dc r)"

definition offered :: "Server \<Rightarrow> (int64 \<times> string) set" where
  "offered s =
     (if IsEdgeNode s then (\<lambda>h. (h, ShardType_FOLLOWER)) ` set (PartitionList s)
      else (\<lambda>a. (ucast a, ShardType_LEADER)) ` set (available_shards s) \<union>
           (\<lambda>a. (ucast a, ShardType_FOLLOWER)) ` set (FollowerAvailableShardList s) \<union>
           (\<lambda>a. (ucast a, ShardType_ALL)) ` (set (available_shards s) \<union> set (FollowerAvailableShardList s)))"

definition routes :: "Server \<Rightarrow> route set" where
  "routes s = {r. rt_protocol r = Protocol s \<and> rt_dc r = Dc s \<and> (rt_id r, rt_shardType r) \<in> offered s}"

lemma set_values_at: "set (values_at k kvs) = {v. (k, v) \<in> set kvs}"
  by (force simp: values_at_def)

lemma offered_route:
  "(\<exists>r \<in> routes s. route_key city name r = k) \<longleftrightarrow>
     (\<exists>(i, t) \<in> offered s. k = GetServiceKey city name (Protocol s) i t (Dc s))"
proof
  assume "\<exists>(i, t) \<in> offered s. k = GetServiceKey city name (Protocol s) i t (Dc s)"
  then obtain i t where "(i, t) \<in> offered s" "k = GetServiceKey city name (Protocol s) i t (Dc s)" by blast
  then show "\<exists>r \<in> routes s. route_key city name r = k"
    by (intro bexI [of _ "\<lparr>rt_protocol = Protocol s, rt_id = i, rt_shardType = t, rt_dc = Dc s\<rparr>"])
      (simp_all add: routes_def route_key_def)
qed (auto simp: routes_def route_key_def)

lemma entries_routes:
  "(k, s) \<in> set (all_partition_entries city name svs) \<union> set (all_shard_entries city name svs) \<longleftrightarrow>
     s \<in> with_dc ` set svs \<and> (\<exists>r \<in> routes s. route_key city name r = k)"
proof -
  have part: "(k, s) \<in> set (partition_entries city name s') \<longleftrightarrow>
      s = s' \<and> (\<exists>r \<in> routes s. route_key city name r = k)" if "IsEdgeNode s'" for s'
    using that by (auto simp: partition_entries_def offered_route offered_def)
  have shard: "(k, s) \<in> set (shard_entries city name s') \<longleftrightarrow>
      s = s' \<and> (\<exists>r \<in> routes s. route_key city name r = k)" if "\<not> IsEdgeNode s'" for s'
    using that by (auto simp: shard_entries_def offered_route offered_def)
  show ?thesis
    by (auto simp: all_partition_entries_def all_shard_entries_def part shard)
qed
section \<open>Properties of the routing table\<close>

lemma SelectServers_route:
  "SelectServers city rd name (rt_protocol r) (rt_id r) (rt_shardType r) (rt_dc r) =
     rd_services rd (route_key city name r)"
  by (simp add: SelectServers_def route_key_def)

text \<open>The servers a notification registers: the live ones, or all if none is, in a data centre.\<close>

definition registered :: "uint64 \<Rightarrow> RouterDb \<Rightarrow> string \<Rightarrow> ServerList \<Rightarrow> Server set" where
  "registered now rd name xs = with_dc ` set (picked_servers now rd name xs)"

text \<open>No server of the notification offers a different route with the same key.\<close>

definition no_collision :: "cityhash \<Rightarrow> string \<Rightarrow> Server set \<Rightarrow> route \<Rightarrow> bool" where
  "no_collision city name svs r \<longleftrightarrow>
     (\<forall>s \<in> svs. \<forall>r' \<in> routes s. route_key city name r' = route_key city name r \<longrightarrow> r' = r)"

lemma all_entries_edge:
  "(k, s) \<in> set (all_partition_entries city name svs) \<Longrightarrow> IsEdgeNode s"
  "(k, s) \<in> set (all_shard_entries city name svs) \<Longrightarrow> \<not> IsEdgeNode s"
  by (auto simp: all_partition_entries_def all_shard_entries_def partition_entries_def shard_entries_def)

lemma entries_of_route:
  assumes "no_collision city name (with_dc ` set svs) r"
  shows "set (values_at (route_key city name r) (all_partition_entries city name svs)) =
      {s \<in> with_dc ` set svs. r \<in> routes s \<and> IsEdgeNode s}"
    and "set (values_at (route_key city name r) (all_shard_entries city name svs)) =
      {s \<in> with_dc ` set svs. r \<in> routes s \<and> \<not> IsEdgeNode s}"
proof -
  have "(route_key city name r, s) \<in> set (all_partition_entries city name svs) \<union>
      set (all_shard_entries city name svs) \<longleftrightarrow> s \<in> with_dc ` set svs \<and> r \<in> routes s" for s
    unfolding entries_routes using assms by (metis no_collision_def)
  with all_entries_edge show
    "set (values_at (route_key city name r) (all_partition_entries city name svs)) =
      {s \<in> with_dc ` set svs. r \<in> routes s \<and> IsEdgeNode s}"
    "set (values_at (route_key city name r) (all_shard_entries city name svs)) =
      {s \<in> with_dc ` set svs. r \<in> routes s \<and> \<not> IsEdgeNode s}"
    unfolding set_values_at by blast+
qed

lemma values_at_Nil_iff: "values_at k kvs = [] \<longleftrightarrow> (\<forall>v. (k, v) \<notin> set kvs)"
  using set_values_at [of k kvs] by (metis empty_Collect_eq set_empty)

text \<open>C2. After a notification, selecting a route that some registered server offers returns exactly the
  registered servers that offer it: the ordinary servers if any of them does, and otherwise the edge
  nodes; whatever the table held before and in whatever order the maps are iterated, as long as no
  other route offered collides with it in the hash.\<close>

theorem SelectServers_after_UpdateServers:
  assumes "is_order order1" "is_order order2" "xs \<noteq> []"
    and "no_collision city name (registered now rd name xs) r"
    and "s \<in> registered now rd name xs" "r \<in> routes s"
  shows "\<exists>ys. SelectServers city (UpdateServers city now order1 order2 name xs rd) name
      (rt_protocol r) (rt_id r) (rt_shardType r) (rt_dc r) = Some ys \<and>
    set ys = {t \<in> registered now rd name xs. r \<in> routes t \<and>
      (IsEdgeNode t \<longrightarrow> (\<forall>u \<in> registered now rd name xs. r \<in> routes u \<longrightarrow> IsEdgeNode u))}"
proof -
  let ?svs = "picked_servers now rd name xs" and ?k = "route_key city name r"
  let ?parts = "values_at ?k (all_partition_entries city name ?svs)"
  let ?shards = "values_at ?k (all_shard_entries city name ?svs)"
  have nc: "no_collision city name (with_dc ` set ?svs) r"
    using assms(4) by (simp add: registered_def)
  have parts: "set ?parts = {t \<in> registered now rd name xs. r \<in> routes t \<and> IsEdgeNode t}"
    and shards: "set ?shards = {t \<in> registered now rd name xs. r \<in> routes t \<and> \<not> IsEdgeNode t}"
    using entries_of_route [OF nc] by (simp_all add: registered_def)
  have sel: "SelectServers city (UpdateServers city now order1 order2 name xs rd) name
      (rt_protocol r) (rt_id r) (rt_shardType r) (rt_dc r) =
      (if ?shards \<noteq> [] then Some ?shards else if ?parts \<noteq> [] then Some ?parts
       else if ?k \<in> set (last_keys rd name) then None else rd_services rd ?k)"
    by (simp add: SelectServers_route UpdateServers_services [OF assms(1-3)] Let_def)
  show ?thesis
  proof (cases "?shards = []")
    case True
    then have edge: "\<forall>u \<in> registered now rd name xs. r \<in> routes u \<longrightarrow> IsEdgeNode u"
      using shards by auto
    then have "?parts \<noteq> []" using parts assms(5,6) by (metis (mono_tags, lifting) empty_iff mem_Collect_eq set_empty)
    with True sel parts edge show ?thesis by auto
  next
    case False
    then have "\<exists>u \<in> registered now rd name xs. r \<in> routes u \<and> \<not> IsEdgeNode u"
      using shards by (metis (mono_tags, lifting) Collect_empty_eq set_empty)
    with False sel shards show ?thesis by auto
  qed
qed

text \<open>A shard that no registered server offers any more keeps the servers it had: only partitions
  of edge nodes are withdrawn, and of those the ones the previous notification of the same service
  registered.\<close>

theorem UpdateServers_unserved:
  assumes "is_order order1" "is_order order2" "xs \<noteq> []"
    and "\<forall>s \<in> registered now rd name xs. \<forall>r' \<in> routes s. route_key city name r' \<noteq> route_key city name r"
  shows "SelectServers city (UpdateServers city now order1 order2 name xs rd) name
      (rt_protocol r) (rt_id r) (rt_shardType r) (rt_dc r) =
    (if route_key city name r \<in> set (last_keys rd name) then None
     else SelectServers city rd name (rt_protocol r) (rt_id r) (rt_shardType r) (rt_dc r))"
proof -
  let ?svs = "picked_servers now rd name xs"
  have "(route_key city name r, s) \<notin> set (all_partition_entries city name ?svs) \<union>
      set (all_shard_entries city name ?svs)" for s
    unfolding entries_routes using assms(4) by (auto simp: registered_def)
  then show ?thesis
    by (simp add: SelectServers_route UpdateServers_services [OF assms(1-3)] Let_def values_at_Nil_iff)
qed

text \<open>C30. An edge node's partition does not outlive it: a partition that the previous notification of
  the service registered for an edge node, and that no server of the next notification offers, can no
  longer be selected.\<close>

theorem edge_partition_withdrawn:
  assumes "is_order order1" "is_order order2" "is_order order3" "is_order order4"
    and "xs \<noteq> []" "ys \<noteq> []"
    and "rd1 = UpdateServers city now order1 order2 name xs rd"
    and "s \<in> registered now rd name xs" "IsEdgeNode s" "r \<in> routes s"
    and "\<forall>t \<in> registered now' rd1 name ys. \<forall>r' \<in> routes t. route_key city name r' \<noteq> route_key city name r"
  shows "SelectServers city (UpdateServers city now' order3 order4 name ys rd1) name
      (rt_protocol r) (rt_id r) (rt_shardType r) (rt_dc r) = None"
proof -
  let ?svs = "picked_servers now rd name xs" and ?k = "route_key city name r"
  have "(?k, s) \<in> set (all_partition_entries city name ?svs) \<union> set (all_shard_entries city name ?svs)"
    unfolding entries_routes using assms(8,10) by (auto simp: registered_def)
  with all_entries_edge(2) assms(9) have "(?k, s) \<in> set (all_partition_entries city name ?svs)" by blast
  then have "?k \<in> set (last_keys rd1 name)"
    using UpdateServers_last_keys(1) [OF assms(1,5)] assms(7) by force
  moreover have "(?k, t) \<notin> set (all_partition_entries city name (picked_servers now' rd1 name ys)) \<union>
      set (all_shard_entries city name (picked_servers now' rd1 name ys))" for t
    unfolding entries_routes using assms(11) by (auto simp: registered_def)
  ultimately show ?thesis
    by (simp add: SelectServers_route UpdateServers_services [OF assms(3,4,6)] Let_def values_at_Nil_iff)
qed

text \<open>A server is picked exactly when it is available and its last heartbeat is not older than the
  service's time to live, as long as heartbeat time plus time to live fits 64 bits.\<close>

theorem PickServers_alive:
  assumes "\<forall>s \<in> set xs. unat (UpdateTime s) < 18446744069414584320"
  shows "PickServers now rd name xs = filter (\<lambda>s. Status s = ServerStatus_AVAILABLE \<and>
    unat now \<le> unat (UpdateTime s) + unat (TtlInMs (GetServiceRouterConfig rd name))) xs"
proof -
  let ?ttl = "TtlInMs (GetServiceRouterConfig rd name)"
  have "unat (UpdateTime s + ucast ?ttl) = unat (UpdateTime s) + unat ?ttl" if "s \<in> set xs" for s
  proof -
    have "unat ?ttl < 4294967296" using unsigned_less [of ?ttl, where ?'a = nat] by simp
    then have "unat (ucast ?ttl :: uint64) = unat ?ttl"
      by (simp add: unsigned_ucast_eq take_bit_nat_eq_self_iff)
    moreover have "unat (UpdateTime s) < 18446744069414584320" using assms that by blast
    ultimately show ?thesis using \<open>unat ?ttl < 4294967296\<close> by (simp add: unat_word_ariths)
  qed
  then show ?thesis by (auto simp: PickServers_filter word_le_nat_alt intro!: filter_cong)
qed

section \<open>The contract of the table\<close>

text \<open>What the router relies on: a successful selection has a server in it.\<close>

locale router_db =
  fixes inv :: "'db \<Rightarrow> bool"
    and update :: "string \<Rightarrow> ServerList \<Rightarrow> 'db \<Rightarrow> 'db"
    and select :: "'db \<Rightarrow> string \<Rightarrow> string \<Rightarrow> int64 \<Rightarrow> string \<Rightarrow> string \<Rightarrow> ServerList option"
    and init :: 'db
  assumes inv_init: "inv init"
    and inv_update: "inv db \<Longrightarrow> inv (update name xs db)"
    and select_nonempty: "inv db \<Longrightarrow> select db name protocol rid st dc = Some ys \<Longrightarrow> ys \<noteq> []"
begin

lemma inv_updates: "inv (fold (\<lambda>(name, xs). update name xs) notifications init)"
proof -
  have "inv db \<Longrightarrow> inv (fold (\<lambda>(name, xs). update name xs) notifications db)" for db
    by (induction notifications arbitrary: db) (auto simp: inv_update)
  then show ?thesis using inv_init by blast
qed

lemma select_after_updates:
  "select (fold (\<lambda>(name, xs). update name xs) notifications init) name protocol rid st dc = Some ys \<Longrightarrow> ys \<noteq> []"
  using inv_updates select_nonempty by blast

end

definition services_nonempty :: "RouterDb \<Rightarrow> bool" where
  "services_nonempty rd \<longleftrightarrow> (\<forall>k. rd_services rd k \<noteq> Some [])"

lemma services_nonempty_UpdateServers:
  assumes "is_order order1" "is_order order2" "services_nonempty rd"
  shows "services_nonempty (UpdateServers city now order1 order2 name xs rd)"
proof (cases "xs = []")
  case True
  with assms(3) show ?thesis by (simp add: UpdateServers_def)
next
  case False
  with assms(3) show ?thesis
    unfolding services_nonempty_def UpdateServers_services [OF assms(1,2) False] by (auto simp: Let_def)
qed

text \<open>The table with its maps iterated in the order of insertion.\<close>

interpretation service_table:
  router_db services_nonempty "UpdateServers city now id id" "SelectServers city" GetRouterDb
  by unfold_locales
    (auto simp: services_nonempty_UpdateServers is_order_id id_def, auto simp: services_nonempty_def GetRouterDb_def SelectServers_def)

text \<open>Selecting in a batch agrees with selecting one by one.\<close>

theorem BatchSelectServers_lookup:
  "BatchSelectServers city rd name protocol ids st dc i =
     (if i \<in> set ids then SelectServers city rd name protocol i st dc else None)"
proof -
  have "batch_select_loop city rd name protocol ids st dc m i =
      (if i \<in> set ids \<and> SelectServers city rd name protocol i st dc \<noteq> None
       then SelectServers city rd name protocol i st dc else m i)" for m
    by (induction ids arbitrary: m) (auto split: option.splits)
  then show ?thesis by (simp add: BatchSelectServers_def)
qed
subsection \<open>Concrete notifications\<close>

text \<open>A simple hash for the examples, told apart by first characters.\<close>

definition char_city :: cityhash where
  "char_city s l seed = seed * 31 + (case s of [] \<Rightarrow> 0 | c # _ \<Rightarrow> of_char c)"

definition shard_server :: Server where
  "shard_server = empty_server\<lparr>Host := ''10.0.0.1'', Port := 8080, Protocol := ''thrift'',
     Status := ''available'', UpdateTime := 100, ShardList := [1], AvailableShardList := [1]\<rparr>"

definition edge_server :: Server where
  "edge_server = empty_server\<lparr>Host := ''10.0.0.2'', Port := 8080, Protocol := ''thrift'',
     Status := ''available'', UpdateTime := 100, IsEdgeNode := True, PartitionList := [77]\<rparr>"

lemmas example_defs = char_city_def shard_server_def edge_server_def empty_server_def GetRouterDb_def
  picked_servers_def PickServers_filter GetServiceRouterConfig_def DefaultServiceRouterConfig_def
  registered_def with_dc_def routes_def offered_def available_shards_def DEFAULT_DC_def
  route_key_def GetServiceKey_def hash_str_def

lemma example_registered:
  "registered 200 GetRouterDb ''svc'' [shard_server, edge_server] =
     {shard_server\<lparr>Dc := ''default''\<rparr>, edge_server\<lparr>Dc := ''default''\<rparr>}"
  by (simp add: example_defs)

lemma example_routes:
  "routes (shard_server\<lparr>Dc := ''default''\<rparr>) =
     {\<lparr>rt_protocol = ''thrift'', rt_id = 1, rt_shardType = ''1'', rt_dc = ''default''\<rparr>,
      \<lparr>rt_protocol = ''thrift'', rt_id = 1, rt_shardType = ''0'', rt_dc = ''default''\<rparr>}"
  "routes (edge_server\<lparr>Dc := ''default''\<rparr>) =
     {\<lparr>rt_protocol = ''thrift'', rt_id = 77, rt_shardType = ''2'', rt_dc = ''default''\<rparr>}"
  by (auto simp: routes_def offered_def available_shards_def shard_server_def edge_server_def empty_server_def
      intro!: route.equality)

abbreviation (input) example_route :: "int64 \<Rightarrow> string \<Rightarrow> route" where
  "example_route i t \<equiv> \<lparr>rt_protocol = ''thrift'', rt_id = i, rt_shardType = t, rt_dc = ''default''\<rparr>"

lemma example_keys:
  "route_key char_city ''svc'' (example_route 1 ''1'') \<noteq> route_key char_city ''svc'' (example_route 1 ''0'')"
  "route_key char_city ''svc'' (example_route 1 ''1'') \<noteq> route_key char_city ''svc'' (example_route 77 ''2'')"
  "route_key char_city ''svc'' (example_route 1 ''0'') \<noteq> route_key char_city ''svc'' (example_route 77 ''2'')"
  "route_key char_city ''svc'' (example_route 2 ''1'') \<noteq> route_key char_city ''svc'' (example_route 1 ''1'')"
  "route_key char_city ''svc'' (example_route 2 ''1'') \<noteq> route_key char_city ''svc'' (example_route 1 ''0'')"
  "route_key char_city ''svc'' (example_route 2 ''1'') \<noteq> route_key char_city ''svc'' (example_route 77 ''2'')"
  by (simp_all add: route_key_def GetServiceKey_def hash_str_def char_city_def)

theorem SelectServers_after_UpdateServers_witness:
  "\<exists>ys. SelectServers char_city
      (UpdateServers char_city 200 (\<lambda>xs. xs) rev ''svc'' [shard_server, edge_server] GetRouterDb) ''svc''
      ''thrift'' 1 ''1'' ''default'' = Some ys \<and> set ys = {shard_server\<lparr>Dc := ''default''\<rparr>}"
  using SelectServers_after_UpdateServers [OF is_order_id is_order_rev, of "[shard_server, edge_server]"
      char_city "''svc''" 200 GetRouterDb "example_route 1 ''1''" "shard_server\<lparr>Dc := ''default''\<rparr>"]
  using example_keys by (auto simp: no_collision_def example_registered example_routes)

theorem UpdateServers_unserved_witness:
  "SelectServers char_city
      (UpdateServers char_city 200 (\<lambda>xs. xs) rev ''svc'' [shard_server, edge_server] GetRouterDb) ''svc''
      ''thrift'' 2 ''1'' ''default'' =
    (if route_key char_city ''svc'' (example_route 2 ''1'') \<in> set (last_keys GetRouterDb ''svc'') then None
     else SelectServers char_city GetRouterDb ''svc'' ''thrift'' 2 ''1'' ''default'')"
  using UpdateServers_unserved [OF is_order_id is_order_rev, of "[shard_server, edge_server]"
      200 GetRouterDb "''svc''" char_city "example_route 2 ''1''"]
  using example_keys by (auto simp: example_registered example_routes)

theorem edge_partition_withdrawn_witness:
  "SelectServers char_city
      (UpdateServers char_city 300 rev rev ''svc'' [shard_server]
        (UpdateServers char_city 200 (\<lambda>xs. xs) rev ''svc'' [shard_server, edge_server] GetRouterDb)) ''svc''
      ''thrift'' 77 ''2'' ''default'' = None"
proof -
  let ?rd1 = "UpdateServers char_city 200 (\<lambda>xs. xs) rev ''svc'' [shard_server, edge_server] GetRouterDb"
  have "registered 300 ?rd1 ''svc'' [shard_server] = {shard_server\<lparr>Dc := ''default''\<rparr>}"
    by (simp add: example_defs)
  moreover have "IsEdgeNode (edge_server\<lparr>Dc := ''default''\<rparr>)" by (simp add: edge_server_def)
  ultimately show ?thesis
    using edge_partition_withdrawn [OF is_order_id is_order_rev is_order_rev is_order_rev,
      of "[shard_server, edge_server]" "[shard_server]" ?rd1 char_city 200 "''svc''" GetRouterDb
        "edge_server\<lparr>Dc := ''default''\<rparr>" "example_route 77 ''2''" 300] example_keys
    by (auto simp: example_registered example_routes)
qed

theorem PickServers_alive_witness:
  "PickServers 200 GetRouterDb ''svc'' [shard_server, shard_server\<lparr>Status := ''unavailable''\<rparr>] = [shard_server]"
  using PickServers_alive [of "[shard_server, shard_server\<lparr>Status := ''unavailable''\<rparr>]" 200 GetRouterDb "''svc''"]
  by (simp add: example_defs del: PickServers.simps)

end
