(* ===== verification/Laser_Registry.thy ===== *)
theory Laser_Registry
  imports Laser_Entity
begin

text \<open>
  The registry of \<^verbatim>\<open>src/sdk/go/common/service_router/registry.go\<close>: subscriptions, static nodes,
  detection of changes, and what is written to the key-value store.

  \<^item> The Consul client is third-party. What it answers is an argument: \<open>kv_list\<close> (None: an error),
    \<open>kv_get\<close> (None: an error or no value) and \<open>kv_err\<close>, the error of a write, if any. The definitions return
    the writes they make, in order.
  \<^item> Subscribers are of any type. A notification is a value of the result, one for each subscriber; the code
    runs them in goroutines of their own and waits for all.
  \<^item> JSON encoding and decoding are arguments.
\<close>

section \<open>State\<close>

record ('s, 'c) ConsulRegistry =
  cr_lastIndexes :: "string \<rightharpoonup> uint64"
  cr_configVersions :: "string \<rightharpoonup> string"
  cr_serviceSubscribers :: "(string, 's list) gomap"
  cr_configSubscribers :: "(string, 'c list) gomap"
  cr_staticServerNodes :: "string \<rightharpoonup> ServerList"
  cr_staticSwitches :: "string \<rightharpoonup> bool"

definition NewConsulRegistry :: "('s, 'c) ConsulRegistry" where
  "NewConsulRegistry = \<lparr>cr_lastIndexes = Map.empty, cr_configVersions = Map.empty,
     cr_serviceSubscribers = [], cr_configSubscribers = [],
     cr_staticServerNodes = Map.empty, cr_staticSwitches = Map.empty\<rparr>"

type_synonym kv_pairs = "(string \<times> string) list"

datatype kv_op = KvPut string string | KvDelete string | KvDeleteTree string

section \<open>Subscriptions and static nodes\<close>

definition GetAllSubscribed :: "(string list \<Rightarrow> string list) \<Rightarrow> ('s, 'c) ConsulRegistry \<Rightarrow> string list" where
  "GetAllSubscribed order cr = order (map fst (cr_serviceSubscribers cr))"

definition PushStaticNodes :: "string \<Rightarrow> ServerList \<Rightarrow> ('s, 'c) ConsulRegistry \<Rightarrow> ('s, 'c) ConsulRegistry" where
  "PushStaticNodes serviceName serverList cr =
     cr\<lparr>cr_staticServerNodes := (cr_staticServerNodes cr)(serviceName \<mapsto> serverList)\<rparr>"

definition EnableStatic :: "string \<Rightarrow> ('s, 'c) ConsulRegistry \<Rightarrow> ('s, 'c) ConsulRegistry" where
  "EnableStatic serviceName cr = cr\<lparr>cr_staticSwitches := (cr_staticSwitches cr)(serviceName \<mapsto> True)\<rparr>"

definition DisableStatic :: "string \<Rightarrow> ('s, 'c) ConsulRegistry \<Rightarrow> ('s, 'c) ConsulRegistry" where
  "DisableStatic serviceName cr = cr\<lparr>cr_staticSwitches := (cr_staticSwitches cr)(serviceName \<mapsto> False)\<rparr>"

definition SubscribeService :: "string \<Rightarrow> 's \<Rightarrow> ('s, 'c) ConsulRegistry \<Rightarrow> ('s, 'c) ConsulRegistry" where
  "SubscribeService serviceName subscriber cr =
     (case map_of (cr_serviceSubscribers cr) serviceName of
        None \<Rightarrow> cr\<lparr>cr_serviceSubscribers := AList.update serviceName [subscriber] (cr_serviceSubscribers cr)\<rparr>
      | Some arr \<Rightarrow> cr\<lparr>cr_serviceSubscribers :=
                        AList.update serviceName (arr @ [subscriber]) (cr_serviceSubscribers cr)\<rparr>)"

definition UnsubscribeService :: "string \<Rightarrow> ('s, 'c) ConsulRegistry \<Rightarrow> ('s, 'c) ConsulRegistry" where
  "UnsubscribeService serviceName cr =
     cr\<lparr>cr_serviceSubscribers := AList.delete serviceName (cr_serviceSubscribers cr)\<rparr>"

definition SubscribeConfig :: "string \<Rightarrow> 'c \<Rightarrow> ('s, 'c) ConsulRegistry \<Rightarrow> ('s, 'c) ConsulRegistry" where
  "SubscribeConfig serviceName subscriber cr =
     (case map_of (cr_configSubscribers cr) serviceName of
        None \<Rightarrow> cr\<lparr>cr_configSubscribers := AList.update serviceName [subscriber] (cr_configSubscribers cr)\<rparr>
      | Some arr \<Rightarrow> cr\<lparr>cr_configSubscribers :=
                        AList.update serviceName (arr @ [subscriber]) (cr_configSubscribers cr)\<rparr>)"

text \<open>As the code has it, on the subscribers of services.\<close>

definition UnsubscribeConfig :: "string \<Rightarrow> ('s, 'c) ConsulRegistry \<Rightarrow> ('s, 'c) ConsulRegistry" where
  "UnsubscribeConfig serviceName cr =
     cr\<lparr>cr_serviceSubscribers := AList.delete serviceName (cr_serviceSubscribers cr)\<rparr>"

section \<open>Discovering servers\<close>

definition checkUpdate :: "string \<Rightarrow> uint64 \<Rightarrow> ('s, 'c) ConsulRegistry \<Rightarrow> bool \<times> ('s, 'c) ConsulRegistry" where
  "checkUpdate key index cr =
     (let lastIndex = (case cr_lastIndexes cr key of Some i \<Rightarrow> i | None \<Rightarrow> 0) in
      if index = lastIndex then (False, cr)
      else (True, cr\<lparr>cr_lastIndexes := (cr_lastIndexes cr)(key \<mapsto> index)\<rparr>))"

definition notifyDiscover ::
  "string \<Rightarrow> ServerList \<Rightarrow> ('s, 'c) ConsulRegistry \<Rightarrow> ('s \<times> string \<times> ServerList) list" where
  "notifyDiscover serviceName serverList cr =
     (case map_of (cr_serviceSubscribers cr) serviceName of
        Some subscribers \<Rightarrow> map (\<lambda>subscriber. (subscriber, serviceName, serverList)) subscribers
      | None \<Rightarrow> [])"

definition processDiscover ::
  "(string \<Rightarrow> Server) \<Rightarrow> Server \<Rightarrow> kv_pairs \<Rightarrow> uint64 \<Rightarrow> ('s, 'c) ConsulRegistry \<Rightarrow>
   ('s \<times> string \<times> ServerList) list \<times> ('s, 'c) ConsulRegistry" where
  "processDiscover decode server kvPairs lastIndex cr =
     (case checkUpdate (GetNodesPath server) lastIndex cr of
        (isUpdate, cr') \<Rightarrow>
          if length kvPairs = 0 \<or> \<not> isUpdate then ([], cr')
          else (notifyDiscover (ServiceName server) (map (\<lambda>pair. decode (snd pair)) kvPairs) cr', cr'))"

definition Discover ::
  "(string \<Rightarrow> Server) \<Rightarrow> (string \<Rightarrow> (kv_pairs \<times> uint64) option) \<Rightarrow> string \<Rightarrow> ('s, 'c) ConsulRegistry \<Rightarrow>
   ('s \<times> string \<times> ServerList) list \<times> ('s, 'c) ConsulRegistry" where
  "Discover decode kv_list serviceName cr =
     (if cr_staticSwitches cr serviceName \<noteq> Some True then
        let server = empty_server\<lparr>ServiceName := serviceName\<rparr> in
        (case kv_list (GetNodesPath server) of
           None \<Rightarrow> ([], cr)
         | Some (result, index) \<Rightarrow> processDiscover decode server result index cr)
      else (case cr_staticServerNodes cr serviceName of
              Some serverList \<Rightarrow> if length serverList > 0 then (notifyDiscover serviceName serverList cr, cr) else ([], cr)
            | None \<Rightarrow> ([], cr)))"

section \<open>Configuration\<close>

definition GetValue :: "(string \<Rightarrow> string option) \<Rightarrow> string \<Rightarrow> string option" where
  "GetValue kv_get key = kv_get key"

definition checkConfigUpdate ::
  "(string \<Rightarrow> string option) \<Rightarrow> Server \<Rightarrow> ('s, 'c) ConsulRegistry \<Rightarrow> bool \<times> ('s, 'c) ConsulRegistry" where
  "checkConfigUpdate kv_get server cr =
     (case kv_get (GetConfigVersionPath server) of
        None \<Rightarrow> (True, cr)
      | Some currentVersion \<Rightarrow>
          if cr_configVersions cr (ServiceName server) = Some currentVersion then (False, cr)
          else (True, cr\<lparr>cr_configVersions := (cr_configVersions cr)(ServiceName server \<mapsto> currentVersion)\<rparr>))"

definition zero_router_config :: ServiceRouterConfig where
  "zero_router_config = \<lparr>TtlInMs = 0, LoadBalanceMethod = [], TotalShards = 0, PullInterval = 0\<rparr>"

text \<open>The loop over the pairs of the configuration.\<close>

fun config_loop ::
  "(string \<Rightarrow> ServiceRouterConfig) \<Rightarrow> string \<Rightarrow> string \<Rightarrow> kv_pairs \<Rightarrow>
   ServiceRouterConfig \<times> (string, string) gomap \<Rightarrow> ServiceRouterConfig \<times> (string, string) gomap" where
  "config_loop decode routerConfigPath configsPath [] acc = acc"
| "config_loop decode routerConfigPath configsPath ((key, val) # rest) (router, configs) =
     config_loop decode routerConfigPath configsPath rest
       (if key = routerConfigPath \<and> length val \<noteq> 0 then (decode val, configs)
        else if Contains key configsPath \<and> length val \<noteq> 0 then (router, AList.update key val configs)
        else (router, configs))"

definition processConfig ::
  "(string \<Rightarrow> ServiceRouterConfig) \<Rightarrow> Server \<Rightarrow> kv_pairs \<Rightarrow> uint64 \<Rightarrow> ('s, 'c) ConsulRegistry \<Rightarrow>
   ('c \<times> string \<times> ServiceConfig) list \<times> ('s, 'c) ConsulRegistry" where
  "processConfig decode server kvPairs lastIndex cr =
     (case checkUpdate (GetConfigPath server) lastIndex cr of
        (isUpdate, cr') \<Rightarrow>
          if length kvPairs = 0 \<or> \<not> isUpdate then ([], cr')
          else case map_of (cr_configSubscribers cr') (ServiceName server) of
                 Some subscribers \<Rightarrow>
                   (case config_loop decode (GetRouterConfigPath server) (GetConfigsPath server) kvPairs
                           (zero_router_config, []) of
                      (router, configs) \<Rightarrow>
                        (map (\<lambda>sub. (sub, ServiceName server, \<lparr>RouterPart = router, Configs = Some configs\<rparr>)) subscribers, cr'))
               | None \<Rightarrow> ([], cr'))"

definition GetConfig ::
  "(string \<Rightarrow> ServiceRouterConfig) \<Rightarrow> (string \<Rightarrow> string option) \<Rightarrow> (string \<Rightarrow> (kv_pairs \<times> uint64) option) \<Rightarrow>
   string \<Rightarrow> ('s, 'c) ConsulRegistry \<Rightarrow> ('c \<times> string \<times> ServiceConfig) list \<times> ('s, 'c) ConsulRegistry" where
  "GetConfig decode kv_get kv_list serviceName cr =
     (let server = empty_server\<lparr>ServiceName := serviceName\<rparr> in
      case checkConfigUpdate kv_get server cr of
        (changed, cr') \<Rightarrow>
          if \<not> changed then ([], cr')
          else case kv_list (GetConfigPath server) of
                 None \<Rightarrow> ([], cr')
               | Some (result, index) \<Rightarrow> processConfig decode server result index cr')"

section \<open>Writing\<close>

datatype registry_error = ErrInvalidServer | KvError string | EncodeError

definition checkServerValid :: "Server \<Rightarrow> bool" where
  "checkServerValid server \<longleftrightarrow> length (ServiceName server) \<noteq> 0"

text \<open>The result (None: nil) and the writes made. The nil slices and maps the code replaces by empty
  ones are empty lists already.\<close>

definition RegisterServer ::
  "(Server \<Rightarrow> string option) \<Rightarrow> (kv_op \<Rightarrow> string option) \<Rightarrow> uint64 \<Rightarrow> Server \<Rightarrow> registry_error option \<times> kv_op list" where
  "RegisterServer encode kv_err now server =
     (if \<not> checkServerValid server then (Some ErrInvalidServer, [])
      else let server = server\<lparr>UpdateTime := now\<rparr> in
        case encode server of
          None \<Rightarrow> (Some EncodeError, [])
        | Some json \<Rightarrow>
            let op = KvPut (GetNodePath server) json
            in (map_option KvError (kv_err op), [op]))"

definition UnregisterServer ::
  "(kv_op \<Rightarrow> string option) \<Rightarrow> Server \<Rightarrow> registry_error option \<times> kv_op list" where
  "UnregisterServer kv_err server =
     (if \<not> checkServerValid server then (Some ErrInvalidServer, [])
      else let op = KvDelete (GetNodePath server) in (map_option KvError (kv_err op), [op]))"

definition UnregisterConfig ::
  "(kv_op \<Rightarrow> string option) \<Rightarrow> Server \<Rightarrow> registry_error option \<times> kv_op list" where
  "UnregisterConfig kv_err server =
     (if \<not> checkServerValid server then (Some ErrInvalidServer, [])
      else let op = KvDeleteTree (GetConfigPath server) in (map_option KvError (kv_err op), [op]))"

definition Available ::
  "(Server \<Rightarrow> string option) \<Rightarrow> (kv_op \<Rightarrow> string option) \<Rightarrow> uint64 \<Rightarrow> Server \<Rightarrow> registry_error option \<times> kv_op list" where
  "Available encode kv_err now server = RegisterServer encode kv_err now (server\<lparr>Status := ServerStatus_AVAILABLE\<rparr>)"

definition Unavailable :: "(kv_op \<Rightarrow> string option) \<Rightarrow> Server \<Rightarrow> registry_error option \<times> kv_op list" where
  "Unavailable kv_err server = UnregisterServer kv_err (server\<lparr>Status := ServerStatus_UNAVAILABLE\<rparr>)"

definition updateConfigVersion :: "uint64 \<Rightarrow> Server \<Rightarrow> kv_op list" where
  "updateConfigVersion now server = [KvPut (GetConfigVersionPath server) (Itoa (sint now))]"

definition PutRouterConfig ::
  "(ServiceRouterConfig \<Rightarrow> string option) \<Rightarrow> (kv_op \<Rightarrow> string option) \<Rightarrow> uint64 \<Rightarrow> Server \<Rightarrow> ServiceRouterConfig \<Rightarrow>
   registry_error option \<times> kv_op list" where
  "PutRouterConfig encode kv_err now server config =
     (case encode config of
        None \<Rightarrow> (Some EncodeError, [])
      | Some j \<Rightarrow>
          let op = KvPut (GetRouterConfigPath server) j;
              err = map_option KvError (kv_err op)
          in (err, [op] @ (if err \<noteq> None then updateConfigVersion now server else [])))"

fun put_configs_loop ::
  "(string \<Rightarrow> string option) \<Rightarrow> (kv_op \<Rightarrow> string option) \<Rightarrow> string \<Rightarrow> (string \<times> string) list \<Rightarrow>
   registry_error option \<times> kv_op list" where
  "put_configs_loop encode kv_err path [] = (None, [])"
| "put_configs_loop encode kv_err path ((k, v) # rest) =
     (case encode v of
        None \<Rightarrow> (Some EncodeError, [])
      | Some j \<Rightarrow>
          let op = KvPut (path @ k) j in
          case kv_err op of
            Some e \<Rightarrow> (Some (KvError e), [op])
          | None \<Rightarrow> (case put_configs_loop encode kv_err path rest of (err, ops) \<Rightarrow> (err, op # ops)))"

definition PutServiceConfigs ::
  "(string \<Rightarrow> string option) \<Rightarrow> (kv_op \<Rightarrow> string option) \<Rightarrow> uint64 \<Rightarrow>
   ((string \<times> string) list \<Rightarrow> (string \<times> string) list) \<Rightarrow> Server \<Rightarrow> (string, string) gomap option \<Rightarrow>
   registry_error option \<times> kv_op list" where
  "PutServiceConfigs encode kv_err now order server configs =
     (let path = GetConfigsPath server in
      case configs of
        None \<Rightarrow> (let op = KvPut path [] in (map_option KvError (kv_err op), [op]))
      | Some m \<Rightarrow>
          (case put_configs_loop encode kv_err path (order m) of
             (Some e, ops) \<Rightarrow> (Some e, ops)
           | (None, ops) \<Rightarrow> (None, ops @ updateConfigVersion now server)))"

section \<open>The contract of subscriptions\<close>

locale subscriptions =
  fixes subscribe :: "string \<Rightarrow> 's \<Rightarrow> 'r \<Rightarrow> 'r"
    and members :: "'r \<Rightarrow> string \<Rightarrow> 's list"
  assumes members_subscribe: "members (subscribe n x r) m = members r m @ (if m = n then [x] else [])"
begin

lemma members_subscribes:
  "members (fold (\<lambda>(n, x). subscribe n x) nxs r) m = members r m @ values_at m nxs"
  by (induction nxs arbitrary: r) (auto simp: members_subscribe)

end

locale revocable_subscriptions = subscriptions +
  fixes revoke :: "string \<Rightarrow> 'r \<Rightarrow> 'r"
  assumes members_revoke: "members (revoke n r) m = (if m = n then [] else members r m)"
begin

lemma members_resubscribe: "members (subscribe n x (revoke n r)) n = [x]"
  by (simp add: members_subscribe members_revoke)

end

definition service_members :: "('s, 'c) ConsulRegistry \<Rightarrow> string \<Rightarrow> 's list" where
  "service_members cr = slot (cr_serviceSubscribers cr)"

definition config_members :: "('s, 'c) ConsulRegistry \<Rightarrow> string \<Rightarrow> 'c list" where
  "config_members cr = slot (cr_configSubscribers cr)"

interpretation service_subs: revocable_subscriptions SubscribeService service_members UnsubscribeService
  by unfold_locales
    (auto simp: SubscribeService_def UnsubscribeService_def service_members_def slot_def update_conv' delete_conv'
      split: option.split)

interpretation config_subs: subscriptions SubscribeConfig config_members
  by unfold_locales
    (auto simp: SubscribeConfig_def config_members_def slot_def update_conv' split: option.split)

lemma checkUpdate_simps:
  "fst (checkUpdate key i cr) \<longleftrightarrow> i \<noteq> (case cr_lastIndexes cr key of Some j \<Rightarrow> j | None \<Rightarrow> 0)"
  "cr_serviceSubscribers (snd (checkUpdate key i cr)) = cr_serviceSubscribers cr"
  "cr_configSubscribers (snd (checkUpdate key i cr)) = cr_configSubscribers cr"
  "cr_staticSwitches (snd (checkUpdate key i cr)) = cr_staticSwitches cr"
  "cr_lastIndexes (snd (checkUpdate key i cr)) key = (if i = 0 then cr_lastIndexes (snd (checkUpdate key i cr)) key else Some i)"
  by (auto simp: checkUpdate_def Let_def split: option.splits)

lemma checkUpdate_again: "checkUpdate key i (snd (checkUpdate key i cr)) = (False, snd (checkUpdate key i cr))"
  by (auto simp: checkUpdate_def Let_def split: option.splits)

lemma notifyDiscover_members:
  "notifyDiscover name xs cr = map (\<lambda>sub. (sub, name, xs)) (service_members cr name)"
  by (simp add: notifyDiscover_def service_members_def slot_def split: option.split)

section \<open>Properties of discovery\<close>

definition nodes_path :: "string \<Rightarrow> string" where
  "nodes_path name = GetNodesPath (empty_server\<lparr>ServiceName := name\<rparr>)"

definition last_index :: "('s, 'c) ConsulRegistry \<Rightarrow> string \<Rightarrow> uint64" where
  "last_index cr key = (case cr_lastIndexes cr key of Some i \<Rightarrow> i | None \<Rightarrow> 0)"

lemma Discover_dynamic:
  assumes "cr_staticSwitches cr name \<noteq> Some True" "kv_list (nodes_path name) = Some (pairs, i)"
  shows "Discover decode kv_list name cr =
    (if pairs = [] \<or> i = last_index cr (nodes_path name) then []
     else map (\<lambda>sub. (sub, name, map (decode \<circ> snd) pairs)) (service_members cr name),
     snd (checkUpdate (nodes_path name) i cr))"
  using assms
  by (auto simp: Discover_def processDiscover_def nodes_path_def last_index_def checkUpdate_def Let_def
      notifyDiscover_members service_members_def comp_def split: option.splits)

text \<open>When the nodes of a service changed, each of its subscribers is notified once, in the order of
  subscription, with all the nodes the store lists.\<close>

theorem Discover_notifies:
  assumes "cr_staticSwitches cr name \<noteq> Some True" and "kv_list (nodes_path name) = Some (pairs, i)"
    and "pairs \<noteq> []" and "i \<noteq> last_index cr (nodes_path name)"
  shows "fst (Discover decode kv_list name (fold (\<lambda>(n, s). SubscribeService n s) subs cr)) =
    map (\<lambda>sub. (sub, name, map (decode \<circ> snd) pairs)) (service_members cr name @ values_at name subs)"
proof -
  let ?cr = "fold (\<lambda>(n, s). SubscribeService n s) subs cr"
  have "cr_staticSwitches ?cr = cr_staticSwitches cr \<and> cr_lastIndexes ?cr = cr_lastIndexes cr"
    by (induction subs arbitrary: cr) (auto simp: SubscribeService_def split: option.split)
  with assms have "cr_staticSwitches ?cr name \<noteq> Some True" "last_index ?cr (nodes_path name) = last_index cr (nodes_path name)"
    by (simp_all add: last_index_def)
  with assms show ?thesis by (simp add: Discover_dynamic service_subs.members_subscribes)
qed

theorem Discover_notifies_witness:
  "fst (Discover (\<lambda>v. empty_server\<lparr>Host := v\<rparr>) (\<lambda>p. Some ([(''k'', ''10.0.0.1'')], 7)) ''svc''
     (fold (\<lambda>(n, s). SubscribeService n s) [(''svc'', 1 :: nat), (''other'', 2), (''svc'', 3)]
        (NewConsulRegistry :: (nat, nat) ConsulRegistry))) =
   [(1, ''svc'', [empty_server\<lparr>Host := ''10.0.0.1''\<rparr>]), (3, ''svc'', [empty_server\<lparr>Host := ''10.0.0.1''\<rparr>])]"
  using Discover_notifies [of "NewConsulRegistry :: (nat, nat) ConsulRegistry" "''svc''"
      "\<lambda>p. Some ([(''k'', ''10.0.0.1'')], 7)" "[(''k'', ''10.0.0.1'')]" 7 "\<lambda>v. empty_server\<lparr>Host := v\<rparr>"
      "[(''svc'', 1), (''other'', 2), (''svc'', 3)]"]
  by (simp add: NewConsulRegistry_def last_index_def service_members_def slot_def del: fold.simps)

text \<open>Static nodes linger: after a discovery of the store's nodes, switching a service to a static list
  and back again, with no change in the store, does not notify the store's nodes again, so the subscribers
  keep the static list.\<close>

theorem static_nodes_linger:
  assumes "cr_staticSwitches cr name \<noteq> Some True" and "kv_list (nodes_path name) = Some (pairs, i)"
    and "cr1 = snd (Discover decode kv_list name cr)"
    and "cr2 = EnableStatic name (PushStaticNodes name statics cr1)" and "statics \<noteq> []"
    and "Discover decode kv_list name cr2 = (notes, cr3)"
  shows "notes = map (\<lambda>sub. (sub, name, statics)) (service_members cr name) \<and>
    fst (Discover decode kv_list name (DisableStatic name cr3)) = []"
proof -
  have cr1: "cr1 = snd (checkUpdate (nodes_path name) i cr)"
    using assms(1-3) by (simp add: Discover_dynamic)
  have "Discover decode kv_list name cr2 = (notifyDiscover name statics cr2, cr2)"
    using assms(4,5) by (simp add: Discover_def EnableStatic_def PushStaticNodes_def)
  with assms(6) have cr3: "cr3 = cr2" "notes = notifyDiscover name statics cr2" by auto
  have "last_index (DisableStatic name cr3) (nodes_path name) = i"
    by (simp add: cr3 assms(4) cr1 DisableStatic_def EnableStatic_def PushStaticNodes_def last_index_def
        checkUpdate_def Let_def split: option.splits)
  moreover have "cr_staticSwitches (DisableStatic name cr3) name \<noteq> Some True" by (simp add: DisableStatic_def)
  ultimately have "fst (Discover decode kv_list name (DisableStatic name cr3)) = []"
    using assms(2) by (simp add: Discover_dynamic)
  moreover have "service_members cr2 name = service_members cr name"
    by (simp add: assms(4) cr1 EnableStatic_def PushStaticNodes_def service_members_def checkUpdate_simps)
  ultimately show ?thesis using cr3 by (simp add: notifyDiscover_members)
qed

theorem static_nodes_linger_witness:
  "let kv_list = (\<lambda>p. Some ([(''k'', ''10.0.0.1'')], 7)); decode = (\<lambda>v. empty_server\<lparr>Host := v\<rparr>);
       cr = SubscribeService ''svc'' (1 :: nat) (NewConsulRegistry :: (nat, nat) ConsulRegistry);
       cr1 = snd (Discover decode kv_list ''svc'' cr);
       cr2 = EnableStatic ''svc'' (PushStaticNodes ''svc'' [empty_server] cr1)
   in fst (Discover decode kv_list ''svc'' (DisableStatic ''svc'' (snd (Discover decode kv_list ''svc'' cr2)))) = []"
proof -
  let ?kv = "\<lambda>p :: string. Some ([(''k'', ''10.0.0.1'')], 7 :: uint64)"
  let ?dec = "\<lambda>v. empty_server\<lparr>Host := v\<rparr>"
  let ?cr = "SubscribeService ''svc'' (1 :: nat) (NewConsulRegistry :: (nat, nat) ConsulRegistry)"
  let ?cr1 = "snd (Discover ?dec ?kv ''svc'' ?cr)"
  let ?cr2 = "EnableStatic ''svc'' (PushStaticNodes ''svc'' [empty_server] ?cr1)"
  have "cr_staticSwitches ?cr ''svc'' \<noteq> Some True" by (simp add: SubscribeService_def NewConsulRegistry_def)
  then show ?thesis
    using static_nodes_linger [of ?cr "''svc''" ?kv "[(''k'', ''10.0.0.1'')]" 7 ?cr1 ?dec ?cr2 "[empty_server]"
      "fst (Discover ?dec ?kv ''svc'' ?cr2)" "snd (Discover ?dec ?kv ''svc'' ?cr2)"]
    by (simp add: Let_def)
qed
section \<open>Properties of configuration\<close>

lemma config_loop_router:
  "distinct (map fst kvs) \<Longrightarrow> fst (config_loop decode rp cp kvs (r, m)) =
     (case map_of kvs rp of Some v \<Rightarrow> if v = [] then r else decode v | None \<Rightarrow> r)"
proof (induction kvs arbitrary: r m)
  case (Cons kv kvs)
  obtain k v where kv: "kv = (k, v)" by (cases kv)
  have "map_of kvs k = None" using Cons.prems kv by (simp add: map_of_eq_None_iff)
  then show ?case using Cons.IH Cons.prems by (auto simp: kv)
qed simp

lemma config_loop_configs:
  "distinct (map fst kvs) \<Longrightarrow> map_of (snd (config_loop decode rp cp kvs (r, m))) k =
     (case map_of kvs k of
        Some v \<Rightarrow> if Contains k cp \<and> k \<noteq> rp \<and> v \<noteq> [] then Some v else map_of m k
      | None \<Rightarrow> map_of m k)"
proof (induction kvs arbitrary: r m)
  case (Cons kv kvs)
  obtain k' v where kv: "kv = (k', v)" by (cases kv)
  have "map_of kvs k' = None" using Cons.prems kv by (simp add: map_of_eq_None_iff)
  then show ?case using Cons.IH Cons.prems by (auto simp: kv update_conv' split: option.splits)
qed simp

text \<open>When the configuration of a service changed, each of its subscribers gets the router part of the
  router entry (all zero if there is none or it is empty) and every non-empty entry below the
  configuration path.\<close>

theorem processConfig_notifies:
  assumes "kvs \<noteq> []" and "distinct (map fst kvs)" and "i \<noteq> last_index cr (GetConfigPath server)"
  shows "\<exists>router configs. fst (processConfig decode server kvs i cr) =
      map (\<lambda>sub. (sub, ServiceName server, \<lparr>RouterPart = router, Configs = Some configs\<rparr>)) (config_members cr (ServiceName server)) \<and>
    router = (case map_of kvs (GetRouterConfigPath server) of
      Some v \<Rightarrow> if v = [] then zero_router_config else decode v | None \<Rightarrow> zero_router_config) \<and>
    (\<forall>k. map_of configs k = (case map_of kvs k of
      Some v \<Rightarrow> if Contains k (GetConfigsPath server) \<and> k \<noteq> GetRouterConfigPath server \<and> v \<noteq> [] then Some v else None
    | None \<Rightarrow> None))"
proof -
  let ?loop = "config_loop decode (GetRouterConfigPath server) (GetConfigsPath server) kvs (zero_router_config, [])"
  have "fst (processConfig decode server kvs i cr) =
      map (\<lambda>sub. (sub, ServiceName server, \<lparr>RouterPart = fst ?loop, Configs = Some (snd ?loop)\<rparr>))
        (config_members cr (ServiceName server))"
    using assms(1,3)
    by (auto simp: processConfig_def checkUpdate_def Let_def last_index_def config_members_def slot_def
        split: option.splits prod.splits)
  moreover have "fst ?loop = (case map_of kvs (GetRouterConfigPath server) of
      Some v \<Rightarrow> if v = [] then zero_router_config else decode v | None \<Rightarrow> zero_router_config)"
    using assms(2) by (rule config_loop_router)
  moreover have "\<forall>k. map_of (snd ?loop) k = (case map_of kvs k of
      Some v \<Rightarrow> if Contains k (GetConfigsPath server) \<and> k \<noteq> GetRouterConfigPath server \<and> v \<noteq> [] then Some v else None
    | None \<Rightarrow> None)"
    using assms(2) by (simp add: config_loop_configs split: option.split)
  ultimately show ?thesis by blast
qed

theorem processConfig_notifies_witness:
  "\<exists>router configs. fst (processConfig (\<lambda>v. zero_router_config\<lparr>TtlInMs := 5\<rparr>) (empty_server\<lparr>ServiceName := ''svc''\<rparr>)
      [(''ads-core/services/svc/config/router'', ''{}'')] 3
      (SubscribeConfig ''svc'' (9 :: nat) (NewConsulRegistry :: (nat, nat) ConsulRegistry))) =
    [(9, ''svc'', \<lparr>RouterPart = router, Configs = Some configs\<rparr>)] \<and> TtlInMs router = 5"
  using processConfig_notifies [of "[(''ads-core/services/svc/config/router'', ''{}'')]" 3
      "SubscribeConfig ''svc'' (9 :: nat) (NewConsulRegistry :: (nat, nat) ConsulRegistry)"
      "empty_server\<lparr>ServiceName := ''svc''\<rparr>" "\<lambda>v. zero_router_config\<lparr>TtlInMs := 5\<rparr>"]
  by (auto simp: SubscribeConfig_def NewConsulRegistry_def last_index_def config_members_def slot_def
      GetRouterConfigPath_def GetConfigPath_def empty_server_def)

text \<open>C39. A configuration change can be lost: when the store announces a new version and then fails to list
  the configuration, later calls that find the same version notify no one, although no subscriber has seen
  it.\<close>

theorem GetConfig_loses_update:
  assumes "kv_get (GetConfigVersionPath (empty_server\<lparr>ServiceName := name\<rparr>)) = Some v"
    and "kv_list1 (GetConfigPath (empty_server\<lparr>ServiceName := name\<rparr>)) = None"
    and "GetConfig decode kv_get kv_list1 name cr = (notes, cr')"
  shows "notes = [] \<and> GetConfig decode kv_get kv_list2 name cr' = ([], cr')"
  using assms
  by (auto simp: GetConfig_def checkConfigUpdate_def Let_def split: if_splits)

theorem GetConfig_loses_update_witness:
  "fst (GetConfig (\<lambda>v. zero_router_config) (\<lambda>p. Some ''2'') (\<lambda>p. Some ([(''a'', ''b'')], 5)) ''svc''
     (snd (GetConfig (\<lambda>v. zero_router_config) (\<lambda>p. Some ''2'') (\<lambda>p. None) ''svc''
       (NewConsulRegistry :: (nat, nat) ConsulRegistry)))) = []"
  using GetConfig_loses_update [of "\<lambda>p. Some ''2''" "''svc''" "''2''" "\<lambda>p. None" "\<lambda>v. zero_router_config"
      "NewConsulRegistry :: (nat, nat) ConsulRegistry"
      "fst (GetConfig (\<lambda>v. zero_router_config) (\<lambda>p. Some ''2'') (\<lambda>p. None) ''svc'' (NewConsulRegistry :: (nat, nat) ConsulRegistry))"
      "snd (GetConfig (\<lambda>v. zero_router_config) (\<lambda>p. Some ''2'') (\<lambda>p. None) ''svc'' (NewConsulRegistry :: (nat, nat) ConsulRegistry))"
      "\<lambda>p. Some ([(''a'', ''b'')], 5)"]
  by simp

text \<open>\<open>PutRouterConfig\<close> refreshes the version of the configuration exactly when writing it failed.\<close>

theorem PutRouterConfig_version:
  assumes "encode config = Some j"
  shows "PutRouterConfig encode kv_err now server config =
    (case kv_err (KvPut (GetRouterConfigPath server) j) of
       None \<Rightarrow> (None, [KvPut (GetRouterConfigPath server) j])
     | Some e \<Rightarrow> (Some (KvError e), [KvPut (GetRouterConfigPath server) j,
                                   KvPut (GetConfigVersionPath server) (Itoa (sint now))]))"
  using assms by (simp add: PutRouterConfig_def updateConfigVersion_def Let_def split: option.split)

theorem PutRouterConfig_version_witness:
  "PutRouterConfig (\<lambda>c. Some ''{}'') (\<lambda>op. None) 5 empty_server zero_router_config =
     (None, [KvPut (GetRouterConfigPath empty_server) ''{}''])"
  using PutRouterConfig_version [of "\<lambda>c. Some ''{}''" zero_router_config "''{}''" "\<lambda>op. None" 5 empty_server]
  by simp

text \<open>\<open>PutServiceConfigs\<close> writes all entries and then the version, or stops at the first entry that
  fails and leaves the version alone.\<close>

theorem PutServiceConfigs_writes:
  assumes "is_order order" and "\<forall>(k, v) \<in> set m. encode v \<noteq> None"
    and "PutServiceConfigs encode kv_err now order server (Some m) = (err, ops)"
  shows "(err = None \<and> (\<forall>(k, v) \<in> set m. kv_err (KvPut (GetConfigsPath server @ k) (the (encode v))) = None) \<and>
      ops = map (\<lambda>(k, v). KvPut (GetConfigsPath server @ k) (the (encode v))) (order m) @ updateConfigVersion now server) \<or>
    (\<exists>e k v. err = Some (KvError e) \<and> (k, v) \<in> set m \<and> ops \<noteq> [] \<and>
      last ops = KvPut (GetConfigsPath server @ k) (the (encode v)) \<and> kv_err (last ops) = Some e)"
proof -
  let ?put = "\<lambda>(k, v). KvPut (GetConfigsPath server @ k) (the (encode v))"
  have loop: "(err' = None \<and> (\<forall>kv \<in> set kvs. kv_err (?put kv) = None) \<and> ops' = map ?put kvs) \<or>
      (\<exists>e kv. err' = Some (KvError e) \<and> kv \<in> set kvs \<and> ops' \<noteq> [] \<and> last ops' = ?put kv \<and> kv_err (?put kv) = Some e)"
    if "put_configs_loop encode kv_err (GetConfigsPath server) kvs = (err', ops')" "\<forall>(k, v) \<in> set kvs. encode v \<noteq> None"
    for kvs err' ops'
    using that
  proof (induction kvs arbitrary: err' ops')
    case (Cons kv kvs)
    obtain k v where kv: "kv = (k, v)" by (cases kv)
    with Cons.prems(2) obtain j where j: "encode v = Some j" by auto
    obtain err2 ops2 where rest: "put_configs_loop encode kv_err (GetConfigsPath server) kvs = (err2, ops2)" by fastforce
    have enc: "\<forall>(k, v) \<in> set kvs. encode v \<noteq> None" using Cons.prems(2) by simp
    show ?case
    proof (cases "kv_err (KvPut (GetConfigsPath server @ k) j)")
      case (Some e)
      then have "err' = Some (KvError e)" "ops' = [?put kv]" using Cons.prems(1) by (simp_all add: kv j Let_def)
      with Some show ?thesis by (auto simp: kv j)
    next
      case None
      then have *: "err' = err2" "ops' = ?put kv # ops2" using Cons.prems(1) by (simp_all add: kv j rest Let_def)
      have "kv_err (?put kv) = None" using None by (simp add: kv j)
      with * Cons.IH [OF rest enc] show ?thesis by auto
    qed
  qed simp
  obtain err' ops' where l: "put_configs_loop encode kv_err (GetConfigsPath server) (order m) = (err', ops')" by fastforce
  have "\<forall>(k, v) \<in> set (order m). encode v \<noteq> None" using assms(1,2) by (simp add: is_orderD)
  with loop [OF l] have "(err' = None \<and> (\<forall>kv \<in> set m. kv_err (?put kv) = None) \<and> ops' = map ?put (order m)) \<or>
      (\<exists>e kv. err' = Some (KvError e) \<and> kv \<in> set m \<and> ops' \<noteq> [] \<and> last ops' = ?put kv \<and> kv_err (?put kv) = Some e)"
    using assms(1) by (simp add: is_orderD)
  with assms(3) l show ?thesis by (auto simp: PutServiceConfigs_def Let_def split: prod.splits)
qed

theorem PutServiceConfigs_writes_witness:
  "snd (PutServiceConfigs Some (\<lambda>op. None) 5 rev empty_server (Some [(''a'', ''1''), (''b'', ''2'')])) =
     [KvPut (GetConfigsPath empty_server @ ''b'') ''2'', KvPut (GetConfigsPath empty_server @ ''a'') ''1''] @
     updateConfigVersion 5 empty_server"
  using PutServiceConfigs_writes [OF is_order_rev, of "[(''a'', ''1''), (''b'', ''2'')]" Some "\<lambda>op. None" 5 empty_server
      "fst (PutServiceConfigs Some (\<lambda>op. None) 5 rev empty_server (Some [(''a'', ''1''), (''b'', ''2'')]))"
      "snd (PutServiceConfigs Some (\<lambda>op. None) 5 rev empty_server (Some [(''a'', ''1''), (''b'', ''2'')]))"]
  by auto

text \<open>\<open>UnsubscribeConfig\<close> leaves the subscribers of the configuration in place and removes those of the
  service instead.\<close>

theorem UnsubscribeConfig_wrong_map:
  "config_members (UnsubscribeConfig name (SubscribeConfig name c cr)) name = config_members cr name @ [c] \<and>
   service_members (UnsubscribeConfig name cr) name = []"
proof -
  have "config_members (UnsubscribeConfig name (SubscribeConfig name c cr)) name =
      config_members (SubscribeConfig name c cr) name"
    by (simp add: config_members_def UnsubscribeConfig_def)
  then show ?thesis
    by (simp add: config_subs.members_subscribe) (simp add: service_members_def UnsubscribeConfig_def slot_def delete_conv')
qed

text \<open>A server without a service name is never written to the store, and any other is written once,
  with the current time, under the path that unregistering it deletes.\<close>

theorem RegisterServer_writes:
  assumes "encode (server\<lparr>UpdateTime := now\<rparr>) = Some json"
  shows "snd (RegisterServer encode kv_err now server) =
      (if ServiceName server = [] then [] else [KvPut (GetNodePath server) json]) \<and>
    snd (UnregisterServer kv_err server) =
      (if ServiceName server = [] then [] else [KvDelete (GetNodePath server)])"
  using assms
  by (simp add: RegisterServer_def UnregisterServer_def checkServerValid_def Let_def GetNodePath_def GetNodesPath_def
      GetNodeName_def)

theorem RegisterServer_writes_witness:
  "snd (RegisterServer (\<lambda>s. Some ''{}'') (\<lambda>op. None) 7 (empty_server\<lparr>ServiceName := ''svc''\<rparr>)) =
     [KvPut (GetNodePath (empty_server\<lparr>ServiceName := ''svc''\<rparr>)) ''{}'']"
  using RegisterServer_writes [of "\<lambda>s. Some ''{}''" 7 "empty_server\<lparr>ServiceName := ''svc''\<rparr>" "''{}''" "\<lambda>op. None"]
  by (simp add: empty_server_def)

end
