(* ===== verification/Laser_Timers.thy ===== *)
theory Laser_Timers
  imports Laser_Entity
begin

text \<open>
  The periodic tasks of the router: \<^verbatim>\<open>service_puller.go\<close>, which pulls configuration and servers, and
  \<^verbatim>\<open>service_pusher.go\<close>, which sends heartbeats, both in \<^verbatim>\<open>src/sdk/go/common/service_router\<close>.

  \<^item> A context is a number; \<open>tm_ctx\<close> is the one whose cancel function the task holds and \<open>tm_next\<close> the
    next to be made. \<open>tm_loops\<close> are the goroutines that run, each with its context and the period of its
    ticker, and \<open>tm_runs\<close> counts the task runs at start.
  \<^item> \<open>Stop\<close> cancels the context, which ends the goroutines that wait for it.
  \<^item> \<open>time.NewTicker\<close> panics for a period that is not positive.
  \<^item> A duration is an \<open>int64\<close> of nanoseconds.
\<close>

section \<open>Periods\<close>

definition calculateInterval :: "uint32 \<Rightarrow> int64" where
  "calculateInterval interval = ucast (2 * interval * 1000 div 3) * 1000000"

definition calculateTtl :: "uint32 \<Rightarrow> int64" where
  "calculateTtl ttl = ucast (2 * ttl div 3) * 1000000"

section \<open>Tasks\<close>

record Timer =
  tm_period :: int64
  tm_started :: bool
  tm_ctx :: nat
  tm_next :: nat
  tm_loops :: "(nat \<times> int64) list"
  tm_runs :: nat

definition timer_start :: "nat \<Rightarrow> Timer \<Rightarrow> Timer go" where
  "timer_start ctx t =
     (if tm_started t then Inr t
      else let t1 = t\<lparr>tm_started := True, tm_runs := tm_runs t + 1\<rparr> in
        if sint (tm_period t1) \<le> 0 then Inl NonPositiveTicker
        else Inr (t1\<lparr>tm_loops := tm_loops t1 @ [(ctx, tm_period t1)]\<rparr>))"

definition timer_stop :: "Timer \<Rightarrow> Timer" where
  "timer_stop t = t\<lparr>tm_loops := filter (\<lambda>l. fst l \<noteq> tm_ctx t) (tm_loops t), tm_started := False\<rparr>"

text \<open>\<open>context.WithCancel\<close>, with the cancel function stored in the task.\<close>

definition new_context :: "Timer \<Rightarrow> Timer" where
  "new_context t = t\<lparr>tm_ctx := tm_next t, tm_next := tm_next t + 1\<rparr>"

definition timer_restart :: "Timer \<Rightarrow> Timer go" where
  "timer_restart t = (let t1 = new_context (timer_stop t) in timer_start (tm_ctx t1) t1)"

definition timer_reload :: "int64 \<Rightarrow> Timer \<Rightarrow> Timer go" where
  "timer_reload period t =
     (let t1 = new_context ((timer_stop t)\<lparr>tm_period := period\<rparr>) in timer_start (tm_ctx t1) t1)"

definition timer_new :: "int64 \<Rightarrow> Timer go" where
  "timer_new period =
     timer_start 0 \<lparr>tm_period = period, tm_started = False, tm_ctx = 0, tm_next = 1, tm_loops = [], tm_runs = 0\<rparr>"

section \<open>Pullers\<close>

abbreviation (input) ServicePullerType_Config :: string where "ServicePullerType_Config \<equiv> ''CONFIG_PULLER''"
abbreviation (input) ServicePullerType_Server :: string where "ServicePullerType_Server \<equiv> ''SERVER_PULLER''"

record ServicePuller =
  sp_serviceName :: string
  sp_pullerType :: string
  sp_timer :: Timer

definition NewServicePuller :: "string \<Rightarrow> ServiceRouterConfig \<Rightarrow> string \<Rightarrow> ServicePuller go" where
  "NewServicePuller serviceName routerConfig pullerType =
     go_bind (timer_new (calculateInterval (PullInterval routerConfig)))
       (\<lambda>t. Inr \<lparr>sp_serviceName = serviceName, sp_pullerType = pullerType, sp_timer = t\<rparr>)"

definition Puller_Restart :: "ServicePuller \<Rightarrow> ServicePuller go" where
  "Puller_Restart sp = go_bind (timer_restart (sp_timer sp)) (\<lambda>t. Inr (sp\<lparr>sp_timer := t\<rparr>))"

definition Puller_Reload :: "int64 \<Rightarrow> ServicePuller \<Rightarrow> ServicePuller go" where
  "Puller_Reload interval sp = go_bind (timer_reload interval (sp_timer sp)) (\<lambda>t. Inr (sp\<lparr>sp_timer := t\<rparr>))"

definition Puller_Stop :: "ServicePuller \<Rightarrow> ServicePuller" where
  "Puller_Stop sp = sp\<lparr>sp_timer := timer_stop (sp_timer sp)\<rparr>"

section \<open>Pushers\<close>

record ServicePusher =
  sh_server :: Server
  sh_timer :: Timer

definition NewServicePusher :: "Server \<Rightarrow> ServiceRouterConfig \<Rightarrow> ServicePusher go" where
  "NewServicePusher server routerConfig =
     go_bind (timer_new (calculateTtl (TtlInMs routerConfig)))
       (\<lambda>t. Inr \<lparr>sh_server = server, sh_timer = t\<rparr>)"

definition Pusher_Restart :: "ServicePusher \<Rightarrow> ServicePusher go" where
  "Pusher_Restart sh = go_bind (timer_restart (sh_timer sh)) (\<lambda>t. Inr (sh\<lparr>sh_timer := t\<rparr>))"

definition Pusher_Reload :: "int64 \<Rightarrow> ServicePusher \<Rightarrow> ServicePusher go" where
  "Pusher_Reload ttl sh = go_bind (timer_reload ttl (sh_timer sh)) (\<lambda>t. Inr (sh\<lparr>sh_timer := t\<rparr>))"

definition Pusher_Stop :: "ServicePusher \<Rightarrow> ServicePusher" where
  "Pusher_Stop sh = sh\<lparr>sh_timer := timer_stop (sh_timer sh)\<rparr>"

definition on_server :: "(Server \<Rightarrow> Server) \<Rightarrow> ServicePusher \<Rightarrow> ServicePusher" where
  "on_server f sh = sh\<lparr>sh_server := f (sh_server sh)\<rparr>"

definition SetWeight :: "uint32 \<Rightarrow> ServicePusher \<Rightarrow> ServicePusher" where
  "SetWeight w = on_server (\<lambda>s. s\<lparr>Weight := w\<rparr>)"

definition SetShardList :: "uint32 list \<Rightarrow> ServicePusher \<Rightarrow> ServicePusher" where
  "SetShardList xs = on_server (\<lambda>s. s\<lparr>ShardList := xs\<rparr>)"

definition SetAvailableShardList :: "uint32 list \<Rightarrow> ServicePusher \<Rightarrow> ServicePusher" where
  "SetAvailableShardList xs = on_server (\<lambda>s. s\<lparr>AvailableShardList := xs\<rparr>)"

definition SetFollowerShardList :: "uint32 list \<Rightarrow> ServicePusher \<Rightarrow> ServicePusher" where
  "SetFollowerShardList xs = on_server (\<lambda>s. s\<lparr>FollowerShardList := xs\<rparr>)"

definition SetFollowerAvailableShardList :: "uint32 list \<Rightarrow> ServicePusher \<Rightarrow> ServicePusher" where
  "SetFollowerAvailableShardList xs = on_server (\<lambda>s. s\<lparr>FollowerAvailableShardList := xs\<rparr>)"

definition SetStatus :: "string \<Rightarrow> ServicePusher \<Rightarrow> ServicePusher" where
  "SetStatus st = on_server (\<lambda>s. s\<lparr>Status := st\<rparr>)"

definition SetIsEdgeNode :: "bool \<Rightarrow> ServicePusher \<Rightarrow> ServicePusher" where
  "SetIsEdgeNode b = on_server (\<lambda>s. s\<lparr>IsEdgeNode := b\<rparr>)"

definition SetPartitionList :: "int64 list \<Rightarrow> ServicePusher \<Rightarrow> ServicePusher" where
  "SetPartitionList ps = on_server (\<lambda>s. foldl (\<lambda>s p. s\<lparr>PartitionList := PartitionList s @ [p]\<rparr>) s ps)"

section \<open>One loop per task\<close>

text \<open>A running task: its one goroutine runs under its own context, with its own period.\<close>

definition timer_ok :: "Timer \<Rightarrow> bool" where
  "timer_ok t \<longleftrightarrow> tm_loops t = [(tm_ctx t, tm_period t)] \<and> tm_started t \<and> tm_ctx t < tm_next t \<and> 0 < sint (tm_period t)"

lemma timer_new_ok: "timer_new p = Inr t \<Longrightarrow> timer_ok t \<and> tm_period t = p"
  by (auto simp: timer_new_def timer_start_def timer_ok_def Let_def split: if_splits)

lemma timer_restart_ok: "timer_ok t \<Longrightarrow> \<exists>t'. timer_restart t = Inr t' \<and> timer_ok t' \<and> tm_period t' = tm_period t"
  by (auto simp: timer_restart_def timer_start_def timer_stop_def new_context_def timer_ok_def Let_def)

lemma timer_reload_ok: "timer_ok t \<Longrightarrow> timer_reload p t = Inr t' \<Longrightarrow> timer_ok t' \<and> tm_period t' = p"
  by (auto simp: timer_reload_def timer_start_def timer_stop_def new_context_def timer_ok_def Let_def split: if_splits)

text \<open>The contract of a periodic task.\<close>

datatype task_op = OpRestart | OpReload int64

fun run_ops :: "('t \<Rightarrow> 't go) \<Rightarrow> (int64 \<Rightarrow> 't \<Rightarrow> 't go) \<Rightarrow> task_op list \<Rightarrow> 't \<Rightarrow> 't go" where
  "run_ops restart reload [] x = Inr x"
| "run_ops restart reload (OpRestart # ops) x = go_bind (restart x) (run_ops restart reload ops)"
| "run_ops restart reload (OpReload p # ops) x = go_bind (reload p x) (run_ops restart reload ops)"

fun final_period :: "task_op list \<Rightarrow> int64 \<Rightarrow> int64" where
  "final_period [] p = p"
| "final_period (OpRestart # ops) p = final_period ops p"
| "final_period (OpReload q # ops) p = final_period ops q"

locale periodic_task =
  fixes timer :: "'t \<Rightarrow> Timer"
    and restart :: "'t \<Rightarrow> 't go"
    and reload :: "int64 \<Rightarrow> 't \<Rightarrow> 't go"
  assumes restart_timer: "restart x = Inr x' \<Longrightarrow> timer_restart (timer x) = Inr (timer x')"
    and restart_panic: "restart x = Inl e \<Longrightarrow> timer_restart (timer x) = Inl e"
    and reload_timer: "reload p x = Inr x' \<Longrightarrow> timer_reload p (timer x) = Inr (timer x')"
begin

lemma run_ok:
  "timer_ok (timer x) \<Longrightarrow> run_ops restart reload ops x = Inr x' \<Longrightarrow>
     timer_ok (timer x') \<and> tm_period (timer x') = final_period ops (tm_period (timer x))"
proof (induction ops arbitrary: x)
  case (Cons op ops)
  show ?case
  proof (cases op)
    case OpRestart
    with Cons.prems obtain y where y: "restart x = Inr y" "run_ops restart reload ops y = Inr x'" by (auto simp: go_bind_eq_Inr)
    with Cons.prems(1) timer_restart_ok restart_timer have "timer_ok (timer y)" "tm_period (timer y) = tm_period (timer x)"
      by fastforce+
    with Cons.IH y OpRestart show ?thesis by simp
  next
    case (OpReload p)
    with Cons.prems obtain y where y: "reload p x = Inr y" "run_ops restart reload ops y = Inr x'" by (auto simp: go_bind_eq_Inr)
    with Cons.prems(1) timer_reload_ok reload_timer have "timer_ok (timer y)" "tm_period (timer y) = p"
      by blast+
    with Cons.IH y OpReload show ?thesis by simp
  qed
qed simp

lemma restart_total: "timer_ok (timer x) \<Longrightarrow> \<exists>x'. restart x = Inr x'"
  using timer_restart_ok restart_panic by (metis Inl_Inr_False old.sum.exhaust)

end

interpretation puller: periodic_task sp_timer Puller_Restart Puller_Reload
  by unfold_locales
    (auto simp: Puller_Restart_def Puller_Reload_def go_bind_def split: sum.splits)

interpretation pusher: periodic_task sh_timer Pusher_Restart Pusher_Reload
  by unfold_locales
    (auto simp: Pusher_Restart_def Pusher_Reload_def go_bind_def split: sum.splits)

section \<open>Properties of the periodic tasks\<close>

text \<open>C26. A puller runs exactly one goroutine: after any sequence of restarts and reloads that does not
  panic, its one loop runs under the context it can cancel, with the period it was last given.\<close>

theorem puller_one_loop:
  assumes "NewServicePuller name config kind = Inr sp"
    and "run_ops Puller_Restart Puller_Reload ops sp = Inr sp'"
  shows "tm_loops (sp_timer sp') =
    [(tm_ctx (sp_timer sp'), final_period ops (calculateInterval (PullInterval config)))]"
proof -
  obtain t where t: "timer_new (calculateInterval (PullInterval config)) = Inr t" "sp_timer sp = t"
    using assms(1) by (auto simp: NewServicePuller_def go_bind_eq_Inr)
  then have "timer_ok (sp_timer sp)" "tm_period (sp_timer sp) = calculateInterval (PullInterval config)"
    using timer_new_ok by blast+
  with puller.run_ok [OF _ assms(2)] show ?thesis by (simp add: timer_ok_def)
qed

lemma calculateInterval_3: "calculateInterval 3 = 2000000000"
  by (simp add: calculateInterval_def)

theorem puller_one_loop_witness:
  "\<exists>sp sp'. NewServicePuller ''svc'' DefaultServiceRouterConfig ''CONFIG_PULLER'' = Inr sp \<and>
     run_ops Puller_Restart Puller_Reload [OpRestart, OpReload 7, OpRestart] sp = Inr sp' \<and>
     tm_loops (sp_timer sp') = [(tm_ctx (sp_timer sp'), 7)]"
proof -
  obtain sp where sp: "NewServicePuller ''svc'' DefaultServiceRouterConfig ''CONFIG_PULLER'' = Inr sp"
    by (simp add: NewServicePuller_def timer_new_def timer_start_def DefaultServiceRouterConfig_def
        calculateInterval_3 Let_def)
  moreover obtain sp' where "run_ops Puller_Restart Puller_Reload [OpRestart, OpReload 7, OpRestart] sp = Inr sp'"
    using sp by (auto simp: NewServicePuller_def timer_new_def timer_start_def DefaultServiceRouterConfig_def
        calculateInterval_3 Let_def Puller_Restart_def Puller_Reload_def timer_restart_def timer_reload_def
        timer_stop_def new_context_def)
  ultimately show ?thesis using puller_one_loop by fastforce
qed

text \<open>A heartbeat runs exactly one goroutine, like a puller.\<close>

theorem pusher_one_loop:
  assumes "NewServicePusher server config = Inr sh"
    and "run_ops Pusher_Restart Pusher_Reload ops sh = Inr sh'"
  shows "tm_loops (sh_timer sh') =
    [(tm_ctx (sh_timer sh'), final_period ops (calculateTtl (TtlInMs config)))]"
proof -
  obtain t where t: "timer_new (calculateTtl (TtlInMs config)) = Inr t" "sh_timer sh = t"
    using assms(1) by (auto simp: NewServicePusher_def go_bind_eq_Inr)
  then have "timer_ok (sh_timer sh)" "tm_period (sh_timer sh) = calculateTtl (TtlInMs config)"
    using timer_new_ok by blast+
  with pusher.run_ok [OF _ assms(2)] show ?thesis by (simp add: timer_ok_def)
qed

theorem pusher_one_loop_witness:
  "\<exists>sh. NewServicePusher empty_server DefaultServiceRouterConfig = Inr sh \<and>
     tm_loops (sh_timer sh) = [(tm_ctx (sh_timer sh), 200000000000)]"
proof -
  obtain sh where sh: "NewServicePusher empty_server DefaultServiceRouterConfig = Inr sh"
    by (simp add: NewServicePusher_def timer_new_def timer_start_def DefaultServiceRouterConfig_def
        calculateTtl_def Let_def)
  then show ?thesis using pusher_one_loop [OF sh, of "[]" sh]
    by (simp add: DefaultServiceRouterConfig_def calculateTtl_def)
qed

lemma unat_of_nat32: "n < 4294967296 \<Longrightarrow> unat (of_nat n :: uint32) = n"
  by (simp add: unat_of_nat)

lemma ucast_of_unat: "(ucast (w :: uint32) :: uint64) = of_nat (unat w)"
  by (rule word_unat_eq_iff [THEN iffD2])
    (use unsigned_less [of w, where ?'a = nat] in \<open>simp add: unsigned_ucast_eq unat_of_nat take_bit_nat_eq_self_iff\<close>)

lemma scaled_period:
  fixes i :: uint32
  assumes "k * unat i < 4294967296" and "k < 4294967296"
  shows "(ucast (of_nat k * i div 3) :: int64) * 1000000 = of_nat (k * unat i div 3 * 1000000)"
proof -
  have "of_nat k * i = (of_nat (k * unat i) :: uint32)" by simp
  then have "unat (of_nat k * i) = k * unat i" using assms(1) by (simp only: unat_of_nat32)
  then have "unat (of_nat k * i div 3) = k * unat i div 3" by (simp add: unat_div)
  then show ?thesis by (simp add: ucast_of_unat)
qed

lemma sint_of_nat64: "n < 9223372036854775808 \<Longrightarrow> sint (of_nat n :: int64) = int n"
  using sint_word_of_int_64 [of "int n"] by simp

text \<open>The pull period is two thirds of the configured seconds, in nanoseconds, as long as the product fits
  32 bits.\<close>

theorem calculateInterval_two_thirds:
  assumes "unat i \<le> 2147483"
  shows "sint (calculateInterval i) = int (2000 * unat i div 3) * 1000000"
proof -
  have "calculateInterval i = of_nat (2000 * unat i div 3 * 1000000)"
    using scaled_period [of 2000 i] assms by (simp add: calculateInterval_def mult.commute mult.left_commute)
  moreover have "2000 * unat i div 3 * 1000000 < 9223372036854775808" using assms by simp
  ultimately show ?thesis using sint_of_nat64 by (metis of_nat_mult of_nat_numeral)
qed

theorem calculateInterval_two_thirds_witness: "sint (calculateInterval 3) = 2000000000"
  using calculateInterval_two_thirds [of 3] by simp

lemma calculateTtl_two_thirds:
  assumes "unat ttl < 2147483648"
  shows "sint (calculateTtl ttl) = int (2 * unat ttl div 3) * 1000000"
proof -
  have "calculateTtl ttl = of_nat (2 * unat ttl div 3 * 1000000)"
    using scaled_period [of 2 ttl] assms by (simp add: calculateTtl_def)
  moreover have "2 * unat ttl div 3 * 1000000 < 9223372036854775808" using assms by simp
  ultimately show ?thesis using sint_of_nat64 by (metis of_nat_mult of_nat_numeral)
qed

text \<open>A pull interval of 0, which a service without router configuration has, makes the puller panic when
  it is created; one of 2147484 seconds overflows to a period of 234 milliseconds.\<close>

theorem NewServicePuller_zero_panics:
  "NewServicePuller name (config\<lparr>PullInterval := 0\<rparr>) kind = Inl NonPositiveTicker \<and>
   calculateInterval 2147484 = 234000000"
  by (simp add: NewServicePuller_def timer_new_def timer_start_def calculateInterval_def Let_def)

text \<open>Setting the partitions of a heartbeat adds to the partitions set before, unlike every other
  setter, so that setting the same list twice announces each partition twice.\<close>

theorem SetPartitionList_accumulates:
  "PartitionList (sh_server (SetPartitionList ps (SetPartitionList qs sh))) = PartitionList (sh_server sh) @ qs @ ps"
proof -
  have "PartitionList (foldl (\<lambda>s p. s\<lparr>PartitionList := PartitionList s @ [p]\<rparr>) s xs) = PartitionList s @ xs" for s :: Server and xs
    by (induction xs arbitrary: s) simp_all
  then show ?thesis by (simp add: SetPartitionList_def on_server_def)
qed

end
