(* ===== verification/Laser_Router.thy ===== *)
theory Laser_Router
  imports Laser_Balance Laser_RouterDb Laser_Registry Laser_Timers
begin

text \<open>
  The router of \<^verbatim>\<open>src/sdk/go/common/service_router/router.go\<close>, which composes the registry, the routing
  table, the periodic tasks and the balancers.

  \<^item> What the environment answers is a record \<open>Env\<close>: the hash, the clock, the orders of map iteration, the
    key-value store and the decoders.
  \<^item> Pulling a service notifies subscribers, which may in turn restart pullers, which pull again. This
    synchronous cascade is a list of work items, worked off with fuel by \<open>run_work\<close>; \<open>NoFuel\<close> is not an
    outcome of the code. A pull that a restarted puller makes is done after the handler that restarted it.
  \<^item> \<open>Stuck\<close> is a call that never returns: a balancer's endless loop, or the read lock of \<open>ConfigNotify\<close>
    asked for by a cascade that runs under the write lock (the flag \<open>locked\<close>).
  \<^item> The counters of the metrics package are numbers. A balancer supplied by the caller is the argument
    \<open>user_select\<close>.
\<close>

section \<open>Outcomes\<close>

datatype 'a run = Ran 'a | Panicked panic | Stuck | NoFuel

definition run_bind :: "'a run \<Rightarrow> ('a \<Rightarrow> 'b run) \<Rightarrow> 'b run" where
  "run_bind m f = (case m of Ran x \<Rightarrow> f x | Panicked p \<Rightarrow> Panicked p | Stuck \<Rightarrow> Stuck | NoFuel \<Rightarrow> NoFuel)"

lemma run_bind_simps [simp]:
  "run_bind (Ran x) f = f x" "run_bind (Panicked p) f = Panicked p" "run_bind Stuck f = Stuck"
  "run_bind NoFuel f = NoFuel"
  by (simp_all add: run_bind_def)

lemma run_bind_eq_Ran: "run_bind m f = Ran y \<longleftrightarrow> (\<exists>x. m = Ran x \<and> f x = Ran y)"
  by (cases m) simp_all

definition of_go :: "'a go \<Rightarrow> 'a run" where
  "of_go m = (case m of Inl p \<Rightarrow> Panicked p | Inr x \<Rightarrow> Ran x)"

lemma of_go_simps [simp]: "of_go (Inl p) = Panicked p" "of_go (Inr x) = Ran x"
  by (simp_all add: of_go_def)

section \<open>Balancers of the router\<close>

datatype builtin =
    LbRandom
  | LbRoundrobin uint64
  | LbLocalFirst LocalFirst
  | LbIpRangeFirst LocalFirst
  | LbStaticWeight
  | LbConfigurableWeight CurrentState

fun relabel :: "('s \<Rightarrow> 't) \<Rightarrow> 's outcome \<Rightarrow> 't outcome" where
  "relabel f None = None"
| "relabel f (Some (Inl p)) = Some (Inl p)"
| "relabel f (Some (Inr (s, st))) = Some (Inr (s, f st))"

fun builtin_Select :: "nat \<Rightarrow> builtin \<Rightarrow> ServerList \<Rightarrow> builtin outcome" where
  "builtin_Select r LbRandom xs = relabel (\<lambda>u. LbRandom) (Random_Select r () xs)"
| "builtin_Select r (LbRoundrobin n) xs = relabel LbRoundrobin (Roundrobin_Select r n xs)"
| "builtin_Select r (LbLocalFirst st) xs = relabel LbLocalFirst (LocalFirst_Select r st xs)"
| "builtin_Select r (LbIpRangeFirst st) xs = relabel LbIpRangeFirst (IpRangeFirst_Select r st xs)"
| "builtin_Select r LbStaticWeight xs = relabel (\<lambda>u. LbStaticWeight) (StaticWeight_Select r () xs)"
| "builtin_Select r (LbConfigurableWeight st) xs = relabel LbConfigurableWeight (ConfigurableWeight_Select r st xs)"

text \<open>A balancer of the caller, with the name of its type.\<close>

record UserBalance =
  ub_name :: string
  ub_id :: nat

datatype LoadBalance = Builtin builtin | UserDefined UserBalance

type_synonym user_select = "nat \<Rightarrow> UserBalance \<Rightarrow> ServerList \<Rightarrow> Server option"

fun Lb_Select :: "user_select \<Rightarrow> nat \<Rightarrow> LoadBalance \<Rightarrow> ServerList \<Rightarrow> LoadBalance outcome" where
  "Lb_Select user_select r (Builtin b) xs = relabel Builtin (builtin_Select r b xs)"
| "Lb_Select user_select r (UserDefined u) xs = Some (Inr (user_select r u xs, UserDefined u))"

section \<open>Options\<close>

record ClientOption =
  co_ServiceName :: string
  co_ShardId :: int64
  co_ShardType :: string
  co_Protocol :: string
  co_Loadbalance :: string
  co_TargetServerAddress :: ServerAddress
  co_UserBalance :: "UserBalance option"
  co_LocalFirstConfig :: BalanceLocalFirstConfig
  co_PartitionHash :: int64
  co_RouteToEdgeNode :: bool
  co_Idc :: string
  co_Dc :: string

definition DefaultBalanceLocalFirstConfig :: "string \<Rightarrow> BalanceLocalFirstConfig" where
  "DefaultBalanceLocalFirstConfig ip = \<lparr>LocalIp = ip, DiffRange = 256\<rparr>"

definition DefaultClientOption :: "string \<Rightarrow> ClientOption" where
  "DefaultClientOption ip = \<lparr>co_ServiceName = [], co_ShardId = UINT32MAX, co_ShardType = ShardType_LEADER,
     co_Protocol = [], co_Loadbalance = LoadBalanceMethod_LOCALFIRST,
     co_TargetServerAddress = \<lparr>AddrHost = [], AddrPort = 0\<rparr>, co_UserBalance = None,
     co_LocalFirstConfig = DefaultBalanceLocalFirstConfig ip, co_PartitionHash = 0, co_RouteToEdgeNode = False,
     co_Idc = [], co_Dc = DEFAULT_DC\<rparr>"

definition ClientOptionFactory :: "string \<Rightarrow> string \<Rightarrow> string \<Rightarrow> ClientOption" where
  "ClientOptionFactory ip serviceName protocol =
     (DefaultClientOption ip)\<lparr>co_ServiceName := serviceName, co_Protocol := protocol\<rparr>"

section \<open>State and environment\<close>

datatype subscriber = SubRouterDb | SubRouter | SubOther nat

record Router =
  r_registry :: "(subscriber, subscriber) ConsulRegistry"
  r_routerDb :: RouterDb
  r_counters :: "string \<Rightarrow> nat"
  r_configPullers :: "(string, ServicePuller) gomap"
  r_discoverPullers :: "(string, ServicePuller) gomap"
  r_servicePushers :: "(string, ServicePusher) gomap"
  r_balancers :: "uint64 \<rightharpoonup> LoadBalance"

record Env =
  e_city :: cityhash
  e_now :: uint64
  e_order1 :: "(int64 \<times> ServerList) list \<Rightarrow> (int64 \<times> ServerList) list"
  e_order2 :: "(int64 \<times> ServerList) list \<Rightarrow> (int64 \<times> ServerList) list"
  e_kv_list :: "string \<Rightarrow> (kv_pairs \<times> uint64) option"
  e_kv_get :: "string \<Rightarrow> string option"
  e_decodeServer :: "string \<Rightarrow> Server"
  e_decodeRouter :: "string \<Rightarrow> ServiceRouterConfig"

definition new_router :: Router where
  "new_router = \<lparr>r_registry = NewConsulRegistry, r_routerDb = GetRouterDb, r_counters = (\<lambda>k. 0),
     r_configPullers = [], r_discoverPullers = [], r_servicePushers = [], r_balancers = Map.empty\<rparr>"

section \<open>The cascade of notifications\<close>

datatype work =
    PullConfig string
  | PullServers string
  | NotifyServers subscriber string ServerList
  | NotifyConfig subscriber string ServiceConfig

definition reload_in ::
  "int64 \<Rightarrow> string \<Rightarrow> (string, ServicePuller) gomap \<Rightarrow> ((string, ServicePuller) gomap \<times> bool) run" where
  "reload_in interval serviceName pullers =
     (case map_of pullers serviceName of
        Some sp \<Rightarrow> if tm_period (sp_timer sp) \<noteq> interval
                   then run_bind (of_go (Puller_Reload interval sp))
                          (\<lambda>sp'. Ran (AList.update serviceName sp' pullers, True))
                   else Ran (pullers, False)
      | None \<Rightarrow> Ran (pullers, False))"

definition reload_pusher ::
  "int64 \<Rightarrow> string \<Rightarrow> (string, ServicePusher) gomap \<Rightarrow> (string, ServicePusher) gomap run" where
  "reload_pusher ttl serviceName pushers =
     (case map_of pushers serviceName of
        Some sh \<Rightarrow> if tm_period (sh_timer sh) \<noteq> ttl
                   then run_bind (of_go (Pusher_Reload ttl sh)) (\<lambda>sh'. Ran (AList.update serviceName sh' pushers))
                   else Ran pushers
      | None \<Rightarrow> Ran pushers)"

definition Router_ConfigNotify :: "bool \<Rightarrow> string \<Rightarrow> ServiceConfig \<Rightarrow> Router \<Rightarrow> (Router \<times> work list) run" where
  "Router_ConfigNotify locked serviceName serviceConfig router =
     (if serviceName = [] then Ran (router, [])
      else
        let interval = calculateInterval (PullInterval (RouterPart serviceConfig));
            ttl = calculateTtl (TtlInMs (RouterPart serviceConfig))
        in run_bind
          (if 0 < sint interval then
             if locked then Stuck
             else run_bind (reload_in interval serviceName (r_configPullers router)) (\<lambda>(cps, c).
                  run_bind (reload_in interval serviceName (r_discoverPullers router)) (\<lambda>(dps, d).
                    Ran (router\<lparr>r_configPullers := cps, r_discoverPullers := dps\<rparr>,
                         (if c then [PullConfig serviceName] else []) @ (if d then [PullServers serviceName] else []))))
           else Ran (router, []))
          (\<lambda>(router, ws).
             if 0 < sint ttl then
               run_bind (reload_pusher ttl serviceName (r_servicePushers router))
                 (\<lambda>pushers. Ran (router\<lparr>r_servicePushers := pushers\<rparr>, ws))
             else Ran (router, ws)))"

fun do_work :: "Env \<Rightarrow> bool \<Rightarrow> work \<Rightarrow> Router \<Rightarrow> (Router \<times> work list) run" where
  "do_work env locked (PullConfig name) router =
     (case GetConfig (e_decodeRouter env) (e_kv_get env) (e_kv_list env) name (r_registry router) of
        (notes, registry) \<Rightarrow>
          Ran (router\<lparr>r_registry := registry\<rparr>, map (\<lambda>(sub, n, c). NotifyConfig sub n c) notes))"
| "do_work env locked (PullServers name) router =
     (case Discover (e_decodeServer env) (e_kv_list env) name (r_registry router) of
        (notes, registry) \<Rightarrow>
          Ran (router\<lparr>r_registry := registry\<rparr>, map (\<lambda>(sub, n, xs). NotifyServers sub n xs) notes))"
| "do_work env locked (NotifyServers sub name xs) router =
     (if sub = SubRouterDb
      then Ran (router\<lparr>r_routerDb :=
             UpdateServers (e_city env) (e_now env) (e_order1 env) (e_order2 env) name xs (r_routerDb router)\<rparr>, [])
      else Ran (router, []))"
| "do_work env locked (NotifyConfig sub name c) router =
     (case sub of
        SubRouterDb \<Rightarrow> Ran (router\<lparr>r_routerDb := UpdateConfig name c (r_routerDb router)\<rparr>, [])
      | SubRouter \<Rightarrow> Router_ConfigNotify locked name c router
      | SubOther n \<Rightarrow> Ran (router, []))"

fun run_work :: "nat \<Rightarrow> Env \<Rightarrow> bool \<Rightarrow> work list \<Rightarrow> Router \<Rightarrow> Router run" where
  "run_work fuel env locked [] router = Ran router"
| "run_work 0 env locked (w # ws) router = NoFuel"
| "run_work (Suc fuel) env locked (w # ws) router =
     run_bind (do_work env locked w router) (\<lambda>(router', ws'). run_work fuel env locked (ws' @ ws) router')"

section \<open>Pullers and pushers on demand\<close>

text \<open>The lambda is the puller's own first pull, which \<open>Start\<close> makes before the ticker.\<close>

definition GetOrCreateConfigPuller :: "nat \<Rightarrow> Env \<Rightarrow> string \<Rightarrow> Router \<Rightarrow> Router run" where
  "GetOrCreateConfigPuller fuel env serviceName router =
     (case map_of (r_configPullers router) serviceName of
        Some puller \<Rightarrow> Ran router
      | None \<Rightarrow>
          let router1 = router\<lparr>r_registry := SubscribeConfig serviceName SubRouterDb (r_registry router)\<rparr> in
          run_bind (run_work fuel env True [PullConfig serviceName] router1) (\<lambda>router2.
            let routerConfig = GetServiceRouterConfig (r_routerDb router2) serviceName in
            run_bind (run_work fuel env True [PullConfig serviceName] router2) (\<lambda>router3.
              run_bind (of_go (NewServicePuller serviceName routerConfig ServicePullerType_Config)) (\<lambda>puller.
                Ran (router3\<lparr>r_configPullers := AList.update serviceName puller (r_configPullers router3),
                             r_registry := SubscribeConfig serviceName SubRouter (r_registry router3)\<rparr>)))))"

definition Router_GetServiceRouterConfig :: "nat \<Rightarrow> Env \<Rightarrow> string \<Rightarrow> Router \<Rightarrow> (ServiceRouterConfig \<times> Router) run" where
  "Router_GetServiceRouterConfig fuel env serviceName router =
     run_bind (GetOrCreateConfigPuller fuel env serviceName router)
       (\<lambda>router. Ran (GetServiceRouterConfig (r_routerDb router) serviceName, router))"


definition GetOrCreateDiscoverPuller :: "nat \<Rightarrow> Env \<Rightarrow> string \<Rightarrow> Router \<Rightarrow> Router run" where
  "GetOrCreateDiscoverPuller fuel env serviceName router =
     (case map_of (r_discoverPullers router) serviceName of
        Some puller \<Rightarrow> Ran router
      | None \<Rightarrow>
          let router1 = router\<lparr>r_registry := SubscribeService serviceName SubRouterDb (r_registry router)\<rparr> in
          run_bind (Router_GetServiceRouterConfig fuel env serviceName router1) (\<lambda>(routerConfig, router2).
            run_bind (run_work fuel env False [PullServers serviceName] router2) (\<lambda>router3.
              run_bind (of_go (NewServicePuller serviceName routerConfig ServicePullerType_Server)) (\<lambda>puller.
                Ran (router3\<lparr>r_discoverPullers := AList.update serviceName puller (r_discoverPullers router3)\<rparr>)))))"

definition getServiceKey :: "Server \<Rightarrow> string" where
  "getServiceKey server = ServiceName server @ ''::'' @ Host server @ '':'' @ Itoa (uint (Port server))"


section \<open>Balancers on demand\<close>

definition balanceId :: "cityhash \<Rightarrow> ClientOption \<Rightarrow> uint64" where
  "balanceId city option =
     (let h = hash_str city (co_Loadbalance option) 0;
          h = hash_str city (co_ServiceName option) h;
          h = hash_str city (co_Protocol option) h
      in if co_Loadbalance option = LoadBalanceMethod_USER_DEFINED then
           (case co_UserBalance option of Some u \<Rightarrow> hash_str city (ub_name u) h | None \<Rightarrow> h)
         else h)"

definition new_balancer :: "ClientOption \<Rightarrow> LoadBalance" where
  "new_balancer option =
     (let method = (if co_Loadbalance option = LoadBalanceMethod_USER_DEFINED \<and> co_UserBalance option = None
                    then LoadBalanceMethod_RANDOM else co_Loadbalance option) in
      if method = LoadBalanceMethod_RANDOM then Builtin LbRandom
      else if method = LoadBalanceMethod_ROUNDROBIN then Builtin (LbRoundrobin 0)
      else if method = LoadBalanceMethod_LOCALFIRST then Builtin (LbLocalFirst (NewLoadBalanceLocalFirst (co_LocalFirstConfig option)))
      else if method = LoadBalanceMethod_IPRANGEFIRST then Builtin (LbIpRangeFirst (NewLoadBalanceLocalFirst (co_LocalFirstConfig option)))
      else if method = LoadBalanceMethod_STATIC_WEIGHT then Builtin LbStaticWeight
      else if method = LoadBalanceMethod_CONFIGURABLE_WEIGHT then Builtin (LbConfigurableWeight NewLoadBalanceConfigurableWeight)
      else if method = LoadBalanceMethod_USER_DEFINED then UserDefined (the (co_UserBalance option))
      else Builtin LbRandom)"

definition GetOrCreateBalancer :: "cityhash \<Rightarrow> ClientOption \<Rightarrow> Router \<Rightarrow> LoadBalance \<times> Router" where
  "GetOrCreateBalancer city option router =
     (case r_balancers router (balanceId city option) of
        Some b \<Rightarrow> (b, router)
      | None \<Rightarrow> let b = new_balancer option
                in (b, router\<lparr>r_balancers := (r_balancers router)(balanceId city option \<mapsto> b)\<rparr>))"

section \<open>Counters\<close>

definition counter_key :: "Server option \<Rightarrow> string" where
  "counter_key server =
     (case server of None \<Rightarrow> ''none'' | Some s \<Rightarrow> Host s @ '':'' @ Itoa (uint (Port s)))"

definition count_selection :: "Server option \<Rightarrow> Router \<Rightarrow> Router" where
  "count_selection server router =
     router\<lparr>r_counters := (r_counters router)(counter_key server := r_counters router (counter_key server) + 1)\<rparr>"

section \<open>Discovery\<close>

text \<open>A call of \<open>Select\<close> on the balancer stored under an id, which updates it in place.\<close>

definition select_with ::
  "user_select \<Rightarrow> nat \<Rightarrow> uint64 \<Rightarrow> LoadBalance \<Rightarrow> ServerList \<Rightarrow> Router \<Rightarrow> (Server option \<times> Router) run" where
  "select_with user_select r bid b xs router =
     (case Lb_Select user_select r b xs of
        None \<Rightarrow> Stuck
      | Some (Inl p) \<Rightarrow> Panicked p
      | Some (Inr (res, b')) \<Rightarrow> Ran (res, router\<lparr>r_balancers := (r_balancers router)(bid \<mapsto> b')\<rparr>))"

definition with_default_dc :: "ClientOption \<Rightarrow> ClientOption" where
  "with_default_dc option = (if co_Dc option = [] then option\<lparr>co_Dc := DEFAULT_DC\<rparr> else option)"

definition discover_list :: "cityhash \<Rightarrow> RouterDb \<Rightarrow> ClientOption \<Rightarrow> ServerList option" where
  "discover_list city db option =
     (let routeId = (if co_RouteToEdgeNode option then co_PartitionHash option else co_ShardId option) in
      case SelectServers city db (co_ServiceName option) (co_Protocol option) routeId (co_ShardType option) (co_Dc option) of
        Some xs \<Rightarrow> Some xs
      | None \<Rightarrow> if co_RouteToEdgeNode option
                then SelectServers city db (co_ServiceName option) (co_Protocol option) (co_ShardId option)
                       (co_ShardType option) (co_Dc option)
                else None)"

definition Router_Discover ::
  "nat \<Rightarrow> Env \<Rightarrow> user_select \<Rightarrow> nat \<Rightarrow> ClientOption \<Rightarrow> Router \<Rightarrow> (Server option \<times> Router) run" where
  "Router_Discover fuel env user_select r option0 router0 =
     run_bind (GetOrCreateDiscoverPuller fuel env (co_ServiceName option0) router0) (\<lambda>router.
       let option = with_default_dc option0 in
       case discover_list (e_city env) (r_routerDb router) option of
         None \<Rightarrow> Ran (None, count_selection None router)
       | Some serverList \<Rightarrow>
           (case GetOrCreateBalancer (e_city env) option router of
              (b, router1) \<Rightarrow>
                run_bind (select_with user_select r (balanceId (e_city env) option) b serverList router1)
                  (\<lambda>(res, router2). Ran (res, count_selection res router2))))"

fun getServerListHash :: "cityhash \<Rightarrow> ServerList \<Rightarrow> uint64 \<Rightarrow> uint64" where
  "getServerListHash city [] result = result"
| "getServerListHash city (server # rest) result =
     getServerListHash city rest (hash_str city (Host server @ Itoa (uint (Port server))) result)"

text \<open>The loop of \<open>BatchDiscover\<close>, with the maps \<open>selectServers\<close> and \<open>result\<close>.\<close>

fun batch_loop ::
  "cityhash \<Rightarrow> user_select \<Rightarrow> (nat \<Rightarrow> nat) \<Rightarrow> uint64 \<Rightarrow> (int64 \<rightharpoonup> ServerList) \<Rightarrow> int64 list \<Rightarrow>
   (uint64 \<rightharpoonup> Server option) \<Rightarrow> (int64 \<rightharpoonup> Server option) \<Rightarrow> LoadBalance \<Rightarrow> Router \<Rightarrow>
   ((int64 \<rightharpoonup> Server option) \<times> Router) run" where
  "batch_loop city user_select r bid slists [] selected result b router = Ran (result, router)"
| "batch_loop city user_select r bid slists (routeId # rest) selected result b router =
     (case slists routeId of
        None \<Rightarrow> batch_loop city user_select r bid slists rest selected (result(routeId \<mapsto> None)) b router
      | Some serverList \<Rightarrow>
          let h = getServerListHash city serverList 0 in
          (case selected h of
             Some s \<Rightarrow> batch_loop city user_select r bid slists rest selected (result(routeId \<mapsto> s)) b router
           | None \<Rightarrow>
               run_bind (select_with user_select (r (length rest)) bid b serverList router) (\<lambda>(s, router').
                 batch_loop city user_select r bid slists rest (selected(h \<mapsto> s)) (result(routeId \<mapsto> s))
                   (the (r_balancers router' bid)) router')))"

definition BatchDiscover ::
  "nat \<Rightarrow> Env \<Rightarrow> user_select \<Rightarrow> (nat \<Rightarrow> nat) \<Rightarrow> ClientOption \<Rightarrow> int64 list \<Rightarrow> Router \<Rightarrow>
   ((int64 \<rightharpoonup> Server option) \<times> Router) run" where
  "BatchDiscover fuel env user_select r option0 routerIds router0 =
     run_bind (GetOrCreateDiscoverPuller fuel env (co_ServiceName option0) router0) (\<lambda>router.
       let option = with_default_dc option0;
           slists = BatchSelectServers (e_city env) (r_routerDb router) (co_ServiceName option) (co_Protocol option)
                     routerIds (co_ShardType option) (co_Dc option)
       in case GetOrCreateBalancer (e_city env) option router of
            (b, router1) \<Rightarrow>
              batch_loop (e_city env) user_select r (balanceId (e_city env) option) slists routerIds
                Map.empty Map.empty b router1)"


section \<open>Administration over HTTP\<close>




text \<open>The handler restarts the config pullers under \<open>configLock\<close>, then the discover pullers and the pushers;
  \<open>order\<close> is the order of the map.\<close>

fun restart_config_pullers ::
  "nat \<Rightarrow> Env \<Rightarrow> string list \<Rightarrow> Router \<Rightarrow> Router run" where
  "restart_config_pullers fuel env [] router = Ran router"
| "restart_config_pullers fuel env (k # ks) router =
     (case map_of (r_configPullers router) k of
        None \<Rightarrow> restart_config_pullers fuel env ks router
      | Some sp \<Rightarrow>
          run_bind (run_work fuel env True [PullConfig (sp_serviceName sp)] router) (\<lambda>router1.
            run_bind (of_go (Puller_Restart sp)) (\<lambda>sp'.
              restart_config_pullers fuel env ks
                (router1\<lparr>r_configPullers := AList.update k sp' (r_configPullers router1)\<rparr>))))"

fun restart_discover_pullers ::
  "nat \<Rightarrow> Env \<Rightarrow> string list \<Rightarrow> Router \<Rightarrow> Router run" where
  "restart_discover_pullers fuel env [] router = Ran router"
| "restart_discover_pullers fuel env (k # ks) router =
     (case map_of (r_discoverPullers router) k of
        None \<Rightarrow> restart_discover_pullers fuel env ks router
      | Some sp \<Rightarrow>
          run_bind (run_work fuel env False [PullServers (sp_serviceName sp)] router) (\<lambda>router1.
            run_bind (of_go (Puller_Restart sp)) (\<lambda>sp'.
              restart_discover_pullers fuel env ks
                (router1\<lparr>r_discoverPullers := AList.update k sp' (r_discoverPullers router1)\<rparr>))))"

fun restart_pushers :: "string list \<Rightarrow> Router \<Rightarrow> Router run" where
  "restart_pushers [] router = Ran router"
| "restart_pushers (k # ks) router =
     (case map_of (r_servicePushers router) k of
        None \<Rightarrow> restart_pushers ks router
      | Some sh \<Rightarrow>
          run_bind (of_go (Pusher_Restart sh)) (\<lambda>sh'.
            restart_pushers ks (router\<lparr>r_servicePushers := AList.update k sh' (r_servicePushers router)\<rparr>)))"

definition RestartTimerHandler :: "nat \<Rightarrow> Env \<Rightarrow> (string list \<Rightarrow> string list) \<Rightarrow> Router \<Rightarrow> Router run" where
  "RestartTimerHandler fuel env order router =
     run_bind (restart_config_pullers fuel env (order (map fst (r_configPullers router))) router) (\<lambda>router1.
       run_bind (restart_discover_pullers fuel env (order (map fst (r_discoverPullers router1))) router1) (\<lambda>router2.
         restart_pushers (order (map fst (r_servicePushers router2))) router2))"

section \<open>The router's balancers meet the contract\<close>

lemma relabel_selects [simp]:
  "relabel f x = selects s st' \<longleftrightarrow> (\<exists>st. x = selects s st \<and> st' = f st)"
  by (cases "(f, x)" rule: relabel.cases) auto

lemma relabel_none [simp]:
  "relabel f x = selects_none st' \<longleftrightarrow> (\<exists>st. x = selects_none st \<and> st' = f st)"
  by (cases "(f, x)" rule: relabel.cases) auto

lemmas select_mems = random.select_mem roundrobin.select_mem local_first.select_mem ip_range.select_mem
  static_weight.select_mem configurable_weight.select_mem

lemmas select_Nils = random.select_Nil roundrobin.select_Nil local_first.select_Nil ip_range.select_Nil
  static_weight.select_Nil configurable_weight.select_Nil

interpretation router_balancer: balancer builtin_Select
proof
  show "builtin_Select r st [] = selects_none st" for r st
    by (cases st) (simp_all add: select_Nils)
  show "s \<in> set xs" if "builtin_Select r st xs = selects s st'" for r st xs s st'
    using that by (cases st) (auto dest: select_mems)
qed

definition always_selects :: "LoadBalance \<Rightarrow> bool" where
  "always_selects lb \<longleftrightarrow> (\<exists>b. lb = Builtin b \<and> (\<forall>st. b \<noteq> LbConfigurableWeight st))"

lemma always_selects_Select:
  assumes "always_selects lb" "xs \<noteq> []"
  shows "\<exists>s lb'. Lb_Select us r lb xs = selects s lb'"
proof -
  obtain b where b: "lb = Builtin b" "\<forall>st. b \<noteq> LbConfigurableWeight st"
    using assms(1) by (auto simp: always_selects_def)
  note tot = random.select_total [OF assms(2)] roundrobin.select_total [OF assms(2)]
    local_first.select_total [OF assms(2)] ip_range.select_total [OF assms(2)] static_weight.select_total [OF assms(2)]
  have "\<exists>s b'. builtin_Select r b xs = selects s b'"
  proof (cases b)
    case LbRandom then show ?thesis using tot(1) [of r "()"] by auto
  next
    case (LbRoundrobin n) then show ?thesis using tot(2) [of r n] by auto
  next
    case (LbLocalFirst st) then show ?thesis using tot(3) [of r st] by auto
  next
    case (LbIpRangeFirst st) then show ?thesis using tot(4) [of r st] by auto
  next
    case LbStaticWeight then show ?thesis using tot(5) [of r "()"] by auto
  qed (use b(2) in blast)
  with b(1) show ?thesis by simp
qed

definition user_ok :: "user_select \<Rightarrow> bool" where
  "user_ok us \<longleftrightarrow> (\<forall>r u xs s. us r u xs = Some s \<longrightarrow> s \<in> set xs)"

lemma Lb_Select_mem: "user_ok us \<Longrightarrow> Lb_Select us r lb xs = selects s lb' \<Longrightarrow> s \<in> set xs"
  by (cases lb) (auto simp: user_ok_def dest: router_balancer.select_mem)

lemma select_with_mem:
  "user_ok us \<Longrightarrow> select_with us r bid b xs router = Ran (Some s, router') \<Longrightarrow> s \<in> set xs"
  by (auto simp: select_with_def split: option.splits sum.splits intro: Lb_Select_mem)

section \<open>Properties of discovery\<close>

lemma Router_Discover_cases:
  assumes "Router_Discover fuel env us r option router = Ran (res, router')"
  obtains (none) router1 where
    "GetOrCreateDiscoverPuller fuel env (co_ServiceName option) router = Ran router1"
    "discover_list (e_city env) (r_routerDb router1) (with_default_dc option) = None"
    "res = None" "router' = count_selection None router1"
  | (some) router1 xs b router2 router3 where
    "GetOrCreateDiscoverPuller fuel env (co_ServiceName option) router = Ran router1"
    "discover_list (e_city env) (r_routerDb router1) (with_default_dc option) = Some xs"
    "GetOrCreateBalancer (e_city env) (with_default_dc option) router1 = (b, router2)"
    "select_with us r (balanceId (e_city env) (with_default_dc option)) b xs router2 = Ran (res, router3)"
    "router' = count_selection res router3"
proof -
  obtain router1 where r1: "GetOrCreateDiscoverPuller fuel env (co_ServiceName option) router = Ran router1"
    using assms by (auto simp: Router_Discover_def run_bind_eq_Ran)
  obtain b router2 where b: "GetOrCreateBalancer (e_city env) (with_default_dc option) router1 = (b, router2)" by fastforce
  show thesis
  proof (cases "discover_list (e_city env) (r_routerDb router1) (with_default_dc option)")
    case None
    with assms r1 show thesis by (intro none [OF r1 None]) (auto simp: Router_Discover_def Let_def)
  next
    case (Some xs)
    with assms r1 b obtain router3 where
      "select_with us r (balanceId (e_city env) (with_default_dc option)) b xs router2 = Ran (res, router3)"
      "router' = count_selection res router3"
      by (auto simp: Router_Discover_def Let_def run_bind_eq_Ran)
    with some [OF r1 Some b] show thesis by blast
  qed
qed

lemma select_with_frame:
  "select_with us r bid b xs router = Ran (res, router') \<Longrightarrow>
     r_routerDb router' = r_routerDb router \<and> r_counters router' = r_counters router"
  by (auto simp: select_with_def split: option.splits sum.splits)

lemma GetOrCreateBalancer_frame:
  "GetOrCreateBalancer city option router = (b, router') \<Longrightarrow>
     r_routerDb router' = r_routerDb router \<and> r_counters router' = r_counters router"
  by (auto simp: GetOrCreateBalancer_def Let_def split: option.splits)


text \<open>A route to an edge node whose partition has no servers is discovered like the shard itself.\<close>

theorem discover_list_edge_fallback:
  assumes "SelectServers city db (co_ServiceName option) (co_Protocol option) (co_PartitionHash option)
      (co_ShardType option) (co_Dc option) = None"
  shows "discover_list city db option = discover_list city db (option\<lparr>co_RouteToEdgeNode := False\<rparr>)"
  using assms by (simp add: discover_list_def Let_def split: option.split)

theorem discover_list_edge_fallback_witness:
  "discover_list char_city GetRouterDb ((DefaultClientOption ''10.0.0.1'')\<lparr>co_RouteToEdgeNode := True\<rparr>) =
   discover_list char_city GetRouterDb ((DefaultClientOption ''10.0.0.1'')\<lparr>co_RouteToEdgeNode := False\<rparr>)"
  using discover_list_edge_fallback [of char_city GetRouterDb "(DefaultClientOption ''10.0.0.1'')\<lparr>co_RouteToEdgeNode := True\<rparr>"]
  by (simp add: SelectServers_def GetRouterDb_def)

text \<open>Every discovery that returns counts one selection, under the address returned or under none.\<close>

theorem Router_Discover_counts:
  assumes "Router_Discover fuel env us r option router = Ran (res, router')"
  shows "\<exists>router1. GetOrCreateDiscoverPuller fuel env (co_ServiceName option) router = Ran router1 \<and>
    r_counters router' = (r_counters router1)(counter_key res := r_counters router1 (counter_key res) + 1)"
  using assms
proof (cases rule: Router_Discover_cases)
  case (some router1 xs b router2 router3)
  then show ?thesis
    using select_with_frame [OF some(4)] GetOrCreateBalancer_frame [OF some(3)]
    by (intro exI [of _ router1]) (simp add: count_selection_def)
qed (simp add: count_selection_def)

text \<open>Balancers are shared by method, service and protocol: a second client of the service gets the
  balancer made for the first, whatever local address and range it configures.\<close>

theorem GetOrCreateBalancer_shared:
  assumes "GetOrCreateBalancer city option router = (b, router1)"
  shows "GetOrCreateBalancer city (option\<lparr>co_LocalFirstConfig := c\<rparr>) router1 = (b, router1)"
  using assms by (auto simp: GetOrCreateBalancer_def balanceId_def Let_def split: option.splits if_splits)

theorem GetOrCreateBalancer_shared_witness:
  "let o1 = DefaultClientOption ''10.0.0.1''; (b, router1) = GetOrCreateBalancer char_city o1 new_router
   in fst (GetOrCreateBalancer char_city (o1\<lparr>co_LocalFirstConfig := \<lparr>LocalIp = ''10.9.9.9'', DiffRange = 0\<rparr>\<rparr>) router1) = b"
  using GetOrCreateBalancer_shared [of char_city "DefaultClientOption ''10.0.0.1''" new_router]
  by (auto simp: Let_def split: prod.split)

section \<open>Batches\<close>

definition lists_apart :: "cityhash \<Rightarrow> (int64 \<rightharpoonup> ServerList) \<Rightarrow> bool" where
  "lists_apart city ls \<longleftrightarrow> (\<forall>i j xs ys. ls i = Some xs \<and> ls j = Some ys \<and>
     getServerListHash city xs 0 = getServerListHash city ys 0 \<longrightarrow> set xs = set ys)"

definition from_lists :: "cityhash \<Rightarrow> (int64 \<rightharpoonup> ServerList) \<Rightarrow> (uint64 \<rightharpoonup> Server option) \<Rightarrow> bool" where
  "from_lists city ls selected \<longleftrightarrow> (\<forall>h s. selected h = Some (Some s) \<longrightarrow>
     (\<exists>j xs. ls j = Some xs \<and> getServerListHash city xs 0 = h \<and> s \<in> set xs))"

definition answers :: "(int64 \<rightharpoonup> ServerList) \<Rightarrow> (int64 \<rightharpoonup> Server option) \<Rightarrow> int64 set \<Rightarrow> bool" where
  "answers ls result ids \<longleftrightarrow> dom result = ids \<and>
     (\<forall>i s. result i = Some (Some s) \<longrightarrow> (\<exists>xs. ls i = Some xs \<and> s \<in> set xs))"

lemma batch_loop_answers:
  assumes "user_ok us" "lists_apart city ls"
  shows "batch_loop city us r bid ls ids selected result b router = Ran (result', router') \<Longrightarrow>
    from_lists city ls selected \<Longrightarrow> answers ls result done \<Longrightarrow> answers ls result' (done \<union> set ids)"
proof (induction ids arbitrary: selected result b router "done")
  case (Cons i ids)
  have step: "answers ls (result(i \<mapsto> a)) (insert i done)"
    if "\<And>s. a = Some s \<Longrightarrow> \<exists>xs. ls i = Some xs \<and> s \<in> set xs" for a
    using Cons.prems(3) that by (auto simp: answers_def)
  have join: "insert i done \<union> set ids = done \<union> set (i # ids)" by simp
  show ?case
  proof (cases "ls i")
    case None
    with Cons.prems(1) have "batch_loop city us r bid ls ids selected (result(i \<mapsto> None)) b router = Ran (result', router')"
      by simp
    from Cons.IH [OF this Cons.prems(2) step] show ?thesis using join by simp
  next
    case (Some xs)
    let ?h = "getServerListHash city xs 0"
    show ?thesis
    proof (cases "selected ?h")
      case (Some a)
      with \<open>ls i = Some xs\<close> Cons.prems(1) have
        eq: "batch_loop city us r bid ls ids selected (result(i \<mapsto> a)) b router = Ran (result', router')"
        by (simp add: Let_def)
      have "\<exists>ys. ls i = Some ys \<and> s \<in> set ys" if as: "a = Some s" for s
      proof -
        obtain j ys where "ls j = Some ys" "getServerListHash city ys 0 = ?h" "s \<in> set ys"
          using Cons.prems(2) Some as unfolding from_lists_def by blast
        with assms(2) \<open>ls i = Some xs\<close> show ?thesis unfolding lists_apart_def by blast
      qed
      from Cons.IH [OF eq Cons.prems(2) step [OF this]] show ?thesis using join by simp
    next
      case None
      with \<open>ls i = Some xs\<close> Cons.prems(1) obtain a router1 where
        sel: "select_with us (r (length ids)) bid b xs router = Ran (a, router1)" and
        eq: "batch_loop city us r bid ls ids (selected(?h \<mapsto> a)) (result(i \<mapsto> a)) (the (r_balancers router1 bid)) router1
          = Ran (result', router')"
        by (auto simp: Let_def run_bind_eq_Ran)
      have mem: "\<And>s. a = Some s \<Longrightarrow> s \<in> set xs" using select_with_mem [OF assms(1)] sel by blast
      have "from_lists city ls (selected(?h \<mapsto> a))"
        using Cons.prems(2) mem \<open>ls i = Some xs\<close> unfolding from_lists_def
        by (metis fun_upd_apply option.inject)
      from Cons.IH [OF eq this step] mem \<open>ls i = Some xs\<close> show ?thesis using join by auto
    qed
  qed
qed simp

text \<open>C25. A batch discovery answers every route asked for, and each answer is a server of that route's own
  list, provided no two lists of the batch with different servers collide in the hash.\<close>

theorem BatchDiscover_answers:
  assumes "user_ok us" and "BatchDiscover fuel env us r option ids router = Ran (result, router')"
    and "GetOrCreateDiscoverPuller fuel env (co_ServiceName option) router = Ran router1"
    and "ls = (\<lambda>i. if i \<in> set ids then SelectServers (e_city env) (r_routerDb router1) (co_ServiceName option)
        (co_Protocol option) i (co_ShardType option) (co_Dc (with_default_dc option)) else None)"
    and "lists_apart (e_city env) ls"
  shows "dom result = set ids \<and> (\<forall>i s. result i = Some (Some s) \<longrightarrow> (\<exists>xs. ls i = Some xs \<and> s \<in> set xs))"
proof -
  let ?o = "with_default_dc option"
  have fields: "co_ServiceName ?o = co_ServiceName option" "co_Protocol ?o = co_Protocol option"
    "co_ShardType ?o = co_ShardType option" by (simp_all add: with_default_dc_def)
  have batch: "batch_select_loop city db name proto ids st dc m i =
      (if i \<in> set ids \<and> SelectServers city db name proto i st dc \<noteq> None
       then SelectServers city db name proto i st dc else m i)" for city db name proto st dc m i
    by (induction ids arbitrary: m) (auto split: option.splits)
  have ls: "BatchSelectServers (e_city env) (r_routerDb router1) (co_ServiceName ?o) (co_Protocol ?o) ids
      (co_ShardType ?o) (co_Dc ?o) = ls"
    by (rule ext) (simp add: assms(4) BatchSelectServers_def batch fields)
  obtain b router2 where "GetOrCreateBalancer (e_city env) ?o router1 = (b, router2)" by fastforce
  with assms(2,3) ls have "batch_loop (e_city env) us r (balanceId (e_city env) ?o) ls ids Map.empty Map.empty b router2
      = Ran (result, router')"
    by (simp add: BatchDiscover_def Let_def)
  from batch_loop_answers [OF assms(1,5) this, of "{}"] show ?thesis
    by (simp add: from_lists_def answers_def)
qed
section \<open>The cascade\<close>

definition config_path :: "string \<Rightarrow> string" where
  "config_path name = GetConfigPath (empty_server\<lparr>ServiceName := name\<rparr>)"

lemma nodes_not_config [simp]: "nodes_path name \<noteq> config_path name"
  by (simp add: nodes_path_def config_path_def GetNodesPath_def GetConfigPath_def)

lemma checkUpdate_frame:
  "snd (checkUpdate key i cr) = cr \<or> (\<exists>m. snd (checkUpdate key i cr) = cr\<lparr>cr_lastIndexes := m\<rparr> \<and> (\<forall>k. k \<noteq> key \<longrightarrow> m k = cr_lastIndexes cr k))"
  by (auto simp: checkUpdate_def Let_def split: option.splits)

lemma processConfig_registry: "snd (processConfig dec server kvs i cr) = snd (checkUpdate (GetConfigPath server) i cr)"
  by (auto simp: processConfig_def split: prod.splits option.splits)

lemma GetConfig_frame:
  fixes cr :: "('s, 'c) ConsulRegistry"
  assumes "GetConfig dec get ls name cr = (notes, cr')"
  shows "cr_serviceSubscribers cr' = cr_serviceSubscribers cr" "cr_configSubscribers cr' = cr_configSubscribers cr"
    "cr_staticSwitches cr' = cr_staticSwitches cr" "cr_staticServerNodes cr' = cr_staticServerNodes cr"
    "k \<noteq> config_path name \<Longrightarrow> cr_lastIndexes cr' k = cr_lastIndexes cr k"
proof -
  let ?server = "empty_server\<lparr>ServiceName := name\<rparr>"
  obtain ch cr1 where c: "checkConfigUpdate get ?server cr = (ch, cr1)" by fastforce
  then have cr1: "cr_serviceSubscribers cr1 = cr_serviceSubscribers cr" "cr_configSubscribers cr1 = cr_configSubscribers cr"
    "cr_staticSwitches cr1 = cr_staticSwitches cr" "cr_staticServerNodes cr1 = cr_staticServerNodes cr"
    "cr_lastIndexes cr1 = cr_lastIndexes cr"
    by (auto simp: checkConfigUpdate_def split: option.splits if_splits)
  have "cr' = cr1 \<or> (\<exists>i. cr' = snd (checkUpdate (config_path name) i cr1))"
    using assms c
    by (auto simp: GetConfig_def Let_def config_path_def split: if_splits option.splits dest: arg_cong [where f = snd])
      (metis processConfig_registry snd_conv)
  then show "cr_serviceSubscribers cr' = cr_serviceSubscribers cr" "cr_configSubscribers cr' = cr_configSubscribers cr"
    "cr_staticSwitches cr' = cr_staticSwitches cr" "cr_staticServerNodes cr' = cr_staticServerNodes cr"
    "k \<noteq> config_path name \<Longrightarrow> cr_lastIndexes cr' k = cr_lastIndexes cr k"
    using cr1 checkUpdate_frame [of "config_path name" _ cr1] by (metis (no_types, lifting) ConsulRegistry.select_convs
      ConsulRegistry.update_convs(1) ConsulRegistry.surjective)+
qed

lemma checkConfigUpdate_again:
  assumes "checkConfigUpdate get server cr = (True, cr1)" "get (GetConfigVersionPath server) \<noteq> None"
    "cr_configVersions cr2 = cr_configVersions cr1"
  shows "checkConfigUpdate get server cr2 = (False, cr2)"
  using assms by (auto simp: checkConfigUpdate_def split: option.splits if_splits)

lemma checkUpdate_versions [simp]: "cr_configVersions (snd (checkUpdate key i cr)) = cr_configVersions cr"
  by (simp add: checkUpdate_def Let_def split: option.splits)

lemma processConfig_again:
  "processConfig dec server kvs i (snd (checkUpdate (GetConfigPath server) i cr)) =
     ([], snd (checkUpdate (GetConfigPath server) i cr))"
  by (simp add: processConfig_def checkUpdate_again)

text \<open>A second pull of an unchanged store notifies no one.\<close>

lemma GetConfig_again:
  assumes "GetConfig dec get ls name cr = (notes, cr')"
  shows "GetConfig dec get ls name cr' = ([], cr')"
proof -
  let ?server = "empty_server\<lparr>ServiceName := name\<rparr>"
  obtain ch cr1 where c: "checkConfigUpdate get ?server cr = (ch, cr1)" by fastforce
  show ?thesis
  proof (cases ch)
    case False
    then have "cr1 = cr" using c by (auto simp: checkConfigUpdate_def split: option.splits if_splits)
    with c False assms show ?thesis by (simp add: GetConfig_def Let_def)
  next
    case True
    show ?thesis
    proof (cases "ls (GetConfigPath ?server)")
      case None
      with c True assms have "cr' = cr1" by (simp add: GetConfig_def Let_def)
      with c True None show ?thesis
        by (auto simp: GetConfig_def Let_def checkConfigUpdate_def split: option.splits if_splits)
    next
      case (Some res)
      obtain kvs i where res: "res = (kvs, i)" by (cases res)
      have cr': "cr' = snd (checkUpdate (GetConfigPath ?server) i cr1)"
        using c True assms Some res processConfig_registry [of dec ?server kvs i cr1] by (simp add: GetConfig_def Let_def)
      show ?thesis
      proof (cases "get (GetConfigVersionPath ?server)")
        case None
        then have "checkConfigUpdate get ?server cr' = (True, cr')" by (simp add: checkConfigUpdate_def)
        with Some res cr' processConfig_again show ?thesis by (simp add: GetConfig_def Let_def)
      next
        case (Some v)
        with c True cr' have "checkConfigUpdate get ?server cr' = (False, cr')"
          by (intro checkConfigUpdate_again) simp_all
        then show ?thesis by (simp add: GetConfig_def Let_def)
      qed
    qed
  qed
qed

lemma GetConfig_notes:
  assumes "GetConfig dec get ls name cr = (notes, cr')"
  shows "notes = [] \<or> (\<exists>c. notes = map (\<lambda>sub. (sub, name, c)) (config_members cr name))"
proof -
  let ?server = "empty_server\<lparr>ServiceName := name\<rparr>"
  have proc: "fst (processConfig dec ?server kvs i cr1) = [] \<or>
      (\<exists>c. fst (processConfig dec ?server kvs i cr1) = map (\<lambda>sub. (sub, name, c)) (config_members cr1 name))" for kvs i cr1
  proof -
    obtain u cr2 where u: "checkUpdate (GetConfigPath ?server) i cr1 = (u, cr2)" by fastforce
    then have "cr_configSubscribers cr2 = cr_configSubscribers cr1"
      using checkUpdate_simps(3) [of "GetConfigPath ?server" i cr1] by simp
    then show ?thesis
      by (auto simp: processConfig_def u config_members_def slot_def split: prod.splits option.splits)
  qed
  obtain ch cr1 where c: "checkConfigUpdate get ?server cr = (ch, cr1)" by fastforce
  then have m: "config_members cr1 = config_members cr"
    by (auto simp: checkConfigUpdate_def config_members_def split: option.splits if_splits)
  show ?thesis
  proof (cases "ch \<and> ls (GetConfigPath ?server) \<noteq> None")
    case False
    with assms c show ?thesis by (auto simp: GetConfig_def Let_def split: if_splits option.splits)
  next
    case True
    then obtain kvs i where "ls (GetConfigPath ?server) = Some (kvs, i)" by auto
    with assms c True have "processConfig dec ?server kvs i cr1 = (notes, cr')" by (simp add: GetConfig_def Let_def)
    with proc [of kvs i cr1] m show ?thesis by simp
  qed
qed

definition note_db :: "string \<Rightarrow> (subscriber \<times> string \<times> ServiceConfig) list \<Rightarrow> RouterDb \<Rightarrow> RouterDb" where
  "note_db name notes db = (case notes of [] \<Rightarrow> db | (sub, n, c) # rest \<Rightarrow> UpdateConfig name c db)"

lemma pull_config_db:
  assumes "2 \<le> fuel" "config_members (r_registry router) name = [SubRouterDb]"
    and "GetConfig (e_decodeRouter env) (e_kv_get env) (e_kv_list env) name (r_registry router) = (notes, cr')"
  shows "run_work fuel env locked [PullConfig name] router =
    Ran (router\<lparr>r_registry := cr', r_routerDb := note_db name notes (r_routerDb router)\<rparr>)"
proof -
  obtain n where n: "fuel = Suc (Suc n)" using assms(1) by (metis add_2_eq_Suc le_Suc_ex)
  from GetConfig_notes [OF assms(3)] assms(2) consider "notes = []" | c where "notes = [(SubRouterDb, name, c)]" by auto
  then show ?thesis by cases (simp_all add: n assms(3) note_db_def)
qed

text \<open>What the first use of a service leaves in the routing table, before its servers are known.\<close>

definition first_registry :: "string \<Rightarrow> (subscriber, subscriber) ConsulRegistry" where
  "first_registry name = SubscribeConfig name SubRouterDb (SubscribeService name SubRouterDb NewConsulRegistry)"

definition first_db :: "Env \<Rightarrow> string \<Rightarrow> RouterDb" where
  "first_db env name =
     note_db name (fst (GetConfig (e_decodeRouter env) (e_kv_get env) (e_kv_list env) name (first_registry name))) GetRouterDb"

lemma first_registry_simps:
  "config_members (first_registry name) name = [SubRouterDb]" "service_members (first_registry name) name = [SubRouterDb]"
  "cr_staticSwitches (first_registry name) = Map.empty" "cr_lastIndexes (first_registry name) = Map.empty"
  by (simp_all add: first_registry_def config_members_def service_members_def slot_def SubscribeConfig_def
      SubscribeService_def NewConsulRegistry_def)

lemma service_members_SubscribeConfig [simp]:
  "service_members (SubscribeConfig n x cr) = service_members cr"
  "cr_staticSwitches (SubscribeConfig n x cr) = cr_staticSwitches cr"
  "cr_lastIndexes (SubscribeConfig n x cr) = cr_lastIndexes cr"
  by (simp_all add: SubscribeConfig_def service_members_def split: option.split)

lemma NewServicePuller_ok:
  "0 < sint (calculateInterval (PullInterval c)) \<Longrightarrow> \<exists>sp. NewServicePuller name c kind = Inr sp"
  by (simp add: NewServicePuller_def timer_new_def timer_start_def Let_def)

lemma GetOrCreateDiscoverPuller_first:
  assumes "2 \<le> fuel" and "e_kv_list env (nodes_path name) = Some (pairs, i)" "pairs \<noteq> []" "i \<noteq> 0"
    and "0 < sint (calculateInterval (PullInterval (GetServiceRouterConfig (first_db env name) name)))"
  shows "\<exists>router1. GetOrCreateDiscoverPuller fuel env name new_router = Ran router1 \<and>
    r_balancers router1 = Map.empty \<and>
    r_routerDb router1 = UpdateServers (e_city env) (e_now env) (e_order1 env) (e_order2 env) name
      (map (e_decodeServer env \<circ> snd) pairs) (first_db env name)"
proof -
  let ?get = "GetConfig (e_decodeRouter env) (e_kv_get env) (e_kv_list env) name"
  obtain "notes" cr1 where g: "?get (first_registry name) = (notes, cr1)" by fastforce
  let ?R = "new_router\<lparr>r_registry := SubscribeService name SubRouterDb NewConsulRegistry\<rparr>"
  let ?R1 = "new_router\<lparr>r_registry := first_registry name\<rparr>"
  let ?R2 = "new_router\<lparr>r_registry := cr1, r_routerDb := first_db env name\<rparr>"
  have db: "note_db name notes GetRouterDb = first_db env name" by (simp add: first_db_def g)
  have p1: "run_work fuel env True [PullConfig name] ?R1 = Ran ?R2"
    using pull_config_db [OF assms(1), of ?R1 name env "notes" cr1] g db
    by (simp add: first_registry_simps new_router_def)
  have m: "config_members cr1 name = [SubRouterDb]" "service_members cr1 name = [SubRouterDb]"
    "cr_staticSwitches cr1 = Map.empty" "cr_lastIndexes cr1 (nodes_path name) = None"
    using GetConfig_frame [OF g] first_registry_simps [of name] by (simp_all add: config_members_def service_members_def)
  have p2: "run_work fuel env True [PullConfig name] ?R2 = Ran ?R2"
    using pull_config_db [OF assms(1), of ?R2 name env "[]" cr1] GetConfig_again [OF g] m(1) by (simp add: note_db_def)
  let ?c = "GetServiceRouterConfig (first_db env name) name"
  obtain sp where sp: "NewServicePuller name ?c ''CONFIG_PULLER'' = Inr sp" using NewServicePuller_ok [OF assms(5)] by blast
  obtain sp' where sp': "NewServicePuller name ?c ''SERVER_PULLER'' = Inr sp'" using NewServicePuller_ok [OF assms(5)] by blast
  let ?R3 = "?R2\<lparr>r_configPullers := [(name, sp)], r_registry := SubscribeConfig name SubRouter cr1\<rparr>"
  have cfg: "GetOrCreateConfigPuller fuel env name ?R = Ran ?R3"
    using p1 p2 sp by (simp add: GetOrCreateConfigPuller_def Let_def first_registry_def new_router_def)
  obtain n where n: "fuel = Suc (Suc n)" using assms(1) by (metis add_2_eq_Suc le_Suc_ex)
  have "Discover (e_decodeServer env) (e_kv_list env) name (SubscribeConfig name SubRouter cr1) =
      ([(SubRouterDb, name, map (e_decodeServer env \<circ> snd) pairs)],
       snd (checkUpdate (nodes_path name) i (SubscribeConfig name SubRouter cr1)))"
    using Discover_dynamic [of "SubscribeConfig name SubRouter cr1" name "e_kv_list env" pairs i] assms(2-4) m
    by (simp add: last_index_def)
  then have "run_work fuel env False [PullServers name] ?R3 = Ran (?R3\<lparr>
      r_registry := snd (checkUpdate (nodes_path name) i (SubscribeConfig name SubRouter cr1)),
      r_routerDb := UpdateServers (e_city env) (e_now env) (e_order1 env) (e_order2 env) name
        (map (e_decodeServer env \<circ> snd) pairs) (first_db env name)\<rparr>)"
    by (simp add: n)
  then show ?thesis
    using cfg sp' by (simp add: GetOrCreateDiscoverPuller_def Router_GetServiceRouterConfig_def Let_def new_router_def)
qed
section \<open>From the registry to a server\<close>

lemma with_default_dc_simps [simp]:
  "co_ServiceName (with_default_dc option) = co_ServiceName option"
  "co_Protocol (with_default_dc option) = co_Protocol option"
  "co_ShardId (with_default_dc option) = co_ShardId option"
  "co_ShardType (with_default_dc option) = co_ShardType option"
  "co_RouteToEdgeNode (with_default_dc option) = co_RouteToEdgeNode option"
  "new_balancer (with_default_dc option) = new_balancer option"
  by (simp_all add: with_default_dc_def new_balancer_def Let_def)

text \<open>The route a client option stands for when no edge node is asked for.\<close>

definition route_of :: "ClientOption \<Rightarrow> route" where
  "route_of option = \<lparr>rt_protocol = co_Protocol option, rt_id = co_ShardId option,
     rt_shardType = co_ShardType option, rt_dc = (if co_Dc option = [] then DEFAULT_DC else co_Dc option)\<rparr>"

lemma table_after_first_use:
  assumes "is_order order1" "is_order order2" "xs \<noteq> []"
    and "no_collision city name (registered now rd name xs) r" "s \<in> registered now rd name xs" "r \<in> routes s"
  shows "\<exists>ys. rd_services (UpdateServers city now order1 order2 name xs rd) (route_key city name r) = Some ys \<and>
    ys \<noteq> [] \<and> set ys \<subseteq> {t \<in> registered now rd name xs. r \<in> routes t}"
proof -
  let ?svs = "picked_servers now rd name xs" and ?k = "route_key city name r"
  let ?parts = "values_at ?k (all_partition_entries city name ?svs)"
  let ?shards = "values_at ?k (all_shard_entries city name ?svs)"
  have nc: "no_collision city name (with_dc ` set ?svs) r" using assms(4) by (simp add: registered_def)
  note sets = entries_of_route [OF nc, folded registered_def]
  have "s \<in> set ?parts \<union> set ?shards" unfolding sets using assms(5,6) by blast
  then have "?shards \<noteq> [] \<or> ?parts \<noteq> []" by auto
  with sets show ?thesis by (auto simp: UpdateServers_services [OF assms(1-3)] Let_def)
qed

text \<open>C14. The first discovery of a service finds a server: when the store lists nodes of the service and one
  of the registered ones (alive, or all of them if none is) offers the route asked for, \<open>Discover\<close> on a
  fresh router, after subscribing and pulling configuration and nodes, returns a registered server that
  offers it.\<close>

theorem first_Discover_finds_server:
  assumes "is_order (e_order1 env)" "is_order (e_order2 env)" and "2 \<le> fuel"
    and "name = co_ServiceName option" and "\<not> co_RouteToEdgeNode option"
    and "e_kv_list env (nodes_path name) = Some (pairs, i)" "pairs \<noteq> []" "i \<noteq> 0"
    and "0 < sint (calculateInterval (PullInterval (GetServiceRouterConfig (first_db env name) name)))"
    and "always_selects (new_balancer option)"
    and "nodes = registered (e_now env) (first_db env name) name (map (e_decodeServer env \<circ> snd) pairs)"
    and "no_collision (e_city env) name nodes (route_of option)" "s \<in> nodes" "route_of option \<in> routes s"
  shows "\<exists>t router'. Router_Discover fuel env us r option new_router = Ran (Some t, router') \<and>
    t \<in> nodes \<and> route_of option \<in> routes t"
proof -
  let ?xs = "map (e_decodeServer env \<circ> snd) pairs"
  obtain router1 where r1: "GetOrCreateDiscoverPuller fuel env name new_router = Ran router1"
    "r_balancers router1 = Map.empty"
    "r_routerDb router1 = UpdateServers (e_city env) (e_now env) (e_order1 env) (e_order2 env) name ?xs (first_db env name)"
    using GetOrCreateDiscoverPuller_first [OF assms(3,6-9)] by blast
  obtain ys where ys: "rd_services (r_routerDb router1) (route_key (e_city env) name (route_of option)) = Some ys"
    "ys \<noteq> []" "set ys \<subseteq> {t \<in> nodes. route_of option \<in> routes t}"
    using table_after_first_use [OF assms(1,2), of ?xs "e_city env" name "e_now env" "first_db env name" "route_of option" s]
      assms(7,11-14) r1(3) by auto
  have list: "discover_list (e_city env) (r_routerDb router1) (with_default_dc option) = Some ys"
    using ys(1) assms(4,5)
    by (cases "co_Dc option = []")
      (simp_all add: discover_list_def SelectServers_def route_key_def route_of_def with_default_dc_def)
  obtain t lb where sel: "Lb_Select us r (new_balancer option) ys = selects t lb"
    using always_selects_Select [OF assms(10) ys(2)] by blast
  have "t \<in> set ys"
    using sel assms(10) by (auto simp: always_selects_def dest: router_balancer.select_mem)
  moreover have "\<exists>router'. Router_Discover fuel env us r option new_router = Ran (Some t, router')"
    using r1 list sel assms(4)
    by (simp add: Router_Discover_def Let_def GetOrCreateBalancer_def select_with_def)
  ultimately show ?thesis using ys(3) by blast
qed

subsection \<open>A first discovery\<close>

definition example_env :: Env where
  "example_env = \<lparr>e_city = char_city, e_now = 200, e_order1 = (\<lambda>xs. xs), e_order2 = rev,
     e_kv_list = (\<lambda>p. if p = nodes_path ''svc'' then Some ([(''a'', ''s''), (''b'', ''e'')], 9) else None),
     e_kv_get = (\<lambda>p. None),
     e_decodeServer = (\<lambda>v. if v = ''s'' then shard_server else edge_server),
     e_decodeRouter = (\<lambda>v. DefaultServiceRouterConfig)\<rparr>"

definition example_option :: ClientOption where
  "example_option = (ClientOptionFactory ''10.0.0.9'' ''svc'' ''thrift'')\<lparr>co_ShardId := 1, co_Dc := []\<rparr>"

lemma example_first_db: "first_db example_env ''svc'' = GetRouterDb"
proof -
  have "config_path ''svc'' \<noteq> nodes_path ''svc''" by (metis nodes_not_config)
  then show ?thesis
    by (simp add: first_db_def GetConfig_def checkConfigUpdate_def example_env_def note_db_def config_path_def Let_def)
qed

lemma example_route_of: "route_of example_option = example_route 1 ''1''"
  by (simp add: route_of_def example_option_def ClientOptionFactory_def DefaultClientOption_def DEFAULT_DC_def)

lemma example_interval:
  "0 < sint (calculateInterval (PullInterval (GetServiceRouterConfig (first_db example_env ''svc'') ''svc'')))"
  by (simp add: example_first_db GetServiceRouterConfig_def GetRouterDb_def DefaultServiceRouterConfig_def calculateInterval_def)

theorem first_Discover_finds_server_witness:
  "\<exists>t router'. Router_Discover 2 example_env (\<lambda>r u xs. None) 5 example_option new_router = Ran (Some t, router') \<and>
     t \<in> {shard_server\<lparr>Dc := ''default''\<rparr>, edge_server\<lparr>Dc := ''default''\<rparr>} \<and> example_route 1 ''1'' \<in> routes t"
proof -
  have nodes: "registered (e_now example_env) (first_db example_env ''svc'') ''svc''
      (map (e_decodeServer example_env \<circ> snd) [(''a'', ''s''), (''b'', ''e'')]) =
      {shard_server\<lparr>Dc := ''default''\<rparr>, edge_server\<lparr>Dc := ''default''\<rparr>}"
    using example_registered by (simp add: example_first_db) (simp add: example_env_def)
  have "always_selects (new_balancer example_option)"
    by (simp add: always_selects_def new_balancer_def example_option_def ClientOptionFactory_def DefaultClientOption_def)
  moreover have "e_kv_list example_env (nodes_path ''svc'') = Some ([(''a'', ''s''), (''b'', ''e'')], 9)"
    by (simp add: example_env_def)
  moreover have "is_order (e_order1 example_env)" "is_order (e_order2 example_env)"
    by (simp_all add: example_env_def is_order_id is_order_rev)
  moreover have "''svc'' = co_ServiceName example_option" "\<not> co_RouteToEdgeNode example_option"
    by (simp_all add: example_option_def ClientOptionFactory_def DefaultClientOption_def)
  moreover have "no_collision (e_city example_env) ''svc'' {shard_server\<lparr>Dc := ''default''\<rparr>, edge_server\<lparr>Dc := ''default''\<rparr>}
      (route_of example_option)"
    using example_keys by (auto simp: no_collision_def example_routes example_route_of example_env_def)
  moreover have "shard_server\<lparr>Dc := ''default''\<rparr> \<in> {shard_server\<lparr>Dc := ''default''\<rparr>, edge_server\<lparr>Dc := ''default''\<rparr>}"
    "route_of example_option \<in> routes (shard_server\<lparr>Dc := ''default''\<rparr>)"
    by (simp_all add: example_route_of example_routes)
  ultimately show ?thesis
    using first_Discover_finds_server [of example_env 2 "''svc''" example_option "[(''a'', ''s''), (''b'', ''e'')]" 9
        "{shard_server\<lparr>Dc := ''default''\<rparr>, edge_server\<lparr>Dc := ''default''\<rparr>}" "shard_server\<lparr>Dc := ''default''\<rparr>"
        "\<lambda>r u xs. None" 5] nodes example_interval
    by (simp add: example_route_of)
qed

abbreviation (input) no_user :: user_select where
  "no_user \<equiv> \<lambda>r u xs. None"

lemma example_table:
  obtains router1 ys where "GetOrCreateDiscoverPuller 2 example_env ''svc'' new_router = Ran router1"
    "r_balancers router1 = Map.empty" "ys \<noteq> []"
    "SelectServers char_city (r_routerDb router1) ''svc'' ''thrift'' 1 ''1'' ''default'' = Some ys"
proof -
  obtain router1 where r1: "GetOrCreateDiscoverPuller 2 example_env ''svc'' new_router = Ran router1"
    "r_balancers router1 = Map.empty"
    "r_routerDb router1 = UpdateServers char_city 200 (\<lambda>xs. xs) rev ''svc'' [shard_server, edge_server] GetRouterDb"
    using GetOrCreateDiscoverPuller_first [of 2 example_env "''svc''" "[(''a'', ''s''), (''b'', ''e'')]" 9] example_interval
    by (simp add: example_first_db) (auto simp: example_env_def)
  have nc: "no_collision char_city ''svc'' (registered 200 GetRouterDb ''svc'' [shard_server, edge_server]) (example_route 1 ''1'')"
    using example_keys by (auto simp: no_collision_def example_routes example_registered)
  have "shard_server\<lparr>Dc := ''default''\<rparr> \<in> registered 200 GetRouterDb ''svc'' [shard_server, edge_server]"
    "example_route 1 ''1'' \<in> routes (shard_server\<lparr>Dc := ''default''\<rparr>)"
    by (simp_all add: example_registered example_routes)
  from table_after_first_use [OF is_order_id is_order_rev _ nc this] r1(3) obtain ys where
    "rd_services (r_routerDb router1) (route_key char_city ''svc'' (example_route 1 ''1'')) = Some ys" "ys \<noteq> []" by auto
  with that r1 show thesis by (simp add: SelectServers_def route_key_def)
qed

lemma example_option_simps:
  "co_ServiceName example_option = ''svc''" "co_Protocol example_option = ''thrift''" "co_ShardId example_option = 1"
  "co_ShardType example_option = ''1''" "co_Dc (with_default_dc example_option) = ''default''"
  "\<not> co_RouteToEdgeNode example_option"
  "new_balancer example_option = Builtin (LbLocalFirst (NewLoadBalanceLocalFirst (DefaultBalanceLocalFirstConfig ''10.0.0.9'')))"
  "e_city example_env = char_city"
  by (simp_all add: example_option_def ClientOptionFactory_def DefaultClientOption_def new_balancer_def
      with_default_dc_def DEFAULT_DC_def example_env_def)

lemma example_select:
  assumes "ys \<noteq> []" "r_balancers router1 = Map.empty"
  obtains b router2 t router3 where "GetOrCreateBalancer char_city (with_default_dc example_option) router1 = (b, router2)"
    "select_with no_user 5 (balanceId char_city (with_default_dc example_option)) b ys router2 = Ran (Some t, router3)"
    "t \<in> set ys"
proof -
  obtain t st where t: "LocalFirst_Select 5 (NewLoadBalanceLocalFirst (DefaultBalanceLocalFirstConfig ''10.0.0.9'')) ys = selects t st"
    using local_first.select_total [OF assms(1)] by blast
  have "t \<in> set ys" using t by (rule local_first.select_mem)
  let ?b = "Builtin (LbLocalFirst (NewLoadBalanceLocalFirst (DefaultBalanceLocalFirstConfig ''10.0.0.9'')))"
  let ?id = "balanceId char_city (with_default_dc example_option)"
  have "GetOrCreateBalancer char_city (with_default_dc example_option) router1 = (?b, router1\<lparr>r_balancers := [?id \<mapsto> ?b]\<rparr>)"
    using assms(2) by (simp add: GetOrCreateBalancer_def example_option_simps Let_def)
  moreover have "\<exists>router3. select_with no_user 5 ?id ?b ys (router1\<lparr>r_balancers := [?id \<mapsto> ?b]\<rparr>) = Ran (Some t, router3)"
    using t by (simp add: select_with_def)
  ultimately show thesis using that \<open>t \<in> set ys\<close> by blast
qed

lemma example_discover:
  obtains t router' where "Router_Discover 2 example_env no_user 5 example_option new_router = Ran (Some t, router')"
proof -
  obtain router1 ys where r1: "GetOrCreateDiscoverPuller 2 example_env ''svc'' new_router = Ran router1"
    "r_balancers router1 = Map.empty" "ys \<noteq> []"
    "SelectServers char_city (r_routerDb router1) ''svc'' ''thrift'' 1 ''1'' ''default'' = Some ys"
    by (rule example_table)
  obtain b router2 t router3 where "GetOrCreateBalancer char_city (with_default_dc example_option) router1 = (b, router2)"
    "select_with no_user 5 (balanceId char_city (with_default_dc example_option)) b ys router2 = Ran (Some t, router3)"
    using example_select [OF r1(3,2)] by metis
  with that r1 show thesis by (simp add: Router_Discover_def Let_def discover_list_def example_option_simps)
qed

lemma no_user_ok: "user_ok no_user"
  by (simp add: user_ok_def)


theorem Router_Discover_counts_witness:
  "\<exists>t router'. Router_Discover 2 example_env no_user 5 example_option new_router = Ran (Some t, router') \<and>
     0 < r_counters router' (counter_key (Some t))"
proof -
  obtain t router' where d: "Router_Discover 2 example_env no_user 5 example_option new_router = Ran (Some t, router')"
    by (rule example_discover)
  from Router_Discover_counts [OF d] d show ?thesis by auto
qed

theorem BatchDiscover_answers_witness:
  "\<exists>result router'. BatchDiscover 2 example_env no_user (\<lambda>n. 5) example_option [1] new_router = Ran (result, router') \<and>
     dom result = {1}"
proof -
  obtain router1 ys where r1: "GetOrCreateDiscoverPuller 2 example_env ''svc'' new_router = Ran router1"
    "r_balancers router1 = Map.empty" "ys \<noteq> []"
    "SelectServers char_city (r_routerDb router1) ''svc'' ''thrift'' 1 ''1'' ''default'' = Some ys"
    by (rule example_table)
  obtain b router2 t router3 where "GetOrCreateBalancer char_city (with_default_dc example_option) router1 = (b, router2)"
    "select_with no_user 5 (balanceId char_city (with_default_dc example_option)) b ys router2 = Ran (Some t, router3)"
    using example_select [OF r1(3,2)] by metis
  with r1 obtain result router' where
    b: "BatchDiscover 2 example_env no_user (\<lambda>n. 5) example_option [1] new_router = Ran (result, router')"
    by (simp add: BatchDiscover_def Let_def example_option_simps BatchSelectServers_def)
  have g: "GetOrCreateDiscoverPuller 2 example_env (co_ServiceName example_option) new_router = Ran router1"
    using r1(1) by (simp add: example_option_simps)
  have "lists_apart (e_city example_env) (\<lambda>i. if i \<in> set [1] then SelectServers (e_city example_env) (r_routerDb router1)
      (co_ServiceName example_option) (co_Protocol example_option) i (co_ShardType example_option)
      (co_Dc (with_default_dc example_option)) else None)"
    by (auto simp: lists_apart_def)
  from BatchDiscover_answers [OF no_user_ok b g refl this] b show ?thesis by auto
qed

section \<open>Locks\<close>


text \<open>The parts of the router the invariant reads.\<close>

definition same_subs :: "Router \<Rightarrow> Router \<Rightarrow> bool" where
  "same_subs router router' \<longleftrightarrow> config_members (r_registry router') = config_members (r_registry router) \<and>
     dom (map_of (r_configPullers router')) = dom (map_of (r_configPullers router))"

lemma same_subs_refl [simp]: "same_subs r r"
  by (simp add: same_subs_def)
















text \<open>An operation ends when it does not wait for a lock for ever and the fuel is enough.\<close>

definition ends :: "'a run \<Rightarrow> bool" where
  "ends m \<longleftrightarrow> m \<noteq> Stuck \<and> m \<noteq> NoFuel"

lemma ends_Ran [simp]: "ends (Ran x)"
  by (simp add: ends_def)

lemma ends_of_go [simp]: "ends (of_go m)"
  by (simp add: ends_def of_go_def split: sum.split)













text \<open>C38. The restart handler can deadlock: it restarts the config pullers under \<open>configLock\<close>, and if the
  first pull finds a changed configuration with a positive interval, the router's own handler waits for
  that lock while the pull waits for the handler.\<close>

theorem RestartTimerHandler_deadlocks:
  assumes "order (map fst (r_configPullers router)) = name # ks" and "name \<noteq> []"
    and "map_of (r_configPullers router) name = Some sp" "sp_serviceName sp = name"
    and "GetConfig (e_decodeRouter env) (e_kv_get env) (e_kv_list env) name (r_registry router) =
      ((SubRouterDb, name, c) # (SubRouter, name, c) # rest, registry')"
    and "0 < sint (calculateInterval (PullInterval (RouterPart c)))"
  shows "RestartTimerHandler (Suc (Suc (Suc fuel))) env order router = Stuck"
proof -
  have "run_work (Suc (Suc (Suc fuel))) env True [PullConfig name] router = Stuck"
    using assms(2,5,6) by (simp add: Router_ConfigNotify_def Let_def)
  with assms(1,3,4) show ?thesis by (simp add: RestartTimerHandler_def)
qed

definition example_locked :: Router where
  "example_locked = new_router\<lparr>
     r_registry := SubscribeConfig ''svc'' SubRouter (SubscribeConfig ''svc'' SubRouterDb NewConsulRegistry),
     r_configPullers := [(''svc'', \<lparr>sp_serviceName = ''svc'', sp_pullerType = ''CONFIG_PULLER'',
       sp_timer = \<lparr>tm_period = 5, tm_started = True, tm_ctx = 0, tm_next = 1, tm_loops = [(0, 5)], tm_runs = 1\<rparr>\<rparr>)]\<rparr>"

definition example_env2 :: Env where
  "example_env2 = example_env\<lparr>e_kv_list := (\<lambda>p. Some ([(GetRouterConfigPath (empty_server\<lparr>ServiceName := ''svc''\<rparr>), ''{}'')], 4))\<rparr>"

theorem RestartTimerHandler_deadlocks_witness: "RestartTimerHandler 3 example_env2 rev example_locked = Stuck"
proof -
  let ?rp = "GetRouterConfigPath (empty_server\<lparr>ServiceName := ''svc''\<rparr>)"
  have "GetConfig (e_decodeRouter example_env2) (e_kv_get example_env2) (e_kv_list example_env2) ''svc'' (r_registry example_locked) =
      ((SubRouterDb, ''svc'', \<lparr>RouterPart = DefaultServiceRouterConfig, Configs = Some []\<rparr>) #
       (SubRouter, ''svc'', \<lparr>RouterPart = DefaultServiceRouterConfig, Configs = Some []\<rparr>) # [],
       snd (GetConfig (e_decodeRouter example_env2) (e_kv_get example_env2) (e_kv_list example_env2) ''svc'' (r_registry example_locked)))"
    by (simp add: GetConfig_def checkConfigUpdate_def processConfig_def checkUpdate_def example_env2_def example_env_def
        example_locked_def new_router_def NewConsulRegistry_def SubscribeConfig_def Let_def)
  from RestartTimerHandler_deadlocks [OF _ _ _ _ this, of rev "[]" _ 0] show ?thesis
    by (simp add: example_locked_def DefaultServiceRouterConfig_def calculateInterval_def numeral_3_eq_3)
qed

text \<open>A changed time to live never reaches the heartbeats: the router looks its pushers up by service
  name, but keeps them under service, host and port, so a notification for a service whose name has no
  colon leaves all pushers as they are.\<close>

theorem ConfigNotify_misses_pushers:
  assumes "\<forall>(k, sh) \<in> set (r_servicePushers router). \<exists>server. k = getServiceKey server"
    and "CHR '':'' \<notin> set name" and "Router_ConfigNotify locked name c router = Ran (router', ws)"
  shows "r_servicePushers router' = r_servicePushers router"
proof -
  have "CHR '':'' \<in> set (getServiceKey server)" for server by (simp add: getServiceKey_def)
  with assms(1,2) have "map_of (r_servicePushers router) name = None"
    by (auto simp: map_of_eq_None_iff)
  with assms(3) show ?thesis
    by (auto simp: Router_ConfigNotify_def Let_def run_bind_eq_Ran reload_pusher_def split: if_splits)
qed

theorem ConfigNotify_misses_pushers_witness:
  "\<exists>router' ws. Router_ConfigNotify False ''svc'' \<lparr>RouterPart = DefaultServiceRouterConfig, Configs = None\<rparr>
     (new_router\<lparr>r_servicePushers := [(getServiceKey empty_server, \<lparr>sh_server = empty_server, sh_timer =
        \<lparr>tm_period = 5, tm_started = True, tm_ctx = 0, tm_next = 1, tm_loops = [(0, 5)], tm_runs = 1\<rparr>\<rparr>)]\<rparr>) = Ran (router', ws) \<and>
     map (tm_period \<circ> sh_timer \<circ> snd) (r_servicePushers router') = [5]"
proof -
  let ?r = "new_router\<lparr>r_servicePushers := [(getServiceKey empty_server, \<lparr>sh_server = empty_server, sh_timer =
        \<lparr>tm_period = 5, tm_started = True, tm_ctx = 0, tm_next = 1, tm_loops = [(0, 5)], tm_runs = 1\<rparr>\<rparr>)]\<rparr>"
  let ?c = "\<lparr>RouterPart = DefaultServiceRouterConfig, Configs = None\<rparr>"
  have k: "getServiceKey empty_server \<noteq> ''svc''" by (simp add: getServiceKey_def empty_server_def)
  obtain router' ws where n: "Router_ConfigNotify False ''svc'' ?c ?r = Ran (router', ws)"
    using k by (auto simp: Router_ConfigNotify_def Let_def reload_in_def reload_pusher_def new_router_def
        DefaultServiceRouterConfig_def calculateInterval_def calculateTtl_def)
  have "\<forall>(k, sh) \<in> set (r_servicePushers ?r). \<exists>server. k = getServiceKey server" by auto
  from ConfigNotify_misses_pushers [OF this _ n] n show ?thesis by simp
qed

end
