(* ===== verification/Laser_Thrift.thy ===== *)
theory Laser_Thrift
  imports Laser_Strconv
begin

text \<open>
  The data of the thrift interface, from \<^verbatim>\<open>src/sdk/go/laser_client/if/laser/ttypes.go\<close>: the
  statuses with their names, the keys, values and responses with their getters, and the exception a
  server raises. A pointer field is an option; a nil and an empty slice of a response are kept apart,
  as the counting of the fields set does.

  A 64-bit float is its bit pattern: the client only passes it on.
\<close>

section \<open>Statuses\<close>

type_synonym Status = int64

abbreviation (input) Status_OK :: Status where "Status_OK \<equiv> 0"
abbreviation (input) Status_RS_NOT_FOUND :: Status where "Status_RS_NOT_FOUND \<equiv> 1"
abbreviation (input) Status_RS_CORRUPTION :: Status where "Status_RS_CORRUPTION \<equiv> 2"
abbreviation (input) Status_RS_NOT_SUPPORTED :: Status where "Status_RS_NOT_SUPPORTED \<equiv> 3"
abbreviation (input) Status_RS_INVALID_ARGUMENT :: Status where "Status_RS_INVALID_ARGUMENT \<equiv> 4"
abbreviation (input) Status_RS_IO_ERROR :: Status where "Status_RS_IO_ERROR \<equiv> 5"
abbreviation (input) Status_RS_MERGE_INPROGRESS :: Status where "Status_RS_MERGE_INPROGRESS \<equiv> 6"
abbreviation (input) Status_RS_IN_COMPLETE :: Status where "Status_RS_IN_COMPLETE \<equiv> 7"
abbreviation (input) Status_RS_SHUTDOWN_INPROGRESS :: Status where "Status_RS_SHUTDOWN_INPROGRESS \<equiv> 8"
abbreviation (input) Status_RS_TIMEDOUT :: Status where "Status_RS_TIMEDOUT \<equiv> 9"
abbreviation (input) Status_RS_ABORTED :: Status where "Status_RS_ABORTED \<equiv> 10"
abbreviation (input) Status_RS_BUSY :: Status where "Status_RS_BUSY \<equiv> 11"
abbreviation (input) Status_RS_EXPIRED :: Status where "Status_RS_EXPIRED \<equiv> 12"
abbreviation (input) Status_RS_TRYAGAIN :: Status where "Status_RS_TRYAGAIN \<equiv> 13"
abbreviation (input) Status_RS_COMPACTION_TOO_LARGE :: Status where "Status_RS_COMPACTION_TOO_LARGE \<equiv> 14"
abbreviation (input) Status_RS_ERROR :: Status where "Status_RS_ERROR \<equiv> 15"
abbreviation (input) Status_RS_EMPTY :: Status where "Status_RS_EMPTY \<equiv> 16"
abbreviation (input) Status_RS_WRITE_IN_FOLLOWER :: Status where "Status_RS_WRITE_IN_FOLLOWER \<equiv> 17"
abbreviation (input) Status_RS_KEY_EXPIRE :: Status where "Status_RS_KEY_EXPIRE \<equiv> 18"
abbreviation (input) Status_RS_KEY_EXISTS :: Status where "Status_RS_KEY_EXISTS \<equiv> 19"
abbreviation (input) Status_RS_PART_FAILED :: Status where "Status_RS_PART_FAILED \<equiv> 20"
abbreviation (input) Status_RS_TRAFFIC_RESTRICTION :: Status where "Status_RS_TRAFFIC_RESTRICTION \<equiv> 21"
abbreviation (input) Status_RS_OPERATION_DENIED :: Status where "Status_RS_OPERATION_DENIED \<equiv> 22"
abbreviation (input) Status_SERVICE_NOT_EXISTS_PARTITION :: Status where "Status_SERVICE_NOT_EXISTS_PARTITION \<equiv> 101"
abbreviation (input) Status_SERVICE_UNION_DATA_TYPE_INVALID :: Status where "Status_SERVICE_UNION_DATA_TYPE_INVALID \<equiv> 102"
abbreviation (input) Status_CLIENT_THRIFT_CALL_ERROR :: Status where "Status_CLIENT_THRIFT_CALL_ERROR \<equiv> 200"
abbreviation (input) Status_CLIENT_THRIFT_CALL_NO_SHARD_ID :: Status where "Status_CLIENT_THRIFT_CALL_NO_SHARD_ID \<equiv> 201"
abbreviation (input) Status_CLIENT_UNION_DATA_TYPE_INVALID :: Status where "Status_CLIENT_UNION_DATA_TYPE_INVALID \<equiv> 202"
abbreviation (input) Status_CLIENT_THRIFT_CALL_TIMEOUT :: Status where "Status_CLIENT_THRIFT_CALL_TIMEOUT \<equiv> 203"
abbreviation (input) Status_CLIENT_THRIFT_FUTURE_TIMEOUT :: Status where "Status_CLIENT_THRIFT_FUTURE_TIMEOUT \<equiv> 204"
abbreviation (input) Status_RP_SOURCE_NOT_FOUND :: Status where "Status_RP_SOURCE_NOT_FOUND \<equiv> 301"
abbreviation (input) Status_RP_ROLE_ERROR :: Status where "Status_RP_ROLE_ERROR \<equiv> 302"
abbreviation (input) Status_RP_SOURCE_READ_ERROR :: Status where "Status_RP_SOURCE_READ_ERROR \<equiv> 303"
abbreviation (input) Status_RP_SOURCE_DB_REMOVED :: Status where "Status_RP_SOURCE_DB_REMOVED \<equiv> 304"
abbreviation (input) Status_RP_SOURCE_WAL_LOG_REMOVED :: Status where "Status_RP_SOURCE_WAL_LOG_REMOVED \<equiv> 305"
abbreviation (input) Status_GENERATOR_TABLE_NOT_EXISTS :: Status where "Status_GENERATOR_TABLE_NOT_EXISTS \<equiv> 401"
abbreviation (input) Status_GENERATOR_GET_TABLE_LOCK_FAIL :: Status where "Status_GENERATOR_GET_TABLE_LOCK_FAIL \<equiv> 402"
abbreviation (input) Status_GENERATOR_TABLE_PROCESSING :: Status where "Status_GENERATOR_TABLE_PROCESSING \<equiv> 403"
abbreviation (input) Status_GENERATOR_TABLE_SET_QUEUE_FAIL :: Status where "Status_GENERATOR_TABLE_SET_QUEUE_FAIL \<equiv> 404"
abbreviation (input) Status_GENERATOR_TABLE_SET_HASH_FAIL :: Status where "Status_GENERATOR_TABLE_SET_HASH_FAIL \<equiv> 405"
abbreviation (input) Status_GENERATOR_TABLE_SET_LOCK_FAIL :: Status where "Status_GENERATOR_TABLE_SET_LOCK_FAIL \<equiv> 406"
abbreviation (input) Status_GENERATOR_TABLE_DEL_LOCK_FAIL :: Status where "Status_GENERATOR_TABLE_DEL_LOCK_FAIL \<equiv> 407"
abbreviation (input) Status_GENERATOR_TABLE_DEL_QUEUE_FAIL :: Status where "Status_GENERATOR_TABLE_DEL_QUEUE_FAIL \<equiv> 408"
abbreviation (input) Status_UNKNOWN_ERROR :: Status where "Status_UNKNOWN_ERROR \<equiv> 10000"

definition StatusToName :: "(Status \<times> string) list" where
  "StatusToName =
    [(Status_OK, ''OK''),
     (Status_RS_NOT_FOUND, ''RS_NOT_FOUND''),
     (Status_RS_CORRUPTION, ''RS_CORRUPTION''),
     (Status_RS_NOT_SUPPORTED, ''RS_NOT_SUPPORTED''),
     (Status_RS_INVALID_ARGUMENT, ''RS_INVALID_ARGUMENT''),
     (Status_RS_IO_ERROR, ''RS_IO_ERROR''),
     (Status_RS_MERGE_INPROGRESS, ''RS_MERGE_INPROGRESS''),
     (Status_RS_IN_COMPLETE, ''RS_IN_COMPLETE''),
     (Status_RS_SHUTDOWN_INPROGRESS, ''RS_SHUTDOWN_INPROGRESS''),
     (Status_RS_TIMEDOUT, ''RS_TIMEDOUT''),
     (Status_RS_ABORTED, ''RS_ABORTED''),
     (Status_RS_BUSY, ''RS_BUSY''),
     (Status_RS_EXPIRED, ''RS_EXPIRED''),
     (Status_RS_TRYAGAIN, ''RS_TRYAGAIN''),
     (Status_RS_COMPACTION_TOO_LARGE, ''RS_COMPACTION_TOO_LARGE''),
     (Status_RS_ERROR, ''RS_ERROR''),
     (Status_RS_EMPTY, ''RS_EMPTY''),
     (Status_RS_WRITE_IN_FOLLOWER, ''RS_WRITE_IN_FOLLOWER''),
     (Status_RS_KEY_EXPIRE, ''RS_KEY_EXPIRE''),
     (Status_RS_KEY_EXISTS, ''RS_KEY_EXISTS''),
     (Status_RS_PART_FAILED, ''RS_PART_FAILED''),
     (Status_RS_TRAFFIC_RESTRICTION, ''RS_TRAFFIC_RESTRICTION''),
     (Status_RS_OPERATION_DENIED, ''RS_OPERATION_DENIED''),
     (Status_SERVICE_NOT_EXISTS_PARTITION, ''SERVICE_NOT_EXISTS_PARTITION''),
     (Status_SERVICE_UNION_DATA_TYPE_INVALID, ''SERVICE_UNION_DATA_TYPE_INVALID''),
     (Status_CLIENT_THRIFT_CALL_ERROR, ''CLIENT_THRIFT_CALL_ERROR''),
     (Status_CLIENT_THRIFT_CALL_NO_SHARD_ID, ''CLIENT_THRIFT_CALL_NO_SHARD_ID''),
     (Status_CLIENT_UNION_DATA_TYPE_INVALID, ''CLIENT_UNION_DATA_TYPE_INVALID''),
     (Status_CLIENT_THRIFT_CALL_TIMEOUT, ''CLIENT_THRIFT_CALL_TIMEOUT''),
     (Status_CLIENT_THRIFT_FUTURE_TIMEOUT, ''CLIENT_THRIFT_FUTURE_TIMEOUT''),
     (Status_RP_SOURCE_NOT_FOUND, ''RP_SOURCE_NOT_FOUND''),
     (Status_RP_ROLE_ERROR, ''RP_ROLE_ERROR''),
     (Status_RP_SOURCE_READ_ERROR, ''RP_SOURCE_READ_ERROR''),
     (Status_RP_SOURCE_DB_REMOVED, ''RP_SOURCE_DB_REMOVED''),
     (Status_RP_SOURCE_WAL_LOG_REMOVED, ''RP_SOURCE_WAL_LOG_REMOVED''),
     (Status_GENERATOR_TABLE_NOT_EXISTS, ''GENERATOR_TABLE_NOT_EXISTS''),
     (Status_GENERATOR_GET_TABLE_LOCK_FAIL, ''GENERATOR_GET_TABLE_LOCK_FAIL''),
     (Status_GENERATOR_TABLE_PROCESSING, ''GENERATOR_TABLE_PROCESSING''),
     (Status_GENERATOR_TABLE_SET_QUEUE_FAIL, ''GENERATOR_TABLE_SET_QUEUE_FAIL''),
     (Status_GENERATOR_TABLE_SET_HASH_FAIL, ''GENERATOR_TABLE_SET_HASH_FAIL''),
     (Status_GENERATOR_TABLE_SET_LOCK_FAIL, ''GENERATOR_TABLE_SET_LOCK_FAIL''),
     (Status_GENERATOR_TABLE_DEL_LOCK_FAIL, ''GENERATOR_TABLE_DEL_LOCK_FAIL''),
     (Status_GENERATOR_TABLE_DEL_QUEUE_FAIL, ''GENERATOR_TABLE_DEL_QUEUE_FAIL''),
     (Status_UNKNOWN_ERROR, ''UNKNOWN_ERROR'')]"

definition StatusToValue :: "(string \<times> Status) list" where
  "StatusToValue =
    [(''OK'', Status_OK),
     (''RS_NOT_FOUND'', Status_RS_NOT_FOUND),
     (''RS_CORRUPTION'', Status_RS_CORRUPTION),
     (''RS_NOT_SUPPORTED'', Status_RS_NOT_SUPPORTED),
     (''RS_INVALID_ARGUMENT'', Status_RS_INVALID_ARGUMENT),
     (''RS_IO_ERROR'', Status_RS_IO_ERROR),
     (''RS_MERGE_INPROGRESS'', Status_RS_MERGE_INPROGRESS),
     (''RS_IN_COMPLETE'', Status_RS_IN_COMPLETE),
     (''RS_SHUTDOWN_INPROGRESS'', Status_RS_SHUTDOWN_INPROGRESS),
     (''RS_TIMEDOUT'', Status_RS_TIMEDOUT),
     (''RS_ABORTED'', Status_RS_ABORTED),
     (''RS_BUSY'', Status_RS_BUSY),
     (''RS_EXPIRED'', Status_RS_EXPIRED),
     (''RS_TRYAGAIN'', Status_RS_TRYAGAIN),
     (''RS_COMPACTION_TOO_LARGE'', Status_RS_COMPACTION_TOO_LARGE),
     (''RS_ERROR'', Status_RS_ERROR),
     (''RS_EMPTY'', Status_RS_EMPTY),
     (''RS_WRITE_IN_FOLLOWER'', Status_RS_WRITE_IN_FOLLOWER),
     (''RS_KEY_EXPIRE'', Status_RS_KEY_EXPIRE),
     (''RS_KEY_EXISTS'', Status_RS_KEY_EXISTS),
     (''RS_PART_FAILED'', Status_RS_PART_FAILED),
     (''RS_TRAFFIC_RESTRICTION'', Status_RS_TRAFFIC_RESTRICTION),
     (''RS_OPERATION_DENIED'', Status_RS_OPERATION_DENIED),
     (''SERVICE_NOT_EXISTS_PARTITION'', Status_SERVICE_NOT_EXISTS_PARTITION),
     (''SERVICE_UNION_DATA_TYPE_INVALID'', Status_SERVICE_UNION_DATA_TYPE_INVALID),
     (''CLIENT_THRIFT_CALL_ERROR'', Status_CLIENT_THRIFT_CALL_ERROR),
     (''CLIENT_THRIFT_CALL_NO_SHARD_ID'', Status_CLIENT_THRIFT_CALL_NO_SHARD_ID),
     (''CLIENT_UNION_DATA_TYPE_INVALID'', Status_CLIENT_UNION_DATA_TYPE_INVALID),
     (''CLIENT_THRIFT_CALL_TIMEOUT'', Status_CLIENT_THRIFT_CALL_TIMEOUT),
     (''CLIENT_THRIFT_FUTURE_TIMEOUT'', Status_CLIENT_THRIFT_FUTURE_TIMEOUT),
     (''RP_SOURCE_NOT_FOUND'', Status_RP_SOURCE_NOT_FOUND),
     (''RP_ROLE_ERROR'', Status_RP_ROLE_ERROR),
     (''RP_SOURCE_READ_ERROR'', Status_RP_SOURCE_READ_ERROR),
     (''RP_SOURCE_DB_REMOVED'', Status_RP_SOURCE_DB_REMOVED),
     (''RP_SOURCE_WAL_LOG_REMOVED'', Status_RP_SOURCE_WAL_LOG_REMOVED),
     (''GENERATOR_TABLE_NOT_EXISTS'', Status_GENERATOR_TABLE_NOT_EXISTS),
     (''GENERATOR_GET_TABLE_LOCK_FAIL'', Status_GENERATOR_GET_TABLE_LOCK_FAIL),
     (''GENERATOR_TABLE_PROCESSING'', Status_GENERATOR_TABLE_PROCESSING),
     (''GENERATOR_TABLE_SET_QUEUE_FAIL'', Status_GENERATOR_TABLE_SET_QUEUE_FAIL),
     (''GENERATOR_TABLE_SET_HASH_FAIL'', Status_GENERATOR_TABLE_SET_HASH_FAIL),
     (''GENERATOR_TABLE_SET_LOCK_FAIL'', Status_GENERATOR_TABLE_SET_LOCK_FAIL),
     (''GENERATOR_TABLE_DEL_LOCK_FAIL'', Status_GENERATOR_TABLE_DEL_LOCK_FAIL),
     (''GENERATOR_TABLE_DEL_QUEUE_FAIL'', Status_GENERATOR_TABLE_DEL_QUEUE_FAIL),
     (''UNKNOWN_ERROR'', Status_UNKNOWN_ERROR)]"

definition Status_String :: "Status \<Rightarrow> string" where
  "Status_String p = (case map_of StatusToName p of Some v \<Rightarrow> v | None \<Rightarrow> ''<UNSET>'')"

definition StatusFromString :: "string \<Rightarrow> Status \<times> string option" where
  "StatusFromString s =
     (case map_of StatusToValue s of Some v \<Rightarrow> (v, None) | None \<Rightarrow> (0, Some ''not a valid Status string''))"

section \<open>Keys and values\<close>

type_synonym float64 = "64 word"

record LaserKey =
  lk_DatabaseName :: string
  lk_TableName :: string
  lk_PrimaryKeys :: "string list"
  lk_ColumnKeys :: "string list"

record EntryValue =
  ev_Status :: Status
  ev_StringValue :: string

record LaserValue =
  lv_StringValue :: "string option"
  lv_MapValue :: "(string, string) gomap option"
  lv_NullValue :: "bool option"
  lv_MemberScoreValue :: "(string, int64) gomap option"
  lv_EntryValue :: "EntryValue option"

definition NewLaserValue :: LaserValue where
  "NewLaserValue = \<lparr>lv_StringValue = None, lv_MapValue = None, lv_NullValue = None,
     lv_MemberScoreValue = None, lv_EntryValue = None\<rparr>"

record LaserKV =
  kv_Key :: "LaserKey option"
  kv_Value :: "LaserValue option"

record LaserSetOption =
  so_NotExists :: bool
  so_Ttl :: int64

record LaserScoreMember =
  sm_Score :: int64
  sm_Member :: string

record LaserException =
  ex_Message :: string
  ex_Status :: Status

definition CountSetFieldsLaserValue :: "LaserValue \<Rightarrow> nat" where
  "CountSetFieldsLaserValue p =
     (if lv_StringValue p \<noteq> None then 1 else 0) + (if lv_MapValue p \<noteq> None then 1 else 0) +
     (if lv_NullValue p \<noteq> None then 1 else 0) + (if lv_MemberScoreValue p \<noteq> None then 1 else 0) +
     (if lv_EntryValue p \<noteq> None then 1 else 0)"

section \<open>Responses\<close>

record LaserResponse =
  lr_IntData :: "int64 option"
  lr_StringData :: "string option"
  lr_ListIntData :: "int64 list option"
  lr_ListStringData :: "string list option"
  lr_ListValueData :: "LaserValue list option"
  lr_MapStringData :: "(string, string) gomap option"
  lr_MapValueData :: "(string, LaserValue) gomap option"
  lr_BoolData :: "bool option"
  lr_ListScoreMemberData :: "LaserScoreMember list option"

definition NewLaserResponse :: LaserResponse where
  "NewLaserResponse = \<lparr>lr_IntData = None, lr_StringData = None, lr_ListIntData = None,
     lr_ListStringData = None, lr_ListValueData = None, lr_MapStringData = None, lr_MapValueData = None,
     lr_BoolData = None, lr_ListScoreMemberData = None\<rparr>"

definition GetIntData :: "LaserResponse \<Rightarrow> int64" where
  "GetIntData p = (case lr_IntData p of None \<Rightarrow> 0 | Some v \<Rightarrow> v)"

definition GetStringData :: "LaserResponse \<Rightarrow> string" where
  "GetStringData p = (case lr_StringData p of None \<Rightarrow> [] | Some v \<Rightarrow> v)"

definition GetBoolData :: "LaserResponse \<Rightarrow> bool" where
  "GetBoolData p = (case lr_BoolData p of None \<Rightarrow> False | Some v \<Rightarrow> v)"

text \<open>The other getters return the slice or map itself, which is read like the empty one if it is nil.\<close>

definition unnil :: "'a list option \<Rightarrow> 'a list" where
  "unnil m = (case m of None \<Rightarrow> [] | Some v \<Rightarrow> v)"

definition GetListIntData :: "LaserResponse \<Rightarrow> int64 list" where
  "GetListIntData p = unnil (lr_ListIntData p)"

definition GetListStringData :: "LaserResponse \<Rightarrow> string list" where
  "GetListStringData p = unnil (lr_ListStringData p)"

definition GetListValueData :: "LaserResponse \<Rightarrow> LaserValue list" where
  "GetListValueData p = unnil (lr_ListValueData p)"

definition GetMapStringData :: "LaserResponse \<Rightarrow> (string, string) gomap" where
  "GetMapStringData p = unnil (lr_MapStringData p)"

definition CountSetFieldsLaserResponse :: "LaserResponse \<Rightarrow> nat" where
  "CountSetFieldsLaserResponse p =
     (if lr_IntData p \<noteq> None then 1 else 0) + (if lr_StringData p \<noteq> None then 1 else 0) +
     (if lr_ListIntData p \<noteq> None then 1 else 0) + (if lr_ListStringData p \<noteq> None then 1 else 0) +
     (if lr_ListValueData p \<noteq> None then 1 else 0) + (if lr_MapStringData p \<noteq> None then 1 else 0) +
     (if lr_MapValueData p \<noteq> None then 1 else 0) + (if lr_BoolData p \<noteq> None then 1 else 0) +
     (if lr_ListScoreMemberData p \<noteq> None then 1 else 0)"

lemmas getter_defs = GetIntData_def GetStringData_def GetBoolData_def GetListIntData_def
  GetListStringData_def GetListValueData_def GetMapStringData_def unnil_def

lemma new_response [simp]:
  "GetIntData NewLaserResponse = 0" "GetStringData NewLaserResponse = []" "GetBoolData NewLaserResponse = False"
  "GetListIntData NewLaserResponse = []" "GetListStringData NewLaserResponse = []"
  "GetListValueData NewLaserResponse = []" "GetMapStringData NewLaserResponse = []"
  by (simp_all add: getter_defs NewLaserResponse_def)

section \<open>The names of the statuses\<close>

lemma name_tables: "map (\<lambda>(s, n). (n, s)) StatusToName = StatusToValue"
  by (simp add: StatusToName_def StatusToValue_def)

lemma names_distinct: "distinct (map fst StatusToName)" "distinct (map fst StatusToValue)"
  by (simp_all add: StatusToName_def StatusToValue_def)

lemma unset_unnamed: "''<UNSET>'' \<notin> set (map fst StatusToValue)"
  by (simp add: StatusToValue_def)

lemma names_swap: "map_of StatusToValue n = Some p \<longleftrightarrow> map_of StatusToName p = Some n"
proof -
  have "map_of StatusToValue n = Some p \<longleftrightarrow> (n, p) \<in> set (map (\<lambda>(s, n). (n, s)) StatusToName)"
    using names_distinct(2) by (simp add: map_of_eq_Some_iff name_tables)
  also have "\<dots> \<longleftrightarrow> (p, n) \<in> set StatusToName" by auto
  finally show ?thesis using names_distinct(1) by (simp add: map_of_eq_Some_iff)
qed

text \<open>Printing and reading a status are inverse: a string is read as a status exactly when it is what
  that status is printed as, for the statuses that have a name.\<close>

theorem Status_round_trip:
  "StatusFromString s = (p, None) \<longleftrightarrow> Status_String p = s \<and> map_of StatusToName p \<noteq> None"
proof -
  have "StatusFromString s = (p, None) \<longleftrightarrow> map_of StatusToValue s = Some p"
    by (auto simp: StatusFromString_def split: option.splits)
  then show ?thesis by (auto simp: names_swap Status_String_def)
qed

end
