(* ===== verification/Laser_Client.thy ===== *)
theory Laser_Client
  imports Laser_Config Laser_Conn Laser_Router Laser_Thrift
begin

text \<open>
  The client of the store, from \<^verbatim>\<open>src/sdk/go/laser_client/laser_client.go\<close>: the options of a
  call, the route of a key, the call with its two retry loops, and the operations on one key.

  What lies beyond the client is the record \<open>ClientEnv\<close>, an argument of every call: the environment of
  the router, the entropy of the load balancers, and \<open>ce_net\<close>, which says how the attempt with a given
  number of a request to a given server ends. The request is the call on the thrift client that the
  operation's closure makes. A server that answers after the timeout of an attempt is not followed
  further. Timers and the metrics of the pools have no effect on the results and are left out.
\<close>

section \<open>Options\<close>

type_synonym ReadMode = int

abbreviation (input) LEADER_READ :: ReadMode where "LEADER_READ \<equiv> 0"
abbreviation (input) FOLLOWER_READ :: ReadMode where "FOLLOWER_READ \<equiv> 1"
abbreviation (input) MIXED_READ :: ReadMode where "MIXED_READ \<equiv> 2"

abbreviation (input) defaultReceiveTimeoutMs :: int where "defaultReceiveTimeoutMs \<equiv> 20"

record LaserClientOption =
  lo_MaxConnPerServer :: int
  lo_ConnIdleTimeoutMs :: int
  lo_ReceiveTimeoutMs :: int
  lo_ConnectionRetry :: int
  lo_TimeoutRetry :: int
  lo_ThriftTransport :: string
  lo_ThriftCompressionMethod :: uint32
  lo_LoadBalance :: string
  lo_IpDiffRange :: int64
  lo_ReadMode :: ReadMode
  lo_TargetServerAddress :: ServerAddress

definition Validate :: "LaserClientOption \<Rightarrow> string option" where
  "Validate co =
     (if lo_MaxConnPerServer co < 0 then Some ''option MaxConnPerServer can not be negative''
      else if lo_ConnIdleTimeoutMs co < 0 then Some ''option ConnIdleTimeoutMs can not be negative''
      else if lo_ReceiveTimeoutMs co < 0 then Some ''option.ReceiveTimeoutMs can not be negative''
      else if lo_TimeoutRetry co < 0 then Some ''option TimeoutRetry can not be negative''
      else if SupportedLoadBalanceMethod (lo_LoadBalance co) \<noteq> Some True then Some ''unsupported loadbalance method''
      else None)"

definition NewClientOptionFactory :: "int \<Rightarrow> string \<Rightarrow> int \<Rightarrow> LaserClientOption" where
  "NewClientOptionFactory numCPU loadBalance timeoutMs =
     \<lparr>lo_MaxConnPerServer = numCPU, lo_ConnIdleTimeoutMs = 0, lo_ReceiveTimeoutMs = timeoutMs,
      lo_ConnectionRetry = 0, lo_TimeoutRetry = 0, lo_ThriftTransport = THRIFT_TRANSPORT_HEADER,
      lo_ThriftCompressionMethod = 0, lo_LoadBalance = loadBalance, lo_IpDiffRange = 65536,
      lo_ReadMode = FOLLOWER_READ, lo_TargetServerAddress = \<lparr>AddrHost = [], AddrPort = 0\<rparr>\<rparr>"

section \<open>Requests and their outcome\<close>

datatype request =
    RqDelkey LaserKey
  | RqExpire LaserKey int64
  | RqExpireAt LaserKey int64
  | RqTtl LaserKey
  | RqAppend LaserKey string
  | RqGet LaserKey
  | RqSset LaserKV
  | RqSetx LaserKV LaserSetOption
  | RqMget "LaserKey list"
  | RqMset "LaserKV list"
  | RqMgetDetail "LaserKey list"
  | RqMsetDetail "LaserKV list" LaserSetOption
  | RqExist LaserKey
  | RqDecr LaserKey
  | RqIncr LaserKey
  | RqDecrBy LaserKey int64
  | RqIncrBy LaserKey int64
  | RqHdel LaserKey string
  | RqHexists LaserKey string
  | RqHget LaserKey string
  | RqHset LaserKey string string
  | RqHgetall LaserKey
  | RqHkeys LaserKey
  | RqHlen LaserKey
  | RqHmget LaserKey "string list"
  | RqHmset LaserKey LaserValue
  | RqLindex LaserKey int32
  | RqLlen LaserKey
  | RqLpop LaserKey
  | RqLpush LaserKey string
  | RqLrange LaserKey int32 int32
  | RqRpop LaserKey
  | RqRpush LaserKey string
  | RqSadd LaserKey string
  | RqSismember LaserKey string
  | RqSremove LaserKey string
  | RqSmembers LaserKey
  | RqZadd LaserKey "(string, float64) gomap"

datatype exception = LaserExc LaserException | OtherExc go_error

datatype attempt = NoConnection go_error | TimedOut | Raised exception | Replied LaserResponse

record callResp =
  cr_idxes :: "nat list"
  cr_status :: Status
  cr_resp :: LaserResponse

definition error_resp :: "Status \<Rightarrow> callResp" where
  "error_resp status = \<lparr>cr_idxes = [], cr_status = status, cr_resp = NewLaserResponse\<rparr>"

section \<open>State and environment\<close>

record LaserClient =
  lc_laserServiceName :: string
  lc_localIp :: string
  lc_router :: Router
  lc_cg :: ConnGroup
  lc_configManager :: ConfigManager
  lc_meters :: "string \<Rightarrow> nat"

record ClientEnv =
  ce_fuel :: nat
  ce_env :: Env
  ce_user :: user_select
  ce_rand :: "nat \<Rightarrow> nat \<Rightarrow> nat"
  ce_numCPU :: int
  ce_net :: "nat \<Rightarrow> ThriftConfig \<Rightarrow> request \<Rightarrow> attempt"

abbreviation (input) LASER_CLIENT_METRIC_CALL_SERVER_TIMES :: string where
  "LASER_CLIENT_METRIC_CALL_SERVER_TIMES \<equiv> ''call_server_times''"
abbreviation (input) LASER_CLIENT_THRIFT_CALL_RS_NOT_FOUND :: string where
  "LASER_CLIENT_THRIFT_CALL_RS_NOT_FOUND \<equiv> ''laser_client_thrift_call_rs_not_found''"
abbreviation (input) LASER_CLIENT_THRIFT_CALL_RS_KEY_EXPIRE :: string where
  "LASER_CLIENT_THRIFT_CALL_RS_KEY_EXPIRE \<equiv> ''laser_client_thrift_call_rs_key_expire''"
abbreviation (input) LASER_CLIENT_THRIFT_CALL_TIMEOUT :: string where
  "LASER_CLIENT_THRIFT_CALL_TIMEOUT \<equiv> ''laser_client_thrift_call_timeout''"
abbreviation (input) LASER_CLIENT_THRIFT_CALL_ERROR :: string where
  "LASER_CLIENT_THRIFT_CALL_ERROR \<equiv> ''laser_client_thrift_call_error''"
abbreviation (input) LASER_CLIENT_THRIFT_GET_STATUS_ERROR :: string where
  "LASER_CLIENT_THRIFT_GET_STATUS_ERROR \<equiv> ''laser_client_thrift_get_status_error''"
abbreviation (input) LASER_CLIENT_GET_CONNECTION_ERROR :: string where
  "LASER_CLIENT_GET_CONNECTION_ERROR \<equiv> ''laser_client_get_connection_error''"

definition mark :: "string \<Rightarrow> LaserClient \<Rightarrow> LaserClient" where
  "mark m client = client\<lparr>lc_meters := (lc_meters client)(m := lc_meters client m + 1)\<rparr>"

definition parseException :: "exception \<Rightarrow> LaserClient \<Rightarrow> Status \<times> LaserClient" where
  "parseException e client =
     (let (status, client) = (case e of
            LaserExc x \<Rightarrow> (ex_Status x, client)
          | OtherExc x \<Rightarrow> (Status_CLIENT_THRIFT_CALL_ERROR, mark LASER_CLIENT_THRIFT_GET_STATUS_ERROR client))
      in (status,
          if status = Status_RS_KEY_EXPIRE then mark LASER_CLIENT_THRIFT_CALL_RS_KEY_EXPIRE client
          else if status = Status_RS_NOT_FOUND then mark LASER_CLIENT_THRIFT_CALL_RS_NOT_FOUND client
          else mark LASER_CLIENT_THRIFT_CALL_ERROR client))"

section \<open>Routing\<close>

definition GetShardIdAndParititionId :: "cityhash \<Rightarrow> LaserKey \<Rightarrow> LaserClient \<Rightarrow> (int64 \<times> uint32) go" where
  "GetShardIdAndParititionId city key client =
     (case GetTableSchema city (lc_configManager client) (lk_DatabaseName key) (lk_TableName key) of
        None \<Rightarrow> Inr (0, 0)
      | Some schema \<Rightarrow>
          go_bind (GetPartitionId city (lk_DatabaseName key) (lk_TableName key)
                     (NewLaserKeyFormat (lk_PrimaryKeys key) (lk_ColumnKeys key)) (ts_PartitionNumber schema))
            (\<lambda>partitionId.
               let partition = NewPartition (lk_DatabaseName key) (lk_TableName key) partitionId
               in go_bind (GetShardId city partition (lc_configManager client) (ts_Dc schema))
                    (\<lambda>shardId. Inr (shardId, partitionId))))"

record route_info =
  ri_shardId :: int64
  ri_partitionHash :: int64
  ri_routeToEdgeNode :: bool
  ri_dc :: string

text \<open>The argument \<open>rnd\<close> is the number \<open>rand.Intn(100)\<close> draws.\<close>

definition getRouteInfo :: "cityhash \<Rightarrow> nat \<Rightarrow> LaserKey \<Rightarrow> ReadMode \<Rightarrow> LaserClient \<Rightarrow> route_info go" where
  "getRouteInfo city rnd key readMode client =
     (case GetTableSchema city (lc_configManager client) (lk_DatabaseName key) (lk_TableName key) of
        None \<Rightarrow> Inr \<lparr>ri_shardId = 0, ri_partitionHash = 0, ri_routeToEdgeNode = False, ri_dc = DEFAULT_DC\<rparr>
      | Some schema \<Rightarrow>
          go_bind (GetPartitionId city (lk_DatabaseName key) (lk_TableName key)
                     (NewLaserKeyFormat (lk_PrimaryKeys key) (lk_ColumnKeys key)) (ts_PartitionNumber schema))
            (\<lambda>partitionId.
               let partition = NewPartition (lk_DatabaseName key) (lk_TableName key) partitionId
               in go_bind (GetShardId city partition (lc_configManager client) (ts_Dc schema))
                    (\<lambda>shardId. Inr \<lparr>ri_shardId = shardId, ri_partitionHash = GetPartitionHash city partition,
                       ri_routeToEdgeNode = (ts_BindEdgeNodes schema \<noteq> None \<and> readMode \<noteq> LEADER_READ \<and>
                         int (rnd mod 100) < sint (ts_EdgeFlowRatio schema)),
                       ri_dc = ts_Dc schema\<rparr>)))"

definition getClientOption :: "LaserClient \<Rightarrow> LaserClientOption \<Rightarrow> route_info \<Rightarrow> ClientOption" where
  "getClientOption client options info =
     \<lparr>co_ServiceName = lc_laserServiceName client, co_ShardId = ri_shardId info,
      co_ShardType = (if lo_ReadMode options = LEADER_READ then ShardType_LEADER
                      else if lo_ReadMode options = FOLLOWER_READ then ShardType_FOLLOWER
                      else if lo_ReadMode options = MIXED_READ then ShardType_ALL else []),
      co_Protocol = ServerProtocol_THRIFT, co_Loadbalance = lo_LoadBalance options,
      co_TargetServerAddress = lo_TargetServerAddress options, co_UserBalance = None,
      co_LocalFirstConfig = \<lparr>LocalIp = lc_localIp client, DiffRange = lo_IpDiffRange options\<rparr>,
      co_PartitionHash = ri_partitionHash info, co_RouteToEdgeNode = ri_routeToEdgeNode info,
      co_Idc = [], co_Dc = ri_dc info\<rparr>"

section \<open>The call\<close>

definition checkTargetServerAddress :: "ServerAddress \<Rightarrow> bool" where
  "checkTargetServerAddress address \<longleftrightarrow> 0 < length (AddrHost address) \<and> 0 < AddrPort address"

text \<open>The loop between the label \<open>GETCONN\<close> and its \<open>goto\<close>.\<close>

function getconn_loop ::
  "ClientEnv \<Rightarrow> (nat \<Rightarrow> nat) \<Rightarrow> ClientOption \<Rightarrow> int \<Rightarrow> int \<Rightarrow> Router \<Rightarrow> (Server option \<times> Router) run" where
  "getconn_loop P rand option connectionRetry connectTimes router =
     run_bind (Router_Discover (ce_fuel P) (ce_env P) (ce_user P) (rand (nat connectTimes)) option router)
       (\<lambda>(server, router).
          if server = None \<and> connectTimes \<le> connectionRetry
          then getconn_loop P rand option connectionRetry (connectTimes + 1) router
          else Ran (server, router))"
  by pat_completeness auto
termination
  by (relation "measure (\<lambda>(P, rand, option, retry, times, router). nat (retry + 1 - times))") auto

declare getconn_loop.simps [simp del]

definition pick_server ::
  "ClientEnv \<Rightarrow> LaserClientOption \<Rightarrow> ClientOption \<Rightarrow> int \<Rightarrow> LaserClient \<Rightarrow> (Server option \<times> LaserClient) run" where
  "pick_server P options routerOption callTimes client =
     (if checkTargetServerAddress (lo_TargetServerAddress options) then
        let server = empty_server\<lparr>Host := AddrHost (lo_TargetServerAddress options),
                                  Port := AddrPort (lo_TargetServerAddress options)\<rparr>
        in Ran (Some server, client\<lparr>lc_router := count_selection (Some server) (lc_router client)\<rparr>)
      else run_bind (getconn_loop P (ce_rand P (nat callTimes)) routerOption (lo_ConnectionRetry options) 1 (lc_router client))
             (\<lambda>(server, router). Ran (server, client\<lparr>lc_router := router\<rparr>)))"

definition thriftConfig :: "LaserClientOption \<Rightarrow> Server \<Rightarrow> ThriftConfig" where
  "thriftConfig options server =
     \<lparr>cfg_Host = Host server, cfg_Port = uint (Port server), cfg_TransportType = lo_ThriftTransport options,
      cfg_CompressionMethod = lo_ThriftCompressionMethod options\<rparr>"

definition pool_options :: "LaserClientOption \<Rightarrow> PoolOption list" where
  "pool_options options = [PoolMaxActive (lo_MaxConnPerServer options), PoolWait False,
     PoolIdleTimeout (lo_ConnIdleTimeoutMs options * 1000000)]"

text \<open>The loop between the label \<open>RETRY\<close> and its \<open>goto\<close>. The connection comes from the pool the
  group returns, which dials the configuration it was created with.\<close>

function call_loop ::
  "ClientEnv \<Rightarrow> LaserClientOption \<Rightarrow> ClientOption \<Rightarrow> request \<Rightarrow> int \<Rightarrow> LaserClient \<Rightarrow> (callResp \<times> LaserClient) run" where
  "call_loop P options routerOption rq callTimes client =
     run_bind (pick_server P options routerOption callTimes client) (\<lambda>(server, client).
       case server of
         None \<Rightarrow> Ran (error_resp Status_CLIENT_THRIFT_CALL_ERROR, client)
       | Some server \<Rightarrow>
           let ((config, pool), cg) = GetConnection_pool (ce_numCPU P) (thriftConfig options server)
                 (pool_options options) (lc_cg client);
               client = client\<lparr>lc_cg := cg\<rparr>;
               called = mark LASER_CLIENT_METRIC_CALL_SERVER_TIMES client
           in case ce_net P (nat callTimes) config rq of
                NoConnection e \<Rightarrow>
                  Ran (error_resp Status_CLIENT_THRIFT_CALL_ERROR, mark LASER_CLIENT_GET_CONNECTION_ERROR client)
              | Raised e \<Rightarrow> (case parseException e called of (status, client) \<Rightarrow> Ran (error_resp status, client))
              | Replied resp \<Rightarrow> Ran (\<lparr>cr_idxes = [], cr_status = Status_OK, cr_resp = resp\<rparr>, called)
              | TimedOut \<Rightarrow>
                  let client = mark LASER_CLIENT_THRIFT_CALL_TIMEOUT called
                  in if callTimes \<le> lo_TimeoutRetry options
                     then call_loop P options routerOption rq (callTimes + 1) client
                     else Ran (error_resp Status_CLIENT_THRIFT_CALL_TIMEOUT, client))"
  by pat_completeness auto
termination
  by (relation "measure (\<lambda>(P, options, ro, rq, times, client). nat (lo_TimeoutRetry options + 1 - times))") auto

declare call_loop.simps [simp del]

definition commonCallWithRouteId ::
  "ClientEnv \<Rightarrow> route_info \<Rightarrow> LaserClientOption \<Rightarrow> request \<Rightarrow> LaserClient \<Rightarrow> (callResp \<times> LaserClient) run" where
  "commonCallWithRouteId P info options rq client =
     (let routerOption = getClientOption client options info;
          options = (if lo_ReceiveTimeoutMs options \<le> 0
                     then options\<lparr>lo_ReceiveTimeoutMs := defaultReceiveTimeoutMs\<rparr> else options)
      in call_loop P options routerOption rq 1 client)"

definition commonCall ::
  "ClientEnv \<Rightarrow> LaserKey \<Rightarrow> LaserClientOption \<Rightarrow> request \<Rightarrow> LaserClient \<Rightarrow> (callResp \<times> LaserClient) run" where
  "commonCall P key options rq client =
     run_bind (of_go (getRouteInfo (e_city (ce_env P)) (ce_rand P 0 0) key (lo_ReadMode options) client))
       (\<lambda>info. commonCallWithRouteId P info options rq client)"

section \<open>Operations on one key\<close>

definition leader_read :: "LaserClientOption \<Rightarrow> LaserClientOption" where
  "leader_read options = options\<lparr>lo_ReadMode := LEADER_READ\<rparr>"

definition answer :: "(callResp \<Rightarrow> 'a) \<Rightarrow> (callResp \<times> LaserClient) run \<Rightarrow> ('a \<times> LaserClient) run" where
  "answer f r = run_bind r (\<lambda>(resp, client). Ran (f resp, client))"

abbreviation (input) status_of :: "callResp \<Rightarrow> Status" where
  "status_of \<equiv> cr_status"

definition with_data :: "(LaserResponse \<Rightarrow> 'a) \<Rightarrow> callResp \<Rightarrow> Status \<times> 'a" where
  "with_data get resp = (cr_status resp, get (cr_resp resp))"

definition with_key :: "LaserKV \<Rightarrow> (LaserKey \<Rightarrow> 'a run) \<Rightarrow> 'a run" where
  "with_key kv f = (case kv_Key kv of None \<Rightarrow> Panicked NilDereference | Some key \<Rightarrow> f key)"


definition SetSync ::
  "ClientEnv \<Rightarrow> LaserClientOption \<Rightarrow> LaserKV \<Rightarrow> LaserClient \<Rightarrow> (Status \<times> LaserClient) run" where
  "SetSync P clientOption kv client =
     with_key kv (\<lambda>key. answer status_of (commonCall P key (leader_read clientOption) (RqSset kv) client))"

definition AppendSync ::
  "ClientEnv \<Rightarrow> LaserClientOption \<Rightarrow> LaserKey \<Rightarrow> string \<Rightarrow> LaserClient \<Rightarrow> ((Status \<times> int64) \<times> LaserClient) run" where
  "AppendSync P clientOption key val client =
     answer (with_data GetIntData) (commonCall P key (leader_read clientOption) (RqAppend key val) client)"

definition SetxSync ::
  "ClientEnv \<Rightarrow> LaserClientOption \<Rightarrow> LaserKV \<Rightarrow> LaserSetOption \<Rightarrow> LaserClient \<Rightarrow> (Status \<times> LaserClient) run" where
  "SetxSync P clientOption kv setOption client =
     with_key kv (\<lambda>key. answer status_of (commonCall P key (leader_read clientOption) (RqSetx kv setOption) client))"

definition ExpireSync ::
  "ClientEnv \<Rightarrow> LaserClientOption \<Rightarrow> LaserKey \<Rightarrow> int64 \<Rightarrow> LaserClient \<Rightarrow> (Status \<times> LaserClient) run" where
  "ExpireSync P clientOption key t client =
     answer status_of (commonCall P key (leader_read clientOption) (RqExpire key t) client)"

definition ExpireAtSync ::
  "ClientEnv \<Rightarrow> LaserClientOption \<Rightarrow> LaserKey \<Rightarrow> int64 \<Rightarrow> LaserClient \<Rightarrow> (Status \<times> LaserClient) run" where
  "ExpireAtSync P clientOption key t client =
     answer status_of (commonCall P key (leader_read clientOption) (RqExpireAt key t) client)"

definition DelSync ::
  "ClientEnv \<Rightarrow> LaserClientOption \<Rightarrow> LaserKey \<Rightarrow> LaserClient \<Rightarrow> (Status \<times> LaserClient) run" where
  "DelSync P clientOption key client =
     answer status_of (commonCall P key (leader_read clientOption) (RqDelkey key) client)"

definition HsetSync ::
  "ClientEnv \<Rightarrow> LaserClientOption \<Rightarrow> LaserKey \<Rightarrow> string \<Rightarrow> string \<Rightarrow> LaserClient \<Rightarrow> (Status \<times> LaserClient) run" where
  "HsetSync P clientOption key field value client =
     answer status_of (commonCall P key (leader_read clientOption) (RqHset key field value) client)"

definition HgetSync ::
  "ClientEnv \<Rightarrow> LaserClientOption \<Rightarrow> LaserKey \<Rightarrow> string \<Rightarrow> LaserClient \<Rightarrow> ((Status \<times> string) \<times> LaserClient) run" where
  "HgetSync P clientOption key field client =
     answer (with_data GetStringData) (commonCall P key clientOption (RqHget key field) client)"

definition HgetAllSync ::
  "ClientEnv \<Rightarrow> LaserClientOption \<Rightarrow> LaserKey \<Rightarrow> LaserClient \<Rightarrow> ((Status \<times> (string, string) gomap) \<times> LaserClient) run" where
  "HgetAllSync P clientOption key client =
     answer (with_data GetMapStringData) (commonCall P key clientOption (RqHgetall key) client)"

definition HexistsSync ::
  "ClientEnv \<Rightarrow> LaserClientOption \<Rightarrow> LaserKey \<Rightarrow> string \<Rightarrow> LaserClient \<Rightarrow> ((Status \<times> bool) \<times> LaserClient) run" where
  "HexistsSync P clientOption key field client =
     answer (with_data GetBoolData) (commonCall P key clientOption (RqHexists key field) client)"

definition HkeysSync ::
  "ClientEnv \<Rightarrow> LaserClientOption \<Rightarrow> LaserKey \<Rightarrow> LaserClient \<Rightarrow> ((Status \<times> string list) \<times> LaserClient) run" where
  "HkeysSync P clientOption key client =
     answer (with_data GetListStringData) (commonCall P key clientOption (RqHkeys key) client)"

definition HlenSync ::
  "ClientEnv \<Rightarrow> LaserClientOption \<Rightarrow> LaserKey \<Rightarrow> LaserClient \<Rightarrow> ((Status \<times> int64) \<times> LaserClient) run" where
  "HlenSync P clientOption key client =
     answer (with_data GetIntData) (commonCall P key clientOption (RqHlen key) client)"

definition HdelSync ::
  "ClientEnv \<Rightarrow> LaserClientOption \<Rightarrow> LaserKey \<Rightarrow> string \<Rightarrow> LaserClient \<Rightarrow> (Status \<times> LaserClient) run" where
  "HdelSync P clientOption key field client =
     answer status_of (commonCall P key (leader_read clientOption) (RqHdel key field) client)"

definition HmsetSync ::
  "ClientEnv \<Rightarrow> LaserClientOption \<Rightarrow> LaserKey \<Rightarrow> LaserValue \<Rightarrow> LaserClient \<Rightarrow> (Status \<times> LaserClient) run" where
  "HmsetSync P clientOption key val client =
     answer status_of (commonCall P key (leader_read clientOption) (RqHmset key val) client)"

definition HmgetSync ::
  "ClientEnv \<Rightarrow> LaserClientOption \<Rightarrow> LaserKey \<Rightarrow> string list \<Rightarrow> LaserClient \<Rightarrow> ((Status \<times> (string, string) gomap) \<times> LaserClient) run" where
  "HmgetSync P clientOption key flds client =
     answer (with_data GetMapStringData) (commonCall P key clientOption (RqHmget key flds) client)"

definition TtlSync ::
  "ClientEnv \<Rightarrow> LaserClientOption \<Rightarrow> LaserKey \<Rightarrow> LaserClient \<Rightarrow> ((Status \<times> int64) \<times> LaserClient) run" where
  "TtlSync P clientOption key client =
     answer (with_data GetIntData) (commonCall P key clientOption (RqTtl key) client)"

definition LpushSync ::
  "ClientEnv \<Rightarrow> LaserClientOption \<Rightarrow> LaserKey \<Rightarrow> string \<Rightarrow> LaserClient \<Rightarrow> (Status \<times> LaserClient) run" where
  "LpushSync P clientOption key val client =
     answer status_of (commonCall P key (leader_read clientOption) (RqLpush key val) client)"

definition LpopSync ::
  "ClientEnv \<Rightarrow> LaserClientOption \<Rightarrow> LaserKey \<Rightarrow> LaserClient \<Rightarrow> ((Status \<times> string) \<times> LaserClient) run" where
  "LpopSync P clientOption key client =
     answer (with_data GetStringData) (commonCall P key (leader_read clientOption) (RqLpop key) client)"

definition RpushSync ::
  "ClientEnv \<Rightarrow> LaserClientOption \<Rightarrow> LaserKey \<Rightarrow> string \<Rightarrow> LaserClient \<Rightarrow> (Status \<times> LaserClient) run" where
  "RpushSync P clientOption key val client =
     answer status_of (commonCall P key (leader_read clientOption) (RqRpush key val) client)"

definition RpopSync ::
  "ClientEnv \<Rightarrow> LaserClientOption \<Rightarrow> LaserKey \<Rightarrow> LaserClient \<Rightarrow> ((Status \<times> string) \<times> LaserClient) run" where
  "RpopSync P clientOption key client =
     answer (with_data GetStringData) (commonCall P key (leader_read clientOption) (RqRpop key) client)"

definition LrangeSync ::
  "ClientEnv \<Rightarrow> LaserClientOption \<Rightarrow> LaserKey \<Rightarrow> int32 \<Rightarrow> int32 \<Rightarrow> LaserClient \<Rightarrow> ((Status \<times> string list) \<times> LaserClient) run" where
  "LrangeSync P clientOption key start stop client =
     answer (with_data GetListStringData) (commonCall P key clientOption (RqLrange key start stop) client)"

definition LindexSync ::
  "ClientEnv \<Rightarrow> LaserClientOption \<Rightarrow> LaserKey \<Rightarrow> int32 \<Rightarrow> LaserClient \<Rightarrow> ((Status \<times> string) \<times> LaserClient) run" where
  "LindexSync P clientOption key index client =
     answer (with_data GetStringData) (commonCall P key clientOption (RqLindex key index) client)"

definition LlenSync ::
  "ClientEnv \<Rightarrow> LaserClientOption \<Rightarrow> LaserKey \<Rightarrow> LaserClient \<Rightarrow> ((Status \<times> int64) \<times> LaserClient) run" where
  "LlenSync P clientOption key client =
     answer (with_data GetIntData) (commonCall P key clientOption (RqLlen key) client)"

definition DecrSync ::
  "ClientEnv \<Rightarrow> LaserClientOption \<Rightarrow> LaserKey \<Rightarrow> LaserClient \<Rightarrow> ((Status \<times> int64) \<times> LaserClient) run" where
  "DecrSync P clientOption key client =
     answer (with_data GetIntData) (commonCall P key (leader_read clientOption) (RqDecr key) client)"

definition IncrSync ::
  "ClientEnv \<Rightarrow> LaserClientOption \<Rightarrow> LaserKey \<Rightarrow> LaserClient \<Rightarrow> ((Status \<times> int64) \<times> LaserClient) run" where
  "IncrSync P clientOption key client =
     answer (with_data GetIntData) (commonCall P key (leader_read clientOption) (RqIncr key) client)"

definition DecrbySync ::
  "ClientEnv \<Rightarrow> LaserClientOption \<Rightarrow> LaserKey \<Rightarrow> int64 \<Rightarrow> LaserClient \<Rightarrow> ((Status \<times> int64) \<times> LaserClient) run" where
  "DecrbySync P clientOption key step client =
     answer (with_data GetIntData) (commonCall P key (leader_read clientOption) (RqDecrBy key step) client)"

definition IncrbySync ::
  "ClientEnv \<Rightarrow> LaserClientOption \<Rightarrow> LaserKey \<Rightarrow> int64 \<Rightarrow> LaserClient \<Rightarrow> ((Status \<times> int64) \<times> LaserClient) run" where
  "IncrbySync P clientOption key step client =
     answer (with_data GetIntData) (commonCall P key (leader_read clientOption) (RqIncrBy key step) client)"

definition ExistSync ::
  "ClientEnv \<Rightarrow> LaserClientOption \<Rightarrow> LaserKey \<Rightarrow> LaserClient \<Rightarrow> ((Status \<times> bool) \<times> LaserClient) run" where
  "ExistSync P clientOption key client =
     answer (with_data GetBoolData) (commonCall P key clientOption (RqExist key) client)"

definition ZaddSync ::
  "ClientEnv \<Rightarrow> LaserClientOption \<Rightarrow> LaserKey \<Rightarrow> (string, float64) gomap \<Rightarrow> LaserClient \<Rightarrow> ((Status \<times> int64) \<times> LaserClient) run" where
  "ZaddSync P clientOption key member_scores client =
     answer (with_data GetIntData) (commonCall P key (leader_read clientOption) (RqZadd key member_scores) client)"

definition SaddSync ::
  "ClientEnv \<Rightarrow> LaserClientOption \<Rightarrow> LaserKey \<Rightarrow> string \<Rightarrow> LaserClient \<Rightarrow> (Status \<times> LaserClient) run" where
  "SaddSync P clientOption key member client =
     answer status_of (commonCall P key (leader_read clientOption) (RqSadd key member) client)"

definition SismemberSync ::
  "ClientEnv \<Rightarrow> LaserClientOption \<Rightarrow> LaserKey \<Rightarrow> string \<Rightarrow> LaserClient \<Rightarrow> (Status \<times> LaserClient) run" where
  "SismemberSync P clientOption key member client =
     answer status_of (commonCall P key clientOption (RqSismember key member) client)"

definition SremoveSync ::
  "ClientEnv \<Rightarrow> LaserClientOption \<Rightarrow> LaserKey \<Rightarrow> string \<Rightarrow> LaserClient \<Rightarrow> (Status \<times> LaserClient) run" where
  "SremoveSync P clientOption key member client =
     answer status_of (commonCall P key (leader_read clientOption) (RqSremove key member) client)"

definition SmembersSync ::
  "ClientEnv \<Rightarrow> LaserClientOption \<Rightarrow> LaserKey \<Rightarrow> LaserClient \<Rightarrow> ((Status \<times> string list) \<times> LaserClient) run" where
  "SmembersSync P clientOption key client =
     answer (with_data GetListStringData) (commonCall P key clientOption (RqSmembers key) client)"

section \<open>Where a call goes\<close>

definition settled :: "string \<Rightarrow> Router \<Rightarrow> bool" where
  "settled name router \<longleftrightarrow> map_of (r_discoverPullers router) name \<noteq> None"

lemma settled_puller: "settled name router \<Longrightarrow> GetOrCreateDiscoverPuller fuel env name router = Ran router"
  by (auto simp: settled_def GetOrCreateDiscoverPuller_def split: option.splits)

lemma GetOrCreateDiscoverPuller_settles:
  "GetOrCreateDiscoverPuller fuel env name router = Ran router' \<Longrightarrow> settled name router'"
  by (auto simp: settled_def GetOrCreateDiscoverPuller_def Let_def run_bind_eq_Ran update_conv' split: option.splits)

lemma settled_cong: "r_discoverPullers router' = r_discoverPullers router \<Longrightarrow> settled name router' = settled name router"
  by (simp add: settled_def)

lemma selection_pullers [simp]:
  "r_discoverPullers (count_selection s router) = r_discoverPullers router"
  "r_routerDb (count_selection s router) = r_routerDb router"
  by (simp_all add: count_selection_def)

lemma select_with_pullers:
  "select_with us r bid b xs router = Ran (res, router') \<Longrightarrow> r_discoverPullers router' = r_discoverPullers router"
  by (auto simp: select_with_def split: option.splits sum.splits)

lemma GetOrCreateBalancer_pullers:
  "GetOrCreateBalancer city option router = (b, router') \<Longrightarrow> r_discoverPullers router' = r_discoverPullers router"
  by (auto simp: GetOrCreateBalancer_def Let_def split: option.splits)

definition picks :: "ClientEnv \<Rightarrow> ClientOption \<Rightarrow> Router \<Rightarrow> Server \<Rightarrow> bool" where
  "picks P option router s \<longleftrightarrow>
     (\<exists>xs. discover_list (e_city (ce_env P)) (r_routerDb router) (with_default_dc option) = Some xs \<and> s \<in> set xs)"

lemma picks_cong: "r_routerDb router' = r_routerDb router \<Longrightarrow> picks P option router' s = picks P option router s"
  by (simp add: picks_def)

lemma Router_Discover_picks:
  assumes "user_ok (ce_user P)" and "Router_Discover fuel (ce_env P) (ce_user P) r option router = Ran (res, router')"
  shows "settled (co_ServiceName option) router' \<and> (\<forall>s. res = Some s \<longrightarrow> picks P option router' s) \<and>
    (settled (co_ServiceName option) router \<longrightarrow> r_routerDb router' = r_routerDb router)"
  using assms(2)
proof (cases rule: Router_Discover_cases)
  case (none router1)
  then show ?thesis
    using GetOrCreateDiscoverPuller_settles settled_puller by (auto simp: settled_def)
next
  case (some router1 xs b router2 router3)
  have same: "r_discoverPullers router3 = r_discoverPullers router1" "r_routerDb router3 = r_routerDb router1"
    using select_with_pullers [OF some(4)] select_with_frame [OF some(4)] GetOrCreateBalancer_pullers [OF some(3)]
      GetOrCreateBalancer_frame [OF some(3)] by auto
  have "settled (co_ServiceName option) router1" using GetOrCreateDiscoverPuller_settles [OF some(1)] .
  moreover have "router1 = router" if "settled (co_ServiceName option) router"
    using some(1) settled_puller [OF that, of fuel "ce_env P"] by simp
  moreover have "\<forall>s. res = Some s \<longrightarrow> s \<in> set xs" using select_with_mem [OF assms(1)] some(4) by blast
  ultimately show ?thesis using some(2,5) same by (auto simp: picks_def settled_def)
qed

lemma getconn_loop_picks:
  "user_ok (ce_user P) \<Longrightarrow> getconn_loop P rand option retry k router = Ran (res, router') \<Longrightarrow>
    settled (co_ServiceName option) router' \<and> (\<forall>s. res = Some s \<longrightarrow> picks P option router' s) \<and>
    (settled (co_ServiceName option) router \<longrightarrow> r_routerDb router' = r_routerDb router)"
proof (induction P rand option retry k router rule: getconn_loop.induct)
  case (1 P rand option retry k router)
  obtain s1 r1 where d: "Router_Discover (ce_fuel P) (ce_env P) (ce_user P) (rand (nat k)) option router = Ran (s1, r1)"
    and rest: "(if s1 = None \<and> k \<le> retry then getconn_loop P rand option retry (k + 1) r1
      else Ran (s1, r1)) = Ran (res, router')"
    using 1(3) by (subst (asm) getconn_loop.simps) (auto simp: run_bind_eq_Ran)
  note first = Router_Discover_picks [OF 1(2) d]
  show ?case
  proof (cases "s1 = None \<and> k \<le> retry")
    case True
    with rest have "getconn_loop P rand option retry (k + 1) r1 = Ran (res, router')" by simp
    from 1(1) [OF True 1(2) this] have "settled (co_ServiceName option) router' \<and>
      (\<forall>s. res = Some s \<longrightarrow> picks P option router' s) \<and>
      (settled (co_ServiceName option) r1 \<longrightarrow> r_routerDb router' = r_routerDb r1)" .
    with first show ?thesis by auto
  next
    case False
    with rest first show ?thesis by (simp split: if_splits)
  qed
qed

lemma pick_server_picks:
  assumes "user_ok (ce_user P)" and "\<not> checkTargetServerAddress (lo_TargetServerAddress options)"
    and "pick_server P options option k client = Ran (res, client')"
  shows "settled (co_ServiceName option) (lc_router client') \<and>
    (\<forall>s. res = Some s \<longrightarrow> picks P option (lc_router client') s) \<and>
    (settled (co_ServiceName option) (lc_router client) \<longrightarrow>
       r_routerDb (lc_router client') = r_routerDb (lc_router client)) \<and> lc_cg client' = lc_cg client"
proof -
  obtain router where "getconn_loop P (ce_rand P (nat k)) option (lo_ConnectionRetry options) 1 (lc_router client) = Ran (res, router)"
    and "client' = client\<lparr>lc_router := router\<rparr>"
    using assms(2,3) by (auto simp: pick_server_def run_bind_eq_Ran)
  with getconn_loop_picks [OF assms(1)] show ?thesis by auto
qed

text \<open>The connection group keeps the addresses of a set apart when their keys differ pairwise and all
  its pools serve addresses of the set.\<close>

definition address :: "ThriftConfig \<Rightarrow> string \<times> int" where
  "address c = (cfg_Host c, cfg_Port c)"

definition server_address :: "Server \<Rightarrow> string \<times> int" where
  "server_address s = (Host s, uint (Port s))"

definition addresses_apart :: "(string \<times> int) set \<Rightarrow> ConnGroup \<Rightarrow> bool" where
  "addresses_apart A cg \<longleftrightarrow> inj_on (\<lambda>(h, p). h @ Itoa p) A \<and> group_ok cg \<and>
     (\<forall>key c p. cg key = Some (c, p) \<longrightarrow> address c \<in> A)"

lemma address_thriftConfig [simp]: "address (thriftConfig options s) = server_address s"
  by (simp add: address_def server_address_def thriftConfig_def)

lemma GetConnection_pool_apart:
  assumes "addresses_apart A cg" and "address cf \<in> A"
    and "GetConnection_pool n cf opts cg = ((c, p), cg')"
  shows "address c = address cf \<and> addresses_apart A cg'"
proof (cases "cg (group_key cf)")
  case None
  with assms(3) have "c = cf" "cg' = cg(group_key cf \<mapsto> (cf, p))"
    by (auto simp: GetConnection_pool_def Let_def)
  with assms(1,2) show ?thesis by (auto simp: addresses_apart_def group_ok_def)
next
  case (Some q)
  with assms(3) have cg: "cg (group_key cf) = Some (c, p)" "cg' = cg"
    by (auto simp: GetConnection_pool_def Let_def)
  have "group_key c = group_key cf" "address c \<in> A"
    using assms(1) cg unfolding addresses_apart_def group_ok_def by blast+
  moreover have "inj_on (\<lambda>(h, p). h @ Itoa p) A" using assms(1) by (simp add: addresses_apart_def)
  ultimately have "address c = address cf"
    using assms(2) by (auto simp: inj_on_def group_key_def address_def)
  with assms(1) cg(2) show ?thesis by simp
qed

lemma mark_frame [simp]:
  "lc_router (mark m client) = lc_router client" "lc_cg (mark m client) = lc_cg client"
  "lc_configManager (mark m client) = lc_configManager client" "lc_laserServiceName (mark m client) = lc_laserServiceName client"
  by (simp_all add: mark_def)

lemma parseException_frame:
  "parseException e client = (status, client') \<Longrightarrow> lc_router client' = lc_router client \<and> lc_cg client' = lc_cg client"
  by (auto simp: parseException_def Let_def split: exception.splits if_splits)

text \<open>One attempt of the call loop.\<close>

lemma call_loop_cases:
  assumes "call_loop P options option rq k client = Ran (resp, client')"
  obtains (none) "pick_server P options option k client = Ran (None, client')"
    "resp = error_resp Status_CLIENT_THRIFT_CALL_ERROR"
  | (tried) s client1 c p cg where "pick_server P options option k client = Ran (Some s, client1)"
    "GetConnection_pool (ce_numCPU P) (thriftConfig options s) (pool_options options) (lc_cg client1) = ((c, p), cg)"
    "case ce_net P (nat k) c rq of
       NoConnection e \<Rightarrow> resp = error_resp Status_CLIENT_THRIFT_CALL_ERROR \<and>
         client' = mark LASER_CLIENT_GET_CONNECTION_ERROR (client1\<lparr>lc_cg := cg\<rparr>)
     | Raised e \<Rightarrow> \<exists>status. resp = error_resp status \<and>
         parseException e (mark LASER_CLIENT_METRIC_CALL_SERVER_TIMES (client1\<lparr>lc_cg := cg\<rparr>)) = (status, client')
     | Replied r \<Rightarrow> resp = \<lparr>cr_idxes = [], cr_status = Status_OK, cr_resp = r\<rparr> \<and>
         client' = mark LASER_CLIENT_METRIC_CALL_SERVER_TIMES (client1\<lparr>lc_cg := cg\<rparr>)
     | TimedOut \<Rightarrow> let client2 = mark LASER_CLIENT_THRIFT_CALL_TIMEOUT
           (mark LASER_CLIENT_METRIC_CALL_SERVER_TIMES (client1\<lparr>lc_cg := cg\<rparr>)) in
         if k \<le> lo_TimeoutRetry options then call_loop P options option rq (k + 1) client2 = Ran (resp, client')
         else resp = error_resp Status_CLIENT_THRIFT_CALL_TIMEOUT \<and> client' = client2"
proof -
  obtain s1 client1 where ps: "pick_server P options option k client = Ran (s1, client1)"
    using assms by (subst (asm) call_loop.simps) (auto simp: run_bind_eq_Ran)
  show thesis
  proof (cases s1)
    case None
    with assms ps none show thesis by (subst (asm) call_loop.simps) simp
  next
    case (Some s)
    obtain c p cg where pool: "GetConnection_pool (ce_numCPU P) (thriftConfig options s) (pool_options options) (lc_cg client1) = ((c, p), cg)"
      by (metis surj_pair)
    from assms ps Some pool show thesis
      by (intro tried [OF _ pool]) (subst (asm) call_loop.simps,
        auto simp: Let_def split: attempt.splits prod.splits if_splits)+
  qed
qed

text \<open>How an attempt can end with status OK: the server answered, or it raised an exception that
  carries the status OK.\<close>

definition acknowledges :: "attempt \<Rightarrow> LaserResponse \<Rightarrow> bool" where
  "acknowledges a r \<longleftrightarrow> a = Replied r \<or> (\<exists>x. a = Raised (LaserExc x) \<and> ex_Status x = Status_OK \<and> r = NewLaserResponse)"

lemma call_induct [case_names attempt]:
  assumes "\<And>k client. (\<And>client'. k \<le> lo_TimeoutRetry options \<Longrightarrow> Q (k + 1) client') \<Longrightarrow> Q k client"
  shows "Q k (client :: LaserClient)"
proof (induction "nat (lo_TimeoutRetry options + 1 - k)" arbitrary: k client rule: less_induct)
  case less
  show ?case
  proof (rule assms)
    fix client' assume "k \<le> lo_TimeoutRetry options"
    then show "Q (k + 1) client'" by (intro less) simp
  qed
qed

lemma call_loop_settled:
  assumes "user_ok (ce_user P)" and "\<not> checkTargetServerAddress (lo_TargetServerAddress options)"
  shows "call_loop P options option rq k client = Ran (resp, client') \<Longrightarrow>
   settled (co_ServiceName option) (lc_router client) \<Longrightarrow>
   r_routerDb (lc_router client') = r_routerDb (lc_router client)"
proof (induction k client rule: call_induct [where options = options])
  case (attempt k client)
  from attempt.prems(1) show ?case
  proof (cases rule: call_loop_cases)
    case none
    with pick_server_picks [OF assms] attempt.prems(2) show ?thesis by blast
  next
    case (tried s client1 c p cg)
    note ps = pick_server_picks [OF assms tried(1)]
    show ?thesis
      using tried(3) attempt.IH ps attempt.prems(2)
      by (auto simp: Let_def split: attempt.splits if_splits dest: parseException_frame)
  qed
qed

text \<open>A call with status OK and no fixed address was acknowledged by a server the final routing table
  lists for the route.\<close>

lemma call_loop_ok:
  assumes "user_ok (ce_user P)" and "\<not> checkTargetServerAddress (lo_TargetServerAddress options)"
  shows "call_loop P options option rq k client = Ran (resp, client') \<Longrightarrow> cr_status resp = Status_OK \<Longrightarrow>
    addresses_apart A (lc_cg client) \<Longrightarrow> (\<forall>s. picks P option (lc_router client') s \<longrightarrow> server_address s \<in> A) \<Longrightarrow>
    \<exists>s n c. picks P option (lc_router client') s \<and> address c = server_address s \<and>
      acknowledges (ce_net P n c rq) (cr_resp resp)"
proof (induction k client rule: call_induct [where options = options])
  case (attempt k client)
  from attempt.prems(1) show ?case
  proof (cases rule: call_loop_cases)
    case none
    with attempt.prems(2) show ?thesis by (simp add: error_resp_def)
  next
    case (tried s client1 c p cg)
    note ps = pick_server_picks [OF assms tried(1)]
    let ?c1 = "mark LASER_CLIENT_METRIC_CALL_SERVER_TIMES (client1\<lparr>lc_cg := cg\<rparr>)"
    let ?c2 = "mark LASER_CLIENT_THRIFT_CALL_TIMEOUT ?c1"
    have same: "r_routerDb (lc_router client') = r_routerDb (lc_router client1)"
    proof (cases "ce_net P (nat k) c rq = TimedOut \<and> k \<le> lo_TimeoutRetry options")
      case True
      with tried(3) have "call_loop P options option rq (k + 1) ?c2 = Ran (resp, client')" by (simp add: Let_def)
      from call_loop_settled [OF assms this] ps show ?thesis by simp
    next
      case False
      with tried(3) show ?thesis
        by (auto simp: Let_def split: attempt.splits if_splits dest: parseException_frame)
    qed
    then have mem: "picks P option (lc_router client') s" using ps picks_cong by blast
    then have "server_address s \<in> A" using attempt.prems(4) by blast
    with GetConnection_pool_apart [OF _ _ tried(2)] attempt.prems(3) ps
    have ap: "address c = server_address s" "addresses_apart A cg" by auto
    show ?thesis
    proof (cases "ce_net P (nat k) c rq")
      case TimedOut
      with tried(3) attempt.prems(2) have "k \<le> lo_TimeoutRetry options"
        "call_loop P options option rq (k + 1) ?c2 = Ran (resp, client')"
        by (auto simp: Let_def error_resp_def split: if_splits)
      with attempt.IH [OF _ _ attempt.prems(2) _ attempt.prems(4)] ap(2) show ?thesis by simp
    next
      case (Raised e)
      have "acknowledges (ce_net P (nat k) c rq) (cr_resp resp)"
        using tried(3) Raised attempt.prems(2)
        by (auto simp: acknowledges_def parseException_def error_resp_def Let_def split: exception.splits if_splits)
      with mem ap(1) show ?thesis by blast
    qed (use tried(3) attempt.prems(2) mem ap(1) in \<open>auto simp: acknowledges_def error_resp_def\<close>)
  qed
qed

section \<open>Properties of calls\<close>

lemma leader_not_edge: "getRouteInfo city rnd key LEADER_READ client = Inr info \<Longrightarrow> \<not> ri_routeToEdgeNode info"
  by (auto simp: getRouteInfo_def go_bind_def Let_def split: option.splits sum.splits)

lemma commonCall_ok:
  assumes "user_ok (ce_user P)" and "\<not> checkTargetServerAddress (lo_TargetServerAddress options)"
    and "commonCall P key options rq client = Ran (resp, client')" and "cr_status resp = Status_OK"
    and "addresses_apart A (lc_cg client)"
    and "\<forall>option s. picks P option (lc_router client') s \<longrightarrow> server_address s \<in> A"
  shows "\<exists>info s n c. getRouteInfo (e_city (ce_env P)) (ce_rand P 0 0) key (lo_ReadMode options) client = Inr info \<and>
    picks P (getClientOption client options info) (lc_router client') s \<and> address c = server_address s \<and>
    acknowledges (ce_net P n c rq) (cr_resp resp)"
proof -
  obtain info where info: "getRouteInfo (e_city (ce_env P)) (ce_rand P 0 0) key (lo_ReadMode options) client = Inr info"
    and call: "commonCallWithRouteId P info options rq client = Ran (resp, client')"
    using assms(3) by (auto simp: commonCall_def run_bind_eq_Ran of_go_def split: sum.splits)
  let ?o = "if lo_ReceiveTimeoutMs options \<le> 0 then options\<lparr>lo_ReceiveTimeoutMs := defaultReceiveTimeoutMs\<rparr> else options"
  have "\<not> checkTargetServerAddress (lo_TargetServerAddress ?o)" using assms(2) by simp
  moreover have "call_loop P ?o (getClientOption client options info) rq 1 client = Ran (resp, client')"
    using call by (simp add: commonCallWithRouteId_def Let_def)
  ultimately show ?thesis
    using call_loop_ok [OF assms(1) _ _ assms(4,5)] assms(6) info by blast
qed

text \<open>The addresses of all servers a routing table lists.\<close>

definition lists_only :: "cityhash \<Rightarrow> RouterDb \<Rightarrow> (string \<times> int) set \<Rightarrow> bool" where
  "lists_only city db A \<longleftrightarrow> (\<forall>name protocol id st dc xs s.
     SelectServers city db name protocol id st dc = Some xs \<and> s \<in> set xs \<longrightarrow> server_address s \<in> A)"

lemma lists_only_picks:
  "lists_only (e_city (ce_env P)) (r_routerDb router) A \<Longrightarrow> picks P option router s \<Longrightarrow> server_address s \<in> A"
  unfolding lists_only_def picks_def discover_list_def Let_def
  by (auto split: option.splits if_splits)

lemma picks_leader:
  assumes "picks P (getClientOption client (leader_read options) info) router s" and "\<not> ri_routeToEdgeNode info"
  shows "\<exists>xs. SelectServers (e_city (ce_env P)) (r_routerDb router) (lc_laserServiceName client) ServerProtocol_THRIFT
    (ri_shardId info) ShardType_LEADER (if ri_dc info = [] then DEFAULT_DC else ri_dc info) = Some xs \<and> s \<in> set xs"
  using assms
  by (auto simp: picks_def discover_list_def getClientOption_def with_default_dc_def leader_read_def Let_def
      split: option.splits if_splits)

text \<open>C1. A write that returns OK was acknowledged by a leader: some attempt was answered by a server that the
  routing table lists as a leader of the shard the key belongs to, never by an edge node's route. The
  connection group must keep the addresses in use apart, and the operation must not fix an address.\<close>

theorem SetSync_acknowledged:
  assumes "user_ok (ce_user P)" and "\<not> checkTargetServerAddress (lo_TargetServerAddress options)"
    and "SetSync P options kv client = Ran (Status_OK, client')"
    and "addresses_apart A (lc_cg client)" and "lists_only (e_city (ce_env P)) (r_routerDb (lc_router client')) A"
  shows "\<exists>key info xs s n c r. kv_Key kv = Some key \<and>
    getRouteInfo (e_city (ce_env P)) (ce_rand P 0 0) key LEADER_READ client = Inr info \<and> \<not> ri_routeToEdgeNode info \<and>
    SelectServers (e_city (ce_env P)) (r_routerDb (lc_router client')) (lc_laserServiceName client) ServerProtocol_THRIFT
      (ri_shardId info) ShardType_LEADER (if ri_dc info = [] then DEFAULT_DC else ri_dc info) = Some xs \<and>
    s \<in> set xs \<and> address c = server_address s \<and> acknowledges (ce_net P n c (RqSset kv)) r"
proof -
  obtain key resp where key: "kv_Key kv = Some key"
    and call: "commonCall P key (leader_read options) (RqSset kv) client = Ran (resp, client')" "cr_status resp = Status_OK"
    using assms(3) by (auto simp: SetSync_def with_key_def answer_def run_bind_eq_Ran split: option.splits)
  have "\<not> checkTargetServerAddress (lo_TargetServerAddress (leader_read options))"
    using assms(2) by (simp add: leader_read_def)
  then obtain info s n c where
    info: "getRouteInfo (e_city (ce_env P)) (ce_rand P 0 0) key LEADER_READ client = Inr info"
    and s: "picks P (getClientOption client (leader_read options) info) (lc_router client') s"
    and "address c = server_address s" "acknowledges (ce_net P n c (RqSset kv)) (cr_resp resp)"
    using commonCall_ok [OF assms(1) _ call assms(4)] lists_only_picks [OF assms(5)]
    by (auto simp: leader_read_def)
  with key picks_leader [OF s leader_not_edge [OF info]] leader_not_edge [OF info] show ?thesis by blast
qed


subsection \<open>Retries\<close>

text \<open>What a call returns for the first attempt that did not time out, if there is one.\<close>

definition reply_of :: "attempt option \<Rightarrow> callResp" where
  "reply_of a = (case a of
       None \<Rightarrow> error_resp Status_CLIENT_THRIFT_CALL_TIMEOUT
     | Some (NoConnection e) \<Rightarrow> error_resp Status_CLIENT_THRIFT_CALL_ERROR
     | Some (Raised (LaserExc x)) \<Rightarrow> error_resp (ex_Status x)
     | Some (Raised (OtherExc e)) \<Rightarrow> error_resp Status_CLIENT_THRIFT_CALL_ERROR
     | Some (Replied r) \<Rightarrow> \<lparr>cr_idxes = [], cr_status = Status_OK, cr_resp = r\<rparr>
     | Some TimedOut \<Rightarrow> error_resp Status_CLIENT_THRIFT_CALL_TIMEOUT)"

lemma GetConnection_pool_again:
  "GetConnection_pool n cf opts cg = (pl, cg') \<Longrightarrow> GetConnection_pool n cf opts cg' = (pl, cg')"
  by (auto simp: GetConnection_pool_def Let_def split: option.splits)

lemma parseException_status:
  "fst (parseException e client) = (case e of LaserExc x \<Rightarrow> ex_Status x | OtherExc x \<Rightarrow> Status_CLIENT_THRIFT_CALL_ERROR)"
  by (simp add: parseException_def split: exception.split)

lemma call_loop_retries:
  assumes "checkTargetServerAddress (lo_TargetServerAddress options)"
    and "server = empty_server\<lparr>Host := AddrHost (lo_TargetServerAddress options), Port := AddrPort (lo_TargetServerAddress options)\<rparr>"
  shows "1 \<le> k \<Longrightarrow> GetConnection_pool (ce_numCPU P) (thriftConfig options server) (pool_options options) (lc_cg client) = ((c, p), cg) \<Longrightarrow>
    \<exists>client'. call_loop P options option rq k client = Ran (reply_of (find (\<lambda>a. a \<noteq> TimedOut)
      (map (\<lambda>n. ce_net P n c rq) (nat k # [nat k + 1..<nat (lo_TimeoutRetry options) + 2]))), client')"
proof (induction k client rule: call_induct [where options = options])
  case (attempt k client)
  let ?client1 = "client\<lparr>lc_router := count_selection (Some server) (lc_router client), lc_cg := cg\<rparr>"
  let ?client2 = "mark LASER_CLIENT_THRIFT_CALL_TIMEOUT (mark LASER_CLIENT_METRIC_CALL_SERVER_TIMES ?client1)"
  have pick: "pick_server P options option k client =
      Ran (Some server, client\<lparr>lc_router := count_selection (Some server) (lc_router client)\<rparr>)"
    using assms by (simp add: pick_server_def Let_def)
  show ?case
  proof (cases "ce_net P (nat k) c rq")
    case TimedOut
    show ?thesis
    proof (cases "k \<le> lo_TimeoutRetry options")
      case True
      have "GetConnection_pool (ce_numCPU P) (thriftConfig options server) (pool_options options) (lc_cg ?client2) = ((c, p), cg)"
        using GetConnection_pool_again [OF attempt.prems(2)] by simp
      then obtain client' where rest: "call_loop P options option rq (k + 1) ?client2 = Ran (reply_of (find (\<lambda>a. a \<noteq> TimedOut)
          (map (\<lambda>n. ce_net P n c rq) (nat (k + 1) # [nat (k + 1) + 1..<nat (lo_TimeoutRetry options) + 2]))), client')"
        using attempt.IH [OF True, of ?client2] attempt.prems(1) by auto
      have "[nat k + 1..<nat (lo_TimeoutRetry options) + 2] = nat (k + 1) # [nat (k + 1) + 1..<nat (lo_TimeoutRetry options) + 2]"
        using True attempt.prems(1) by (subst upt_conv_Cons) (auto simp: nat_add_distrib)
      then have "call_loop P options option rq (k + 1) ?client2 = Ran (reply_of (find (\<lambda>a. a \<noteq> TimedOut)
          (map (\<lambda>n. ce_net P n c rq) (nat k # [nat k + 1..<nat (lo_TimeoutRetry options) + 2]))), client')"
        using rest TimedOut by simp
      then show ?thesis using pick attempt.prems(2) TimedOut True by (subst call_loop.simps) (auto simp: Let_def)
    next
      case False
      with attempt.prems(1) have "[nat k + 1..<nat (lo_TimeoutRetry options) + 2] = []" by auto
      with pick attempt.prems(2) TimedOut False show ?thesis
        by (subst call_loop.simps) (simp add: Let_def reply_of_def)
    qed
  next
    case (Raised e)
    with pick attempt.prems(2) show ?thesis
      using parseException_status [of e "mark LASER_CLIENT_METRIC_CALL_SERVER_TIMES ?client1"]
      by (subst call_loop.simps) (auto simp: Let_def reply_of_def split: prod.split exception.split)
  qed (use pick attempt.prems(2) in \<open>subst call_loop.simps, simp add: Let_def reply_of_def\<close>)+
qed

text \<open>C15. A call to a fixed address always returns, and its two nested loops amount to this: of the attempts
  1 to \<open>TimeoutRetry\<close> + 1, at least one, the first that did not time out decides, and if all timed out
  the status is a timeout.\<close>

theorem targeted_call_retries:
  assumes "checkTargetServerAddress (lo_TargetServerAddress options)"
    and "server = empty_server\<lparr>Host := AddrHost (lo_TargetServerAddress options), Port := AddrPort (lo_TargetServerAddress options)\<rparr>"
    and "GetConnection_pool (ce_numCPU P) (thriftConfig options server) (pool_options options) (lc_cg client) = ((c, p), cg)"
  shows "\<exists>client'. commonCallWithRouteId P info options rq client =
    Ran (reply_of (find (\<lambda>a. a \<noteq> TimedOut) (map (\<lambda>n. ce_net P n c rq) [1..<nat (lo_TimeoutRetry options) + 2])), client')"
proof -
  let ?o = "if lo_ReceiveTimeoutMs options \<le> 0 then options\<lparr>lo_ReceiveTimeoutMs := defaultReceiveTimeoutMs\<rparr> else options"
  have "1 # [2..<nat (lo_TimeoutRetry options) + 2] = [1..<nat (lo_TimeoutRetry options) + 2]"
    by (subst upt_conv_Cons [of 1]) (auto simp: numeral_2_eq_2)
  moreover have "thriftConfig ?o server = thriftConfig options server" "pool_options ?o = pool_options options"
    by (simp_all add: thriftConfig_def pool_options_def)
  moreover have "lo_TargetServerAddress ?o = lo_TargetServerAddress options" "lo_TimeoutRetry ?o = lo_TimeoutRetry options"
    by simp_all
  ultimately show ?thesis
    using call_loop_retries [of ?o server 1 P client c p cg "getClientOption client options info" rq] assms
    by (simp only: commonCallWithRouteId_def Let_def) (simp add: numeral_2_eq_2)
qed

subsection \<open>A client in use\<close>

text \<open>A client of the service \<open>svc\<close> that has its puller, whose routing table lists one server for shard 0
  as leader and as follower, and a network in which every server answers.\<close>

definition example_server :: Server where
  "example_server = empty_server\<lparr>Host := ''10.0.0.1'', Port := 8080\<rparr>"

definition example_router :: Router where
  "example_router = new_router\<lparr>
     r_discoverPullers := [(''svc'', \<lparr>sp_serviceName = ''svc'', sp_pullerType = ServicePullerType_Server,
       sp_timer = \<lparr>tm_period = 2000000000, tm_started = True, tm_ctx = 0, tm_next = 1, tm_loops = [(0, 2000000000)], tm_runs = 1\<rparr>\<rparr>)],
     r_routerDb := GetRouterDb\<lparr>rd_services :=
       [GetServiceKey char_city ''svc'' ServerProtocol_THRIFT 0 ShardType_LEADER DEFAULT_DC \<mapsto> [example_server],
        GetServiceKey char_city ''svc'' ServerProtocol_THRIFT 0 ShardType_FOLLOWER DEFAULT_DC \<mapsto> [example_server]]\<rparr>\<rparr>"

definition example_client :: LaserClient where
  "example_client = \<lparr>lc_laserServiceName = ''svc'', lc_localIp = ''10.0.0.9'', lc_router = example_router,
     lc_cg = GetConnGroup, lc_configManager = NewConfigManager ''svc'', lc_meters = (\<lambda>m. 0)\<rparr>"

definition example_net :: "nat \<Rightarrow> ThriftConfig \<Rightarrow> request \<Rightarrow> attempt" where
  "example_net n c rq = (if n = 1 then TimedOut else Replied (NewLaserResponse\<lparr>lr_StringData := Some (cfg_Host c)\<rparr>))"

definition example_clientenv :: ClientEnv where
  "example_clientenv = \<lparr>ce_fuel = 2, ce_env = example_env, ce_user = no_user, ce_rand = (\<lambda>n m. 0),
     ce_numCPU = 8, ce_net = example_net\<rparr>"

definition example_options :: LaserClientOption where
  "example_options = (NewClientOptionFactory 8 LoadBalanceMethod_RANDOM 100)\<lparr>lo_TimeoutRetry := 1\<rparr>"

definition example_key :: LaserKey where
  "example_key = \<lparr>lk_DatabaseName = ''db'', lk_TableName = ''t'', lk_PrimaryKeys = [''k''], lk_ColumnKeys = []\<rparr>"

definition example_kv :: LaserKV where
  "example_kv = \<lparr>kv_Key = Some example_key, kv_Value = Some (NewLaserValue\<lparr>lv_StringValue := Some ''v''\<rparr>)\<rparr>"

definition example_info :: route_info where
  "example_info = \<lparr>ri_shardId = 0, ri_partitionHash = 0, ri_routeToEdgeNode = False, ri_dc = DEFAULT_DC\<rparr>"

lemma example_getRouteInfo: "getRouteInfo city rnd key mode example_client = Inr example_info"
  by (simp add: getRouteInfo_def GetTableSchema_def example_client_def NewConfigManager_def example_info_def)

lemma example_addresses:
  "addresses_apart {(''10.0.0.1'', 8080)} (lc_cg example_client)"
  by (simp add: addresses_apart_def example_client_def group_ok_GetConnGroup) (simp add: GetConnGroup_def)

lemma example_lists_only: "lists_only char_city (r_routerDb example_router) {(''10.0.0.1'', 8080)}"
  by (auto simp: lists_only_def SelectServers_def example_router_def example_server_def empty_server_def
      server_address_def new_router_def GetRouterDb_def split: if_splits)

lemma example_no_target: "\<not> checkTargetServerAddress (lo_TargetServerAddress example_options)"
  by (simp add: checkTargetServerAddress_def example_options_def NewClientOptionFactory_def)

definition example_ready :: "LaserClient \<Rightarrow> bool" where
  "example_ready client \<longleftrightarrow> settled ''svc'' (lc_router client) \<and> r_routerDb (lc_router client) = r_routerDb example_router \<and>
     (\<forall>i b. r_balancers (lc_router client) i = Some b \<longrightarrow> b = Builtin LbRandom)"

definition example_routeropt :: "ReadMode \<Rightarrow> ClientOption" where
  "example_routeropt mode = getClientOption example_client (example_options\<lparr>lo_ReadMode := mode\<rparr>) example_info"

lemma example_routeropt_simps:
  "co_ServiceName (example_routeropt mode) = ''svc''" "with_default_dc (example_routeropt mode) = example_routeropt mode"
  "new_balancer (example_routeropt mode) = Builtin LbRandom"
  by (simp_all add: example_routeropt_def getClientOption_def example_client_def example_options_def with_default_dc_def
      NewClientOptionFactory_def example_info_def DEFAULT_DC_def new_balancer_def)

lemma example_list:
  assumes "mode = LEADER_READ \<or> mode = FOLLOWER_READ"
  shows "discover_list char_city (r_routerDb example_router) (example_routeropt mode) = Some [example_server]"
  using assms
  by (auto simp: discover_list_def SelectServers_def example_routeropt_def getClientOption_def example_client_def
      example_options_def NewClientOptionFactory_def example_info_def example_router_def)

lemma example_discovers:
  assumes "mode = LEADER_READ \<or> mode = FOLLOWER_READ" and "example_ready client"
  shows "\<exists>router. Router_Discover 2 example_env no_user 0 (example_routeropt mode) (lc_router client) = Ran (Some example_server, router) \<and>
    example_ready (client\<lparr>lc_router := router\<rparr>)"
proof -
  let ?r = "lc_router client" and ?id = "balanceId char_city (example_routeropt mode)"
  obtain router1 where bal: "GetOrCreateBalancer char_city (example_routeropt mode) ?r = (Builtin LbRandom, router1)"
    and frame: "r_discoverPullers router1 = r_discoverPullers ?r" "r_routerDb router1 = r_routerDb ?r"
      "\<forall>i b. r_balancers router1 i = Some b \<longrightarrow> b = Builtin LbRandom"
    using assms(2)
    by (cases "r_balancers ?r ?id") (auto simp: GetOrCreateBalancer_def example_routeropt_simps Let_def example_ready_def)
  have sel: "select_with no_user 0 ?id (Builtin LbRandom) [example_server] router1 =
      Ran (Some example_server, router1\<lparr>r_balancers := (r_balancers router1)(?id \<mapsto> Builtin LbRandom)\<rparr>)"
    by (simp add: select_with_def Random_Select_def pick_random_def rand_Int_def)
  have "GetOrCreateDiscoverPuller 2 example_env ''svc'' ?r = Ran ?r"
    using assms(2) settled_puller by (simp add: example_ready_def)
  moreover have "e_city example_env = char_city" by (simp add: example_env_def)
  ultimately show ?thesis
    using bal sel example_list [OF assms(1)] assms(2) frame
    by (auto simp: Router_Discover_def example_routeropt_simps Let_def example_ready_def settled_def count_selection_def)
qed

lemma example_picks:
  assumes "mode = LEADER_READ \<or> mode = FOLLOWER_READ" and "example_ready client"
  shows "\<exists>client'. pick_server example_clientenv (example_options\<lparr>lo_ReadMode := mode\<rparr>) (example_routeropt mode) k client =
    Ran (Some example_server, client') \<and> example_ready client' \<and> lc_cg client' = lc_cg client"
proof -
  obtain router where "Router_Discover 2 example_env no_user 0 (example_routeropt mode) (lc_router client) = Ran (Some example_server, router)"
    "example_ready (client\<lparr>lc_router := router\<rparr>)" using example_discovers [OF assms] by blast
  with example_no_target show ?thesis
    by (auto simp: pick_server_def example_clientenv_def getconn_loop.simps)
qed

lemma example_call:
  assumes "mode = LEADER_READ \<or> mode = FOLLOWER_READ"
  shows "\<exists>client'. commonCall example_clientenv key (example_options\<lparr>lo_ReadMode := mode\<rparr>) rq example_client =
    Ran (\<lparr>cr_idxes = [], cr_status = Status_OK, cr_resp = NewLaserResponse\<lparr>lr_StringData := Some ''10.0.0.1''\<rparr>\<rparr>, client') \<and>
    r_routerDb (lc_router client') = r_routerDb example_router"
proof -
  let ?o = "example_options\<lparr>lo_ReadMode := mode\<rparr>"
  let ?c = "thriftConfig ?o example_server"
  let ?cg = "[group_key ?c \<mapsto> (?c, NewPool 8 (pool_options ?o))]"
  have "example_ready example_client"
    by (simp add: example_ready_def example_client_def) (simp add: example_router_def settled_def new_router_def)
  from example_picks [OF assms this] obtain client1 where c1:
    "pick_server example_clientenv ?o (example_routeropt mode) 1 example_client = Ran (Some example_server, client1)"
    "example_ready client1" "lc_cg client1 = GetConnGroup" by (auto simp: example_client_def)
  let ?client2 = "mark LASER_CLIENT_THRIFT_CALL_TIMEOUT (mark LASER_CLIENT_METRIC_CALL_SERVER_TIMES (client1\<lparr>lc_cg := ?cg\<rparr>))"
  have "example_ready ?client2" using c1(2) by (simp add: example_ready_def)
  from example_picks [OF assms this] obtain client3 where c3:
    "pick_server example_clientenv ?o (example_routeropt mode) 2 ?client2 = Ran (Some example_server, client3)"
    "example_ready client3" "lc_cg client3 = ?cg" by auto
  have env: "ce_numCPU example_clientenv = 8" "ce_net example_clientenv = example_net" "lo_TimeoutRetry ?o = 1"
    "cfg_Host ?c = ''10.0.0.1''" "0 < lo_ReceiveTimeoutMs ?o"
    by (simp_all add: example_clientenv_def example_options_def thriftConfig_def example_server_def NewClientOptionFactory_def)
  have "call_loop example_clientenv ?o (example_routeropt mode) rq 2 ?client2 =
      Ran (\<lparr>cr_idxes = [], cr_status = Status_OK, cr_resp = NewLaserResponse\<lparr>lr_StringData := Some ''10.0.0.1''\<rparr>\<rparr>,
        mark LASER_CLIENT_METRIC_CALL_SERVER_TIMES (client3\<lparr>lc_cg := ?cg\<rparr>))"
    using c3 by (subst call_loop.simps) (simp add: env Let_def GetConnection_pool_def example_net_def)
  then have "call_loop example_clientenv ?o (example_routeropt mode) rq 1 example_client =
      Ran (\<lparr>cr_idxes = [], cr_status = Status_OK, cr_resp = NewLaserResponse\<lparr>lr_StringData := Some ''10.0.0.1''\<rparr>\<rparr>,
        mark LASER_CLIENT_METRIC_CALL_SERVER_TIMES (client3\<lparr>lc_cg := ?cg\<rparr>))"
    using c1 by (subst call_loop.simps) (simp add: env Let_def GetConnection_pool_def GetConnGroup_def example_net_def)
  moreover have "r_routerDb (lc_router client3) = r_routerDb example_router" using c3(2) by (simp add: example_ready_def)
  ultimately show ?thesis
    using env(5) by (simp add: commonCall_def example_getRouteInfo commonCallWithRouteId_def Let_def
        example_routeropt_def [symmetric])
qed

lemma example_env_parts: "e_city (ce_env example_clientenv) = char_city" "user_ok (ce_user example_clientenv)"
  by (simp_all add: example_clientenv_def example_env_def no_user_ok)

theorem SetSync_acknowledged_witness:
  "\<exists>client' n c r. SetSync example_clientenv example_options example_kv example_client = Ran (Status_OK, client') \<and>
     address c = (''10.0.0.1'', 8080) \<and> acknowledges (example_net n c (RqSset example_kv)) r"
proof -
  obtain client' where c: "commonCall example_clientenv example_key (leader_read example_options) (RqSset example_kv) example_client =
      Ran (\<lparr>cr_idxes = [], cr_status = Status_OK, cr_resp = NewLaserResponse\<lparr>lr_StringData := Some ''10.0.0.1''\<rparr>\<rparr>, client')"
    "r_routerDb (lc_router client') = r_routerDb example_router"
    using example_call [of LEADER_READ example_key "RqSset example_kv"] by (auto simp: leader_read_def)
  then have run: "SetSync example_clientenv example_options example_kv example_client = Ran (Status_OK, client')"
    by (simp add: SetSync_def with_key_def answer_def example_kv_def)
  have lists: "lists_only (e_city (ce_env example_clientenv)) (r_routerDb (lc_router client')) {(''10.0.0.1'', 8080)}"
    using example_lists_only c(2) by (simp add: example_env_parts)
  from SetSync_acknowledged [OF example_env_parts(2) example_no_target run example_addresses lists]
  obtain key xs s n cf r and info :: route_info where "SelectServers (e_city (ce_env example_clientenv)) (r_routerDb (lc_router client'))
      (lc_laserServiceName example_client) ServerProtocol_THRIFT (ri_shardId info) ShardType_LEADER
      (if ri_dc info = [] then DEFAULT_DC else ri_dc info) = Some xs" "s \<in> set xs"
    "address cf = server_address s" "acknowledges (ce_net example_clientenv n cf (RqSset example_kv)) r" by blast
  with lists run show ?thesis unfolding lists_only_def by (auto simp: example_clientenv_def)
qed


theorem targeted_call_retries_witness:
  "\<exists>client'. commonCallWithRouteId example_clientenv example_info
     (example_options\<lparr>lo_TargetServerAddress := \<lparr>AddrHost = ''10.0.0.1'', AddrPort = 8080\<rparr>\<rparr>) (RqGet example_key) example_client =
     Ran (\<lparr>cr_idxes = [], cr_status = Status_OK, cr_resp = NewLaserResponse\<lparr>lr_StringData := Some ''10.0.0.1''\<rparr>\<rparr>, client')"
proof -
  let ?o = "example_options\<lparr>lo_TargetServerAddress := \<lparr>AddrHost = ''10.0.0.1'', AddrPort = 8080\<rparr>\<rparr>"
  let ?s = "empty_server\<lparr>Host := AddrHost (lo_TargetServerAddress ?o), Port := AddrPort (lo_TargetServerAddress ?o)\<rparr>"
  let ?c = "thriftConfig ?o ?s" and ?p = "NewPool 8 (pool_options ?o)"
  have t: "checkTargetServerAddress (lo_TargetServerAddress ?o)" by (simp add: checkTargetServerAddress_def)
  have pool: "GetConnection_pool (ce_numCPU example_clientenv) ?c (pool_options ?o) (lc_cg example_client) =
      ((?c, ?p), [group_key ?c \<mapsto> (?c, ?p)])"
    by (simp add: GetConnection_pool_def example_clientenv_def example_client_def GetConnGroup_def Let_def)
  have "[1..<nat (lo_TimeoutRetry ?o) + 2] = [1, 2]" by (simp add: example_options_def upt_rec)
  then have "reply_of (find (\<lambda>a. a \<noteq> TimedOut) (map (\<lambda>n. ce_net example_clientenv n ?c (RqGet example_key)) [1..<nat (lo_TimeoutRetry ?o) + 2])) =
      \<lparr>cr_idxes = [], cr_status = Status_OK, cr_resp = NewLaserResponse\<lparr>lr_StringData := Some ''10.0.0.1''\<rparr>\<rparr>"
    by (simp add: example_clientenv_def example_net_def reply_of_def thriftConfig_def)
  with targeted_call_retries [OF t refl pool, of example_info "RqGet example_key"] show ?thesis by metis
qed

end
