(* ===== verification/Laser_Batch.thy ===== *)
theory Laser_Batch
  imports Laser_Client
begin

text \<open>
  The operations on many keys, from \<^verbatim>\<open>src/sdk/go/laser_client/laser_client.go\<close>: the keys are
  grouped by the server they go to, one goroutine calls each server, and the answers are put back at
  the positions of their keys.

  The maps that the code ranges over (data centres, routes, groups) are association lists whose
  iteration order is a function of \<open>BatchEnv\<close>. The goroutines of one operation share the record of
  options: each stores its address there and then copies the record for its call. A schedule is the
  list of the goroutines' indices in the order of these two actions; the answers reach the channel in
  the order of the calls.
\<close>

section \<open>State\<close>

record keyToIndex =
  ki_kv :: LaserKV
  ki_idx :: nat

record addressKeyMap =
  ak_address :: "ServerAddress option"
  ak_keyToIndexList :: "keyToIndex list"

record dcGroupInfo =
  gi_routeId2Indexs :: "int64 \<rightharpoonup> keyToIndex list"
  gi_uniqueShardIds :: "int64 list"
  gi_uniquePartitionHashes :: "int64 list"
  gi_partitionHash2ShardIds :: "int64 \<rightharpoonup> int64"
  gi_shardId :: int64
  gi_partitionHash :: int64
  gi_routeToEdgeNode :: bool

definition newDcGroupInfo :: dcGroupInfo where
  "newDcGroupInfo = \<lparr>gi_routeId2Indexs = Map.empty, gi_uniqueShardIds = [], gi_uniquePartitionHashes = [],
     gi_partitionHash2ShardIds = Map.empty, gi_shardId = 0, gi_partitionHash = 0, gi_routeToEdgeNode = False\<rparr>"

abbreviation (input) NIL_ADDRESS :: string where "NIL_ADDRESS \<equiv> ''nil_address''"

record BatchEnv =
  be_call :: ClientEnv
  be_intn :: "nat \<Rightarrow> nat"
  be_rand :: "nat \<Rightarrow> nat"
  be_dcs :: "(string \<times> dcGroupInfo) list \<Rightarrow> (string \<times> dcGroupInfo) list"
  be_edges :: "int64 list \<Rightarrow> int64 list"
  be_routes :: "int64 list \<Rightarrow> int64 list"
  be_groups :: "(string \<times> addressKeyMap) list \<Rightarrow> (string \<times> addressKeyMap) list"

section \<open>Grouping by server\<close>

definition add_route :: "route_info \<Rightarrow> keyToIndex \<Rightarrow> dcGroupInfo \<Rightarrow> dcGroupInfo" where
  "add_route info ki g =
     (let routerId = (if ri_routeToEdgeNode info then ri_partitionHash info else ri_shardId info) in
      case gi_routeId2Indexs g routerId of
        Some ks \<Rightarrow> g\<lparr>gi_routeId2Indexs := (gi_routeId2Indexs g)(routerId \<mapsto> ks @ [ki])\<rparr>
      | None \<Rightarrow>
          let g = g\<lparr>gi_routeId2Indexs := (gi_routeId2Indexs g)(routerId \<mapsto> [ki])\<rparr> in
          if ri_routeToEdgeNode info
          then g\<lparr>gi_uniquePartitionHashes := gi_uniquePartitionHashes g @ [routerId],
                 gi_partitionHash2ShardIds := (gi_partitionHash2ShardIds g)(ri_partitionHash info \<mapsto> ri_shardId info)\<rparr>
          else g\<lparr>gi_uniqueShardIds := gi_uniqueShardIds g @ [routerId]\<rparr>)"

definition dc_group :: "route_info \<Rightarrow> (string, dcGroupInfo) gomap \<Rightarrow> dcGroupInfo" where
  "dc_group info gis =
     (case map_of gis (ri_dc info) of
        Some g \<Rightarrow> g
      | None \<Rightarrow> newDcGroupInfo\<lparr>gi_shardId := ri_shardId info, gi_partitionHash := ri_partitionHash info,
                 gi_routeToEdgeNode := ri_routeToEdgeNode info\<rparr>)"

fun group_loop ::
  "BatchEnv \<Rightarrow> ReadMode \<Rightarrow> LaserClient \<Rightarrow> LaserKV list \<Rightarrow> nat \<Rightarrow> (string, dcGroupInfo) gomap \<Rightarrow> (string, dcGroupInfo) gomap go" where
  "group_loop B mode client [] idx gis = Inr gis"
| "group_loop B mode client (kv # kvs) idx gis =
     (case kv_Key kv of
        None \<Rightarrow> Inl NilDereference
      | Some key \<Rightarrow>
          go_bind (getRouteInfo (e_city (ce_env (be_call B))) (be_intn B idx) key mode client) (\<lambda>info.
            group_loop B mode client kvs (idx + 1)
              (AList.update (ri_dc info) (add_route info \<lparr>ki_kv = kv, ki_idx = idx\<rparr> (dc_group info gis)) gis)))"

text \<open>The loop over the answers for the edge routes: a route without a server goes back to its shard.\<close>

definition redirect_edge :: "int64 \<Rightarrow> dcGroupInfo \<Rightarrow> dcGroupInfo" where
  "redirect_edge partitionHash g =
     (case gi_partitionHash2ShardIds g partitionHash of
        None \<Rightarrow> g
      | Some shardId \<Rightarrow>
          let moved = (case gi_routeId2Indexs g partitionHash of None \<Rightarrow> [] | Some ks \<Rightarrow> ks);
              g = (case gi_routeId2Indexs g shardId of
                     None \<Rightarrow> g\<lparr>gi_uniqueShardIds := gi_uniqueShardIds g @ [shardId],
                               gi_routeId2Indexs := (gi_routeId2Indexs g)(shardId \<mapsto> moved)\<rparr>
                   | Some ks \<Rightarrow> g\<lparr>gi_routeId2Indexs := (gi_routeId2Indexs g)(shardId \<mapsto> ks @ moved)\<rparr>)
          in g\<lparr>gi_routeId2Indexs := (gi_routeId2Indexs g)(partitionHash := None)\<rparr>)"

fun redirect_loop ::
  "(int64 \<rightharpoonup> Server option) \<Rightarrow> int64 list \<Rightarrow> dcGroupInfo \<Rightarrow> int64 list \<Rightarrow> dcGroupInfo \<times> int64 list" where
  "redirect_loop edges [] g kept = (g, kept)"
| "redirect_loop edges (partitionHash # rest) g kept =
     (if the (edges partitionHash) = None \<and> gi_partitionHash2ShardIds g partitionHash \<noteq> None
      then redirect_loop edges rest (redirect_edge partitionHash g) kept
      else redirect_loop edges rest g (kept @ [partitionHash]))"

definition map_key :: "Server option \<Rightarrow> string" where
  "map_key server = (case server of None \<Rightarrow> NIL_ADDRESS | Some s \<Rightarrow> Host s @ '':'' @ Itoa (uint (Port s)))"

definition place_route ::
  "Server option \<Rightarrow> keyToIndex list \<Rightarrow> (string, addressKeyMap) gomap \<Rightarrow> (string, addressKeyMap) gomap" where
  "place_route server ks result =
     (let am = (case map_of result (map_key server) of
          Some am \<Rightarrow> am
        | None \<Rightarrow> \<lparr>ak_address = map_option (\<lambda>s. \<lparr>AddrHost = Host s, AddrPort = Port s\<rparr>) server, ak_keyToIndexList = []\<rparr>)
      in AList.update (map_key server) (am\<lparr>ak_keyToIndexList := ak_keyToIndexList am @ ks\<rparr>) result)"

fun place_loop ::
  "(int64 \<rightharpoonup> Server option) \<Rightarrow> (int64 \<rightharpoonup> keyToIndex list) \<Rightarrow> int64 list \<Rightarrow>
   (string, addressKeyMap) gomap \<Rightarrow> (string, addressKeyMap) gomap" where
  "place_loop servers indexs [] result = result"
| "place_loop servers indexs (routeId # rest) result =
     place_loop servers indexs rest
       (place_route (the (servers routeId)) (case indexs routeId of None \<Rightarrow> [] | Some ks \<Rightarrow> ks) result)"

definition discover_batch ::
  "BatchEnv \<Rightarrow> ClientOption \<Rightarrow> int64 list \<Rightarrow> LaserClient \<Rightarrow> ((int64 \<rightharpoonup> Server option) \<times> LaserClient) run" where
  "discover_batch B option ids client =
     run_bind (BatchDiscover (ce_fuel (be_call B)) (ce_env (be_call B)) (ce_user (be_call B)) (be_rand B) option ids (lc_router client))
       (\<lambda>(m, router). Ran (m, client\<lparr>lc_router := router\<rparr>))"

text \<open>The loop over the data centres. The keys of the answer for the list \<open>ids\<close> are \<open>remdups ids\<close>.\<close>

fun group_dcs ::
  "BatchEnv \<Rightarrow> LaserClientOption \<Rightarrow> (string \<times> dcGroupInfo) list \<Rightarrow> (string, addressKeyMap) gomap \<Rightarrow> LaserClient \<Rightarrow>
   ((string, addressKeyMap) gomap \<times> LaserClient) run" where
  "group_dcs B options [] result client = Ran (result, client)"
| "group_dcs B options ((dc, g) # rest) result client =
     (let routerOption = getClientOption client options
            \<lparr>ri_shardId = gi_shardId g, ri_partitionHash = gi_partitionHash g, ri_routeToEdgeNode = gi_routeToEdgeNode g, ri_dc = dc\<rparr>
      in run_bind (discover_batch B routerOption (gi_uniquePartitionHashes g) client) (\<lambda>(edges, client).
           let (g, kept) = redirect_loop edges (be_edges B (remdups (gi_uniquePartitionHashes g))) g []
           in run_bind (discover_batch B routerOption (gi_uniqueShardIds g) client) (\<lambda>(servers, client).
                group_dcs B options rest
                  (place_loop (\<lambda>k. if k \<in> set kept then edges k else servers k) (gi_routeId2Indexs g)
                     (be_routes B (remdups (gi_uniqueShardIds g @ kept))) result) client)))"

definition client_group ::
  "BatchEnv \<Rightarrow> LaserKV list \<Rightarrow> LaserClientOption \<Rightarrow> LaserClient \<Rightarrow> ((string, addressKeyMap) gomap \<times> LaserClient) run" where
  "client_group B kvs options client =
     run_bind (of_go (group_loop B (lo_ReadMode options) client kvs 0 []))
       (\<lambda>gis. group_dcs B options (be_dcs B gis) [] client)"

section \<open>Every key is in exactly one group\<close>

definition items_at :: "(int64 \<rightharpoonup> 'a list) \<Rightarrow> int64 \<Rightarrow> 'a list" where
  "items_at m r = (case m r of None \<Rightarrow> [] | Some ks \<Rightarrow> ks)"

definition route_items :: "(int64 \<rightharpoonup> 'a list) \<Rightarrow> int64 list \<Rightarrow> 'a multiset" where
  "route_items m rs = (\<Sum>r\<leftarrow>rs. mset (items_at m r))"

lemma route_items_simps [simp]:
  "route_items m [] = {#}" "route_items m (r # rs) = mset (items_at m r) + route_items m rs"
  "route_items m (rs @ rs') = route_items m rs + route_items m rs'"
  by (simp_all add: route_items_def)

lemma route_items_cong: "(\<And>r. r \<in> set rs \<Longrightarrow> m r = m' r) \<Longrightarrow> route_items m rs = route_items m' rs"
  by (induction rs) (simp_all add: items_at_def)

lemma route_items_other [simp]: "r \<notin> set rs \<Longrightarrow> route_items (m(r := v)) rs = route_items m rs"
  by (rule route_items_cong) auto

lemma items_at_upd [simp]:
  "items_at (m(r \<mapsto> ks)) q = (if q = r then ks else items_at m q)"
  "items_at (m(r := None)) q = (if q = r then [] else items_at m q)"
  by (simp_all add: items_at_def)

lemma route_items_update:
  "distinct rs \<Longrightarrow> r \<in> set rs \<Longrightarrow>
   route_items (m(r \<mapsto> items_at m r @ ks)) rs = route_items m rs + mset ks"
proof (induction rs)
  case (Cons q rs)
  show ?case
  proof (cases "q = r")
    case True
    then have "route_items (m(r \<mapsto> items_at m r @ ks)) rs = route_items m rs" using Cons.prems(1) by simp
    with True show ?thesis by (simp add: add_ac del: fun_upd_apply)
  next
    case False
    with Cons show ?thesis by (simp add: add_ac del: fun_upd_apply)
  qed
qed simp

lemma route_items_perm: "mset rs = mset rs' \<Longrightarrow> route_items m rs = route_items m rs'"
  by (simp add: route_items_def sum_mset_sum_list [symmetric])

text \<open>The items of all entries of an association list, and how an update changes them.\<close>

definition entry_items :: "('v \<Rightarrow> 'a multiset) \<Rightarrow> ('k \<times> 'v) list \<Rightarrow> 'a multiset" where
  "entry_items f m = (\<Sum>kv\<leftarrow>m. f (snd kv))"

lemma entry_items_simps [simp]:
  "entry_items f [] = {#}" "entry_items f (kv # m) = f (snd kv) + entry_items f m"
  by (simp_all add: entry_items_def)

lemma entry_items_update:
  "entry_items f (AList.update k v m) + (case map_of m k of None \<Rightarrow> {#} | Some w \<Rightarrow> f w) = entry_items f m + f v"
proof (induction m)
  case (Cons kw m)
  then show ?case by (cases "fst kw = k") (simp_all add: add_ac prod.case_eq_if)
qed simp

lemma entry_items_order: "mset xs = mset ys \<Longrightarrow> entry_items f xs = entry_items f ys"
  by (simp add: entry_items_def sum_mset_sum_list [symmetric])

definition group_items :: "dcGroupInfo \<Rightarrow> keyToIndex multiset" where
  "group_items g = route_items (gi_routeId2Indexs g) (gi_uniqueShardIds g @ gi_uniquePartitionHashes g)"

text \<open>The invariant of a data centre's group, for disjoint sets \<open>S\<close> of shard ids and \<open>H\<close> of partition
  hashes.\<close>

definition routes_wf :: "int64 set \<Rightarrow> int64 set \<Rightarrow> int64 list \<Rightarrow> dcGroupInfo \<Rightarrow> bool" where
  "routes_wf S H edges g \<longleftrightarrow> distinct (gi_uniqueShardIds g @ edges) \<and>
     dom (gi_routeId2Indexs g) = set (gi_uniqueShardIds g @ edges) \<and>
     set edges \<subseteq> dom (gi_partitionHash2ShardIds g) \<and> set (gi_uniqueShardIds g) \<subseteq> S \<and> set edges \<subseteq> H \<and>
     ran (gi_partitionHash2ShardIds g) \<subseteq> S"

abbreviation (input) group_wf :: "int64 set \<Rightarrow> int64 set \<Rightarrow> dcGroupInfo \<Rightarrow> bool" where
  "group_wf S H g \<equiv> routes_wf S H (gi_uniquePartitionHashes g) g"

lemma add_route_items:
  assumes "group_wf S H g" and "ri_shardId info \<in> S" and "ri_routeToEdgeNode info \<Longrightarrow> ri_partitionHash info \<in> H"
  shows "group_wf S H (add_route info ki g) \<and> group_items (add_route info ki g) = add_mset ki (group_items g)"
proof (cases "gi_routeId2Indexs g (if ri_routeToEdgeNode info then ri_partitionHash info else ri_shardId info)")
  case None
  let ?r = "if ri_routeToEdgeNode info then ri_partitionHash info else ri_shardId info"
  have new: "?r \<notin> set (gi_uniqueShardIds g)" "?r \<notin> set (gi_uniquePartitionHashes g)"
    using None assms(1) unfolding routes_wf_def by (metis Un_iff domIff set_append)+
  have "group_items (add_route info ki g) = add_mset ki (group_items g)"
    using None new by (cases "ri_routeToEdgeNode info") (simp_all add: add_route_def Let_def group_items_def)
  moreover have "group_wf S H (add_route info ki g)"
    using None new assms by (cases "ri_routeToEdgeNode info") (auto simp: add_route_def Let_def routes_wf_def ran_def)
  ultimately show ?thesis by blast
next
  case (Some ks)
  let ?r = "if ri_routeToEdgeNode info then ri_partitionHash info else ri_shardId info"
  have "?r \<in> set (gi_uniqueShardIds g @ gi_uniquePartitionHashes g)" using Some assms(1) by (auto simp: routes_wf_def)
  moreover have "items_at (gi_routeId2Indexs g) ?r = ks" using Some by (simp add: items_at_def)
  ultimately have "group_items (add_route info ki g) = add_mset ki (group_items g)"
    using Some assms(1) route_items_update [of "gi_uniqueShardIds g @ gi_uniquePartitionHashes g" ?r "gi_routeId2Indexs g" "[ki]"]
    by (simp add: add_route_def Let_def group_items_def routes_wf_def)
  moreover have "group_wf S H (add_route info ki g)"
    using Some assms(1) by (auto simp: add_route_def Let_def routes_wf_def)
  ultimately show ?thesis by blast
qed

text \<open>The position \<open>i\<close> of the batch as an item.\<close>

definition item :: "LaserKV list \<Rightarrow> nat \<Rightarrow> keyToIndex" where
  "item kvs i = \<lparr>ki_kv = kvs ! i, ki_idx = i\<rparr>"

definition routed_into :: "BatchEnv \<Rightarrow> ReadMode \<Rightarrow> LaserClient \<Rightarrow> int64 set \<Rightarrow> int64 set \<Rightarrow> LaserKV \<Rightarrow> nat \<Rightarrow> bool" where
  "routed_into B mode client S H kv i \<longleftrightarrow> (\<forall>key info. kv_Key kv = Some key \<and>
     getRouteInfo (e_city (ce_env (be_call B))) (be_intn B i) key mode client = Inr info \<longrightarrow>
     ri_shardId info \<in> S \<and> (ri_routeToEdgeNode info \<longrightarrow> ri_partitionHash info \<in> H))"

lemma dc_group_wf:
  assumes "\<forall>g \<in> snd ` set gis. group_wf S H g"
  shows "group_wf S H (dc_group info gis)"
proof (cases "map_of gis (ri_dc info)")
  case None
  then show ?thesis by (simp add: dc_group_def routes_wf_def newDcGroupInfo_def)
next
  case (Some g)
  then have "g \<in> snd ` set gis" by (force dest: map_of_SomeD)
  with assms have "group_wf S H g" by blast
  with Some show ?thesis by (simp add: dc_group_def)
qed

lemma dc_group_items:
  "(case map_of gis (ri_dc info) of None \<Rightarrow> {#} | Some g \<Rightarrow> group_items g) = group_items (dc_group info gis)"
  by (simp add: dc_group_def group_items_def newDcGroupInfo_def split: option.split)

lemma in_update: "x \<in> set (AList.update k v m) \<Longrightarrow> x = (k, v) \<or> x \<in> set m"
  by (induction m) (auto split: if_splits)

lemma group_loop_items:
  "group_loop B mode client kvs idx gis = Inr gis' \<Longrightarrow> \<forall>g \<in> snd ` set gis. group_wf S H g \<Longrightarrow>
   (\<And>i. i < length kvs \<Longrightarrow> routed_into B mode client S H (kvs ! i) (idx + i)) \<Longrightarrow>
   (\<forall>g \<in> snd ` set gis'. group_wf S H g) \<and>
   entry_items group_items gis' = entry_items group_items gis + {#\<lparr>ki_kv = kvs ! i, ki_idx = idx + i\<rparr>. i \<in># mset [0..<length kvs]#}"
proof (induction kvs arbitrary: idx gis)
  case Nil
  then show ?case by simp
next
  case (Cons kv kvs)
  obtain key info where key: "kv_Key kv = Some key"
    and info: "getRouteInfo (e_city (ce_env (be_call B))) (be_intn B idx) key mode client = Inr info"
    using Cons.prems(1) by (auto simp: go_bind_def split: option.splits sum.splits)
  let ?ki = "\<lparr>ki_kv = kv, ki_idx = idx\<rparr>"
  let ?g = "add_route info ?ki (dc_group info gis)"
  let ?gis = "AList.update (ri_dc info) ?g gis"
  have rest: "group_loop B mode client kvs (idx + 1) ?gis = Inr gis'"
    using Cons.prems(1) key info by (simp add: go_bind_def)
  have "routed_into B mode client S H kv idx" using Cons.prems(3) [of 0] by simp
  then have ri: "ri_shardId info \<in> S" "ri_routeToEdgeNode info \<Longrightarrow> ri_partitionHash info \<in> H"
    using key info by (auto simp: routed_into_def)
  note g = add_route_items [OF dc_group_wf [OF Cons.prems(2)] ri, of ?ki]
  have wf: "\<forall>g \<in> snd ` set ?gis. group_wf S H g"
    using g Cons.prems(2) by (auto dest!: in_update)
  have "routed_into B mode client S H (kvs ! i) (idx + 1 + i)" if "i < length kvs" for i
    using Cons.prems(3) [of "Suc i"] that by simp
  from Cons.IH [OF rest wf this] have ih: "(\<forall>g \<in> snd ` set gis'. group_wf S H g)"
    "entry_items group_items gis' = entry_items group_items ?gis +
      {#\<lparr>ki_kv = kvs ! i, ki_idx = idx + 1 + i\<rparr>. i \<in># mset [0..<length kvs]#}" by blast+
  have "entry_items group_items ?gis + group_items (dc_group info gis) = entry_items group_items gis + group_items ?g"
    using entry_items_update [of group_items "ri_dc info" ?g gis] by (simp add: dc_group_items)
  then have upd: "entry_items group_items ?gis = add_mset ?ki (entry_items group_items gis)"
    using g by simp
  have "mset [0..<length (kv # kvs)] = add_mset 0 (image_mset Suc (mset [0..<length kvs]))"
    by (simp only: list.size mset_map [symmetric] map_Suc_upt mset.simps [symmetric] upt_conv_Cons [symmetric])
       (simp add: upt_conv_Cons del: upt_Suc)
  then have "{#\<lparr>ki_kv = (kv # kvs) ! i, ki_idx = idx + i\<rparr>. i \<in># mset [0..<length (kv # kvs)]#} =
      add_mset ?ki {#\<lparr>ki_kv = kvs ! i, ki_idx = idx + 1 + i\<rparr>. i \<in># mset [0..<length kvs]#}"
    by (simp add: image_mset.compositionality comp_def del: mset_upt)
  with ih upd show ?case by (simp del: mset_upt)
qed
lemma redirect_edge_items:
  assumes "routes_wf S H (kept @ p # todo) g" and "S \<inter> H = {}"
  shows "routes_wf S H (kept @ todo) (redirect_edge p g) \<and>
    route_items (gi_routeId2Indexs (redirect_edge p g)) (gi_uniqueShardIds (redirect_edge p g) @ kept @ todo) =
    route_items (gi_routeId2Indexs g) (gi_uniqueShardIds g @ kept @ p # todo)"
proof -
  let ?m = "gi_routeId2Indexs g" and ?us = "gi_uniqueShardIds g"
  obtain sh where sh: "gi_partitionHash2ShardIds g p = Some sh" using assms(1) by (auto simp: routes_wf_def)
  have "sh \<in> S" using sh assms(1) by (auto simp: routes_wf_def intro: ranI)
  then have ne: "sh \<noteq> p" "sh \<notin> set kept" "sh \<notin> set todo" using assms by (auto simp: routes_wf_def)
  have p: "p \<notin> set ?us" "p \<notin> set kept" "p \<notin> set todo" using assms(1) by (auto simp: routes_wf_def)
  have rm: "route_items (m(p := None)) (us @ kept @ todo) = route_items m (us @ kept @ todo)" if "p \<notin> set us" for m us
    using that p by simp
  show ?thesis
  proof (cases "?m sh")
    case None
    then have "sh \<notin> set ?us" using assms(1) unfolding routes_wf_def by (metis Un_iff domIff set_append)
    then show ?thesis
      using None sh assms ne p \<open>sh \<in> S\<close> rm [of "?us @ [sh]"]
      by (auto simp: redirect_edge_def routes_wf_def Let_def items_at_def [symmetric] simp del: fun_upd_apply)
  next
    case (Some ks)
    then have "sh \<in> set ?us" using assms ne unfolding routes_wf_def by auto
    have ks: "ks = items_at ?m sh" using Some by (simp add: items_at_def)
    have "route_items (?m(sh \<mapsto> items_at ?m sh @ items_at ?m p)) ?us = route_items ?m ?us + mset (items_at ?m p)"
      using assms(1) \<open>sh \<in> set ?us\<close> by (intro route_items_update) (auto simp: routes_wf_def)
    then show ?thesis
      using Some ks sh assms ne p rm [of ?us]
      by (auto simp: redirect_edge_def routes_wf_def Let_def items_at_def [symmetric] add_ac simp del: fun_upd_apply)
  qed
qed

lemma redirect_loop_items:
  assumes "S \<inter> H = {}"
  shows "redirect_loop edges todo g kept = (g', kept') \<Longrightarrow> routes_wf S H (kept @ todo) g \<Longrightarrow>
    routes_wf S H kept' g' \<and>
    route_items (gi_routeId2Indexs g') (gi_uniqueShardIds g' @ kept') =
    route_items (gi_routeId2Indexs g) (gi_uniqueShardIds g @ kept @ todo)"
proof (induction todo arbitrary: g kept)
  case (Cons p todo)
  show ?case
  proof (cases "the (edges p) = None \<and> gi_partitionHash2ShardIds g p \<noteq> None")
    case True
    then have "redirect_loop edges todo (redirect_edge p g) kept = (g', kept')" using Cons.prems(1) by simp
    from Cons.IH [OF this] redirect_edge_items [OF Cons.prems(2) assms] show ?thesis by auto
  next
    case False
    then have "redirect_loop edges todo g (kept @ [p]) = (g', kept')" using Cons.prems(1) by auto
    from Cons.IH [OF this] Cons.prems(2) show ?thesis by simp
  qed
qed simp

abbreviation (input) placed :: "(string, addressKeyMap) gomap \<Rightarrow> keyToIndex multiset" where
  "placed result \<equiv> entry_items (\<lambda>am. mset (ak_keyToIndexList am)) result"

lemma place_route_items: "placed (place_route server ks result) = placed result + mset ks"
proof (cases "map_of result (map_key server)")
  case None
  then show ?thesis
    using entry_items_update [of "\<lambda>am. mset (ak_keyToIndexList am)" "map_key server" _ result]
    by (simp add: place_route_def Let_def)
next
  case (Some am)
  have "placed (place_route server ks result) + mset (ak_keyToIndexList am) =
      placed result + mset ks + mset (ak_keyToIndexList am)"
    using Some entry_items_update [of "\<lambda>am. mset (ak_keyToIndexList am)" "map_key server"
        "am\<lparr>ak_keyToIndexList := ak_keyToIndexList am @ ks\<rparr>" result]
    by (simp add: place_route_def Let_def add_ac)
  then show ?thesis by simp
qed

lemma place_loop_items: "placed (place_loop servers m rs result) = placed result + route_items m rs"
  by (induction rs arbitrary: result) (simp_all add: place_route_items items_at_def [symmetric])

lemma group_dcs_step:
  assumes "group_dcs B options ((dc, g) # gs) result client = Ran (result', client')"
    and "ro = getClientOption client options \<lparr>ri_shardId = gi_shardId g, ri_partitionHash = gi_partitionHash g,
      ri_routeToEdgeNode = gi_routeToEdgeNode g, ri_dc = dc\<rparr>"
  obtains edges client1 g1 kept servers client2 where
    "discover_batch B ro (gi_uniquePartitionHashes g) client = Ran (edges, client1)"
    "redirect_loop edges (be_edges B (remdups (gi_uniquePartitionHashes g))) g [] = (g1, kept)"
    "discover_batch B ro (gi_uniqueShardIds g1) client1 = Ran (servers, client2)"
    "group_dcs B options gs (place_loop (\<lambda>k. if k \<in> set kept then edges k else servers k) (gi_routeId2Indexs g1)
        (be_routes B (remdups (gi_uniqueShardIds g1 @ kept))) result) client2 = Ran (result', client')"
proof -
  obtain edges client1 where e: "discover_batch B ro (gi_uniquePartitionHashes g) client = Ran (edges, client1)"
    using assms by (auto simp: run_bind_eq_Ran Let_def)
  obtain g1 kept where r: "redirect_loop edges (be_edges B (remdups (gi_uniquePartitionHashes g))) g [] = (g1, kept)"
    by fastforce
  show thesis
    using assms that [OF e r] e r by (auto simp: run_bind_eq_Ran Let_def simp del: remdups_append2)
qed

lemma group_dcs_items:
  assumes "S \<inter> H = {}" and "is_order (be_edges B)" "is_order (be_routes B)"
  shows "group_dcs B options gs result client = Ran (result', client') \<Longrightarrow> \<forall>g \<in> snd ` set gs. group_wf S H g \<Longrightarrow>
    placed result' = placed result + entry_items group_items gs"
proof (induction gs arbitrary: result client)
  case (Cons dg gs)
  obtain dc g where dg: "dg = (dc, g)" by (cases dg)
  obtain edges client1 g1 kept servers client2 where
    red: "redirect_loop edges (be_edges B (remdups (gi_uniquePartitionHashes g))) g [] = (g1, kept)"
    and rest: "group_dcs B options gs (place_loop (\<lambda>k. if k \<in> set kept then edges k else servers k) (gi_routeId2Indexs g1)
        (be_routes B (remdups (gi_uniqueShardIds g1 @ kept))) result) client2 = Ran (result', client')"
    by (rule group_dcs_step [OF Cons.prems(1) [unfolded dg] refl])
  have wf: "group_wf S H g" using Cons.prems(2) dg by simp
  then have d: "remdups (gi_uniquePartitionHashes g) = gi_uniquePartitionHashes g"
    by (simp add: routes_wf_def distinct_remdups_id)
  let ?todo = "be_edges B (gi_uniquePartitionHashes g)"
  have todo: "mset ?todo = mset (gi_uniquePartitionHashes g)" "set ?todo = set (gi_uniquePartitionHashes g)"
    "distinct ?todo = distinct (gi_uniquePartitionHashes g)"
    using is_orderD [OF assms(2)] by blast+
  have "routes_wf S H ([] @ ?todo) g" using wf todo by (simp add: routes_wf_def)
  with redirect_loop_items [OF assms(1)] red d have r: "routes_wf S H kept g1"
    "route_items (gi_routeId2Indexs g1) (gi_uniqueShardIds g1 @ kept) =
     route_items (gi_routeId2Indexs g) (gi_uniqueShardIds g @ ?todo)" by auto
  have "mset (be_routes B (remdups (gi_uniqueShardIds g1 @ kept))) = mset (gi_uniqueShardIds g1 @ kept)"
    using r(1) is_orderD(1) [OF assms(3)] by (simp add: routes_wf_def distinct_remdups_id del: remdups_append2)
  then have "route_items (gi_routeId2Indexs g1) (be_routes B (remdups (gi_uniqueShardIds g1 @ kept))) =
      route_items (gi_routeId2Indexs g1) (gi_uniqueShardIds g1 @ kept)" by (rule route_items_perm)
  also have "\<dots> = group_items g"
    using r(2) route_items_perm [OF todo(1), of "gi_routeId2Indexs g"] by (simp add: group_items_def)
  finally have "route_items (gi_routeId2Indexs g1) (be_routes B (remdups (gi_uniqueShardIds g1 @ kept))) = group_items g" .
  with Cons.IH [OF rest] Cons.prems(2) show ?case
    by (simp add: dg place_loop_items del: remdups_append2)
qed simp

text \<open>Shard ids are small numbers, whatever the hash of the partition.\<close>

definition shard_ids :: "int64 set" where
  "shard_ids = {s. \<bar>sint s\<bar> < 4294967296}"

lemma getShardId_small:
  assumes "getShardId h n = Inr r"
  shows "r \<in> shard_ids"
proof (cases "n = 0")
  case True
  with assms show ?thesis by (auto simp: getShardId_def UINT32MAX_def shard_ids_def)
next
  case False
  let ?b = "sint (ucast n :: int64)" and ?a = "sint (abs64 h)"
  have b: "?b = uint n" "0 < uint n" using False by (simp_all add: sint_ucast32 uint_0_iff order_less_le)
  have n: "uint n < 4294967296" using uint_lt2p [of n] by simp
  have "(ucast n :: int64) \<noteq> 0" using b by auto
  then have r: "r = word_of_int (?a smod ?b)" using assms False by (auto simp: getShardId_def go_rem64_def)
  have "?a smod ?b \<in> {- \<bar>?b\<bar> + 1..\<bar>?b\<bar> - 1}" using b by (intro smod_int_range) simp
  with b n have "- 4294967296 < ?a smod ?b" "?a smod ?b < 4294967296" by auto
  moreover from this have "sint r = ?a smod ?b" unfolding r by (intro sint_word_of_int_64) auto
  ultimately show ?thesis by (auto simp: shard_ids_def abs_less_iff)
qed

lemma getRouteInfo_shard:
  "getRouteInfo city rnd key mode client = Inr info \<Longrightarrow> ri_shardId info \<in> shard_ids"
  by (auto simp: getRouteInfo_def go_bind_def GetShardId_def Let_def shard_ids_def
      split: option.splits sum.splits dest!: getShardId_small)

lemma client_group_items:
  assumes "is_order (be_dcs B)" "is_order (be_edges B)" "is_order (be_routes B)"
    and "client_group B kvs options client = Ran (result, client')"
    and "\<forall>i < length kvs. \<forall>key info. kv_Key (kvs ! i) = Some key \<and>
      getRouteInfo (e_city (ce_env (be_call B))) (be_intn B i) key (lo_ReadMode options) client = Inr info \<and>
      ri_routeToEdgeNode info \<longrightarrow> ri_partitionHash info \<notin> shard_ids"
  shows "mset (concat (map (\<lambda>(k, am). ak_keyToIndexList am) result)) = mset (map (item kvs) [0..<length kvs])"
proof -
  obtain gis where loop: "group_loop B (lo_ReadMode options) client kvs 0 [] = Inr gis"
    and dcs: "group_dcs B options (be_dcs B gis) [] client = Ran (result, client')"
    using assms(4) by (auto simp: client_group_def run_bind_eq_Ran of_go_def split: sum.splits)
  have routed: "routed_into B (lo_ReadMode options) client shard_ids (- shard_ids) (kvs ! i) (0 + i)" if "i < length kvs" for i
    using assms(5) that getRouteInfo_shard by (auto simp: routed_into_def)
  have g: "\<forall>g \<in> snd ` set gis. group_wf shard_ids (- shard_ids) g"
    "entry_items group_items gis = {#item kvs i. i \<in># mset [0..<length kvs]#}"
    using group_loop_items [OF loop _ routed] by (auto simp: item_def)
  have "placed result = entry_items group_items (be_dcs B gis)"
    using group_dcs_items [OF _ assms(2,3) dcs, of shard_ids "- shard_ids"] g(1) is_orderD(2) [OF assms(1)] by simp
  also have "\<dots> = mset (map (item kvs) [0..<length kvs])"
    using g(2) entry_items_order [OF is_orderD(1) [OF assms(1)], of group_items gis] by simp
  finally show ?thesis by (simp add: entry_items_def mset_concat comp_def case_prod_unfold)
qed

text \<open>C4. Every key of a batch is in exactly one group, at its own position, whatever servers discovery finds
  and in whatever order the maps are visited, provided no key's edge route is a number below \<open>2\<^sup>3\<^sup>2\<close>, where
  it could be taken for a shard id.\<close>

theorem client_group_partitions:
  assumes "is_order (be_dcs B)" "is_order (be_edges B)" "is_order (be_routes B)"
    and "client_group B kvs options client = Ran (result, client')"
    and "\<forall>i < length kvs. \<forall>key info. kv_Key (kvs ! i) = Some key \<and>
      getRouteInfo (e_city (ce_env (be_call B))) (be_intn B i) key (lo_ReadMode options) client = Inr info \<and>
      ri_routeToEdgeNode info \<longrightarrow> ri_partitionHash info \<notin> shard_ids"
  shows "mset (concat (map (\<lambda>(k, am). ak_keyToIndexList am) result)) = mset (map (item kvs) [0..<length kvs])"
  using assms by (rule client_group_items)

subsection \<open>A batch of two keys\<close>

definition example_batch :: "ClientEnv \<Rightarrow> BatchEnv" where
  "example_batch P = \<lparr>be_call = P, be_intn = (\<lambda>i. 0), be_rand = (\<lambda>i. 0), be_dcs = (\<lambda>xs. xs), be_edges = rev,
     be_routes = (\<lambda>xs. xs), be_groups = rev\<rparr>"

definition like_example :: "ClientEnv \<Rightarrow> bool" where
  "like_example P \<longleftrightarrow> ce_fuel P = 2 \<and> ce_env P = example_env \<and> ce_user P = no_user"

lemma example_selects:
  "SelectServers char_city (r_routerDb example_router) ''svc'' ServerProtocol_THRIFT 0 ShardType_FOLLOWER DEFAULT_DC =
     Some [example_server]"
  by (simp add: SelectServers_def example_router_def)

lemma example_discover_batch:
  assumes "like_example P" and "example_ready client"
  shows "\<exists>client'. discover_batch (example_batch P) (example_routeropt FOLLOWER_READ) [] client = Ran (Map.empty, client') \<and>
      example_ready client' \<and> lc_cg client' = lc_cg client"
    and "\<exists>client'. discover_batch (example_batch P) (example_routeropt FOLLOWER_READ) [0] client =
      Ran ([0 \<mapsto> Some example_server], client') \<and> example_ready client' \<and> lc_cg client' = lc_cg client"
proof -
  let ?r = "lc_router client" and ?o = "example_routeropt FOLLOWER_READ"
  obtain router1 where bal: "GetOrCreateBalancer char_city ?o ?r = (Builtin LbRandom, router1)"
    and frame: "r_discoverPullers router1 = r_discoverPullers ?r" "r_routerDb router1 = r_routerDb ?r"
      "\<forall>i b. r_balancers router1 i = Some b \<longrightarrow> b = Builtin LbRandom"
    using assms(2)
    by (cases "r_balancers ?r (balanceId char_city ?o)")
      (auto simp: GetOrCreateBalancer_def example_routeropt_simps Let_def example_ready_def)
  have puller: "GetOrCreateDiscoverPuller 2 example_env ''svc'' ?r = Ran ?r"
    using assms(2) settled_puller by (simp add: example_ready_def)
  have city: "e_city example_env = char_city" by (simp add: example_env_def)
  have o: "co_Protocol ?o = ServerProtocol_THRIFT" "co_ShardType ?o = ShardType_FOLLOWER" "co_Dc ?o = DEFAULT_DC"
    by (simp_all add: example_routeropt_def getClientOption_def example_info_def)
  have db: "r_routerDb ?r = r_routerDb example_router" using assms(2) by (simp add: example_ready_def)
  show "\<exists>client'. discover_batch (example_batch P) ?o [] client = Ran (Map.empty, client') \<and> example_ready client' \<and> lc_cg client' = lc_cg client"
    using assms bal frame puller city
    by (simp add: discover_batch_def example_batch_def like_example_def BatchDiscover_def example_routeropt_simps Let_def
        example_ready_def settled_def)
  have sel: "select_with no_user 0 i (Builtin LbRandom) [example_server] router1 =
      Ran (Some example_server, router1\<lparr>r_balancers := (r_balancers router1)(i \<mapsto> Builtin LbRandom)\<rparr>)" for i
    by (simp add: select_with_def Random_Select_def pick_random_def rand_Int_def)
  show "\<exists>client'. discover_batch (example_batch P) ?o [0] client = Ran ([0 \<mapsto> Some example_server], client') \<and> example_ready client' \<and> lc_cg client' = lc_cg client"
    using assms bal frame puller city o db example_selects sel
    by (simp add: discover_batch_def example_batch_def like_example_def BatchDiscover_def example_routeropt_simps Let_def
        example_ready_def settled_def BatchSelectServers_def)
qed

lemma example_group:
  assumes "like_example P" and "kv_Key kv1 = Some key1" "kv_Key kv2 = Some key2"
  shows "\<exists>client'. client_group (example_batch P) [kv1, kv2] example_options example_client =
    Ran ([(map_key (Some example_server), \<lparr>ak_address = Some \<lparr>AddrHost = ''10.0.0.1'', AddrPort = 8080\<rparr>,
      ak_keyToIndexList = [item [kv1, kv2] 0, item [kv1, kv2] 1]\<rparr>)], client') \<and> lc_cg client' = GetConnGroup"
proof -
  let ?g = "newDcGroupInfo\<lparr>gi_routeId2Indexs := [0 \<mapsto> [item [kv1, kv2] 0, item [kv1, kv2] 1]], gi_uniqueShardIds := [0]\<rparr>"
  have loop: "group_loop (example_batch P) (lo_ReadMode example_options) example_client [kv1, kv2] 0 [] = Inr [(DEFAULT_DC, ?g)]"
    using assms(2,3)
    by (simp add: example_getRouteInfo go_bind_def example_info_def dc_group_def add_route_def Let_def
        newDcGroupInfo_def item_def)
  have ro: "getClientOption example_client example_options
      \<lparr>ri_shardId = gi_shardId ?g, ri_partitionHash = gi_partitionHash ?g, ri_routeToEdgeNode = gi_routeToEdgeNode ?g, ri_dc = DEFAULT_DC\<rparr> =
      example_routeropt FOLLOWER_READ"
    by (simp add: example_routeropt_def example_info_def newDcGroupInfo_def example_options_def NewClientOptionFactory_def)
  have "example_ready example_client"
    by (simp add: example_ready_def example_client_def) (simp add: example_router_def settled_def new_router_def)
  from example_discover_batch(1) [OF assms(1) this] obtain client1 where c1:
    "discover_batch (example_batch P) (example_routeropt FOLLOWER_READ) [] example_client = Ran (Map.empty, client1)"
    "example_ready client1" "lc_cg client1 = GetConnGroup" by (auto simp: example_client_def)
  from example_discover_batch(2) [OF assms(1) c1(2)] obtain client2 where c2:
    "discover_batch (example_batch P) (example_routeropt FOLLOWER_READ) [0] client1 = Ran ([0 \<mapsto> Some example_server], client2)"
    "lc_cg client2 = GetConnGroup" using c1(3) by auto
  have ids: "gi_uniquePartitionHashes ?g = []" "gi_uniqueShardIds ?g = [0]"
    "be_dcs (example_batch P) xs = xs" "be_edges (example_batch P) [] = []" "be_routes (example_batch P) [0] = [0]" for xs
    by (simp_all add: newDcGroupInfo_def example_batch_def)
  have "group_dcs (example_batch P) example_options [(DEFAULT_DC, ?g)] [] example_client =
      Ran (place_loop [0 \<mapsto> Some example_server] (gi_routeId2Indexs ?g) [0] [], client2)"
    using c1(1) c2(1) by (simp only: group_dcs.simps ro Let_def ids run_bind_simps case_prod_conv redirect_loop.simps
        remdups.simps append.simps list.set empty_iff if_False)
  moreover have "place_loop [0 \<mapsto> Some example_server] (gi_routeId2Indexs ?g) [0] [] =
      [(map_key (Some example_server), \<lparr>ak_address = Some \<lparr>AddrHost = ''10.0.0.1'', AddrPort = 8080\<rparr>,
        ak_keyToIndexList = [item [kv1, kv2] 0, item [kv1, kv2] 1]\<rparr>)]"
    by (simp add: place_route_def Let_def example_server_def)
  ultimately show ?thesis using loop c2(2) by (simp add: client_group_def ids)
qed

theorem client_group_partitions_witness:
  "\<exists>groups client'. client_group (example_batch example_clientenv) [example_kv, example_kv] example_options example_client = Ran (groups, client') \<and>
     mset (concat (map (\<lambda>(k, am). ak_keyToIndexList am) groups)) =
     {#item [example_kv, example_kv] 0, item [example_kv, example_kv] 1#}"
proof -
  have "like_example example_clientenv" by (simp add: like_example_def example_clientenv_def)
  moreover have "kv_Key example_kv = Some example_key" by (simp add: example_kv_def)
  ultimately obtain groups client' where g:
    "client_group (example_batch example_clientenv) [example_kv, example_kv] example_options example_client = Ran (groups, client')"
    using example_group by metis
  have "is_order (be_dcs (example_batch example_clientenv))" "is_order (be_edges (example_batch example_clientenv))"
    "is_order (be_routes (example_batch example_clientenv))"
    by (simp_all add: example_batch_def is_order_id is_order_rev)
  from client_group_partitions [OF this g] have
    "mset (concat (map (\<lambda>(k, am). ak_keyToIndexList am) groups)) = mset (map (item [example_kv, example_kv]) [0..<length [example_kv, example_kv]])"
    by (simp add: example_getRouteInfo example_info_def)
  with g show ?thesis by (auto simp: upt_rec)
qed

end
