(* ===== verification/Laser_Mops.thy ===== *)
theory Laser_Mops
  imports Laser_Batch
begin

text \<open>
  The operations \<open>Mset\<close>, \<open>Mget\<close> and their detailed variants, from
  \<^verbatim>\<open>src/sdk/go/laser_client/laser_client.go\<close>, on top of the groups of \<^verbatim>\<open>Laser_Batch\<close>.

  A schedule lists the goroutines in the order of their actions: a goroutine with an address first
  stores it in the shared options and then copies the options for its call; the goroutine of the keys
  without a server has one action. The answers are processed in the order of the second actions.
\<close>

section \<open>The goroutines\<close>

definition no_route :: route_info where
  "no_route = \<lparr>ri_shardId = 0, ri_partitionHash = 0, ri_routeToEdgeNode = False, ri_dc = DEFAULT_DC\<rparr>"

fun mop_run ::
  "ClientEnv \<Rightarrow> (keyToIndex list \<Rightarrow> request) \<Rightarrow> (nat \<Rightarrow> callResp) \<Rightarrow> (string \<times> addressKeyMap) list \<Rightarrow> nat list \<Rightarrow>
   nat list \<Rightarrow> LaserClientOption \<Rightarrow> callResp list \<Rightarrow> LaserClient \<Rightarrow> (callResp list \<times> LaserClient) run" where
  "mop_run P rq nil_resp groups [] stored options chs client = Ran (chs, client)"
| "mop_run P rq nil_resp groups (i # sched) stored options chs client =
     (case groups ! i of (key, addMap) \<Rightarrow>
        let ks = ak_keyToIndexList addMap; indexes = map ki_idx ks in
        if key = NIL_ADDRESS then
          mop_run P rq nil_resp groups sched stored options (chs @ [(nil_resp (length ks))\<lparr>cr_idxes := indexes\<rparr>]) client
        else if i \<notin> set stored then
          (case ak_address addMap of
             None \<Rightarrow> Panicked NilDereference
           | Some a \<Rightarrow> mop_run P rq nil_resp groups sched (i # stored) (options\<lparr>lo_TargetServerAddress := a\<rparr>) chs client)
        else run_bind (commonCallWithRouteId P no_route options (rq ks) client) (\<lambda>(resp, client).
               mop_run P rq nil_resp groups sched stored options (chs @ [resp\<lparr>cr_idxes := indexes\<rparr>]) client))"

section \<open>Processing the answers\<close>

fun process_all :: "(callResp \<Rightarrow> 'r \<Rightarrow> 'r go) \<Rightarrow> callResp list \<Rightarrow> 'r \<Rightarrow> 'r go" where
  "process_all f [] r = Inr r"
| "process_all f (resp # resps) r = go_bind (f resp r) (process_all f resps)"

fun process_idxes :: "(nat \<Rightarrow> nat \<Rightarrow> 'r \<Rightarrow> 'r go) \<Rightarrow> nat \<Rightarrow> nat list \<Rightarrow> 'r \<Rightarrow> 'r go" where
  "process_idxes f i [] r = Inr r"
| "process_idxes f i (index # idxes) r = go_bind (f i index r) (process_idxes f (i + 1) idxes)"

definition go_index :: "'a list \<Rightarrow> nat \<Rightarrow> 'a go" where
  "go_index xs i = (if i < length xs then Inr (xs ! i) else Inl IndexOutOfRange)"

definition mset_process :: "callResp \<Rightarrow> Status list \<Rightarrow> Status list go" where
  "mset_process resp =
     process_idxes (\<lambda>i index result.
       if cr_status resp \<noteq> Status_OK then Inr (result[index := cr_status resp])
       else go_bind (go_index (GetListIntData (cr_resp resp)) i) (\<lambda>res.
         Inr (result[index := if res = - 1 then Status_CLIENT_THRIFT_CALL_ERROR else Status_OK])))
       0 (cr_idxes resp)"

text \<open>The body of the detailed operations, which differ in the statuses that do not count as failures.\<close>

definition detail_process ::
  "(Status \<Rightarrow> bool) \<Rightarrow> callResp \<Rightarrow> nat \<times> EntryValue option list \<Rightarrow> (nat \<times> EntryValue option list) go" where
  "detail_process failed resp =
     process_idxes (\<lambda>i index (nfailed, result).
       let listResult = GetListValueData (cr_resp resp) in
       if cr_status resp \<noteq> Status_OK then
         Inr (nfailed + 1, result[index := Some \<lparr>ev_Status = cr_status resp, ev_StringValue = []\<rparr>])
       else if listResult = [] then
         Inr (nfailed + 1, result[index := Some \<lparr>ev_Status = Status_RS_ERROR, ev_StringValue = []\<rparr>])
       else go_bind (go_index listResult i) (\<lambda>v.
         case lv_EntryValue v of
           None \<Rightarrow> Inl NilDereference
         | Some e \<Rightarrow> Inr (nfailed + (if failed (ev_Status e) then 1 else 0), result[index := Some e])))
       0 (cr_idxes resp)"

definition detail_status :: "nat \<Rightarrow> nat \<Rightarrow> Status" where
  "detail_status nfailed n =
     (if nfailed = n then Status_RS_ERROR else if 0 < nfailed then Status_RS_PART_FAILED else Status_OK)"

definition mset_failed :: "Status \<Rightarrow> bool" where
  "mset_failed status \<longleftrightarrow> status \<noteq> Status_OK \<and> status \<noteq> Status_RS_KEY_EXPIRE"

definition mget_failed :: "Status \<Rightarrow> bool" where
  "mget_failed status \<longleftrightarrow> status \<noteq> Status_OK \<and> status \<noteq> Status_RS_NOT_FOUND \<and> status \<noteq> Status_RS_KEY_EXPIRE"

definition mget_process :: "callResp \<Rightarrow> Status \<times> LaserValue list \<Rightarrow> (Status \<times> LaserValue list) go" where
  "mget_process resp r =
     (if cr_status resp \<noteq> Status_OK then Inr (cr_status resp, snd r)
      else process_idxes (\<lambda>i index (status, result).
             go_bind (go_index (GetListValueData (cr_resp resp)) i) (\<lambda>res. Inr (status, result[index := res])))
             0 (cr_idxes resp) r)"

section \<open>The operations\<close>

definition nil_mset :: "nat \<Rightarrow> callResp" where
  "nil_mset n = \<lparr>cr_idxes = [], cr_status = Status_OK,
     cr_resp = NewLaserResponse\<lparr>lr_ListIntData := Some (replicate n (- 1))\<rparr>\<rparr>"

definition client_mset ::
  "BatchEnv \<Rightarrow> nat list \<Rightarrow> LaserClientOption \<Rightarrow> LaserKV list \<Rightarrow> (LaserKV list \<Rightarrow> request) \<Rightarrow> (callResp \<Rightarrow> 'r \<Rightarrow> 'r go) \<Rightarrow> 'r \<Rightarrow>
   LaserClient \<Rightarrow> ('r \<times> LaserClient) run" where
  "client_mset B sched options kvs callFunc processFunc r client =
     run_bind (client_group B kvs options client) (\<lambda>(groupByAddress, client).
       run_bind (mop_run (be_call B) (\<lambda>ks. callFunc (map ki_kv ks)) nil_mset (be_groups B groupByAddress) sched [] options [] client)
         (\<lambda>(chs, client). run_bind (of_go (process_all processFunc chs r)) (\<lambda>r. Ran (r, client))))"

definition MsetSync ::
  "BatchEnv \<Rightarrow> nat list \<Rightarrow> LaserClientOption \<Rightarrow> LaserKV list \<Rightarrow> LaserClient \<Rightarrow> (Status list \<times> LaserClient) run" where
  "MsetSync B sched clientOption kvs client =
     (if kvs = [] then Ran ([], client)
      else client_mset B sched (leader_read clientOption) kvs RqMset mset_process (replicate (length kvs) Status_OK) client)"

definition MsetDetailSync ::
  "BatchEnv \<Rightarrow> nat list \<Rightarrow> LaserClientOption \<Rightarrow> LaserSetOption \<Rightarrow> LaserKV list \<Rightarrow> LaserClient \<Rightarrow>
   ((Status \<times> EntryValue option list) \<times> LaserClient) run" where
  "MsetDetailSync B sched clientOption laserSetOpt kvs client =
     (if kvs = [] then Ran ((Status_RS_ERROR, []), client)
      else run_bind (client_mset B sched (leader_read clientOption) kvs (\<lambda>values. RqMsetDetail values laserSetOpt)
             (detail_process mset_failed) (0, replicate (length kvs) None) client)
             (\<lambda>((nfailed, result), client). Ran ((detail_status nfailed (length kvs), result), client)))"

definition nil_mget :: "nat \<Rightarrow> callResp" where
  "nil_mget n = error_resp Status_CLIENT_THRIFT_CALL_ERROR"

definition key_kv :: "LaserKey \<Rightarrow> LaserKV" where
  "key_kv key = \<lparr>kv_Key = Some key, kv_Value = None\<rparr>"

definition item_key :: "keyToIndex \<Rightarrow> LaserKey" where
  "item_key ki = the (kv_Key (ki_kv ki))"

definition client_mget ::
  "BatchEnv \<Rightarrow> nat list \<Rightarrow> LaserClientOption \<Rightarrow> LaserKey list \<Rightarrow> (LaserKey list \<Rightarrow> request) \<Rightarrow> (callResp \<Rightarrow> 'r \<Rightarrow> 'r go) \<Rightarrow> 'r \<Rightarrow>
   LaserClient \<Rightarrow> ('r \<times> LaserClient) run" where
  "client_mget B sched options keys callFunc processFunc r client =
     run_bind (client_group B (map key_kv keys) options client) (\<lambda>(groupByAddress, client).
       run_bind (mop_run (be_call B) (\<lambda>ks. callFunc (map item_key ks)) nil_mget (be_groups B groupByAddress) sched [] options [] client)
         (\<lambda>(chs, client). run_bind (of_go (process_all processFunc chs r)) (\<lambda>r. Ran (r, client))))"

definition MgetDetailSync ::
  "BatchEnv \<Rightarrow> nat list \<Rightarrow> LaserClientOption \<Rightarrow> LaserKey list \<Rightarrow> LaserClient \<Rightarrow>
   ((Status \<times> EntryValue option list) \<times> LaserClient) run" where
  "MgetDetailSync B sched clientOption keys client =
     run_bind (client_mget B sched clientOption keys RqMgetDetail (detail_process mget_failed) (0, replicate (length keys) None) client)
       (\<lambda>((nfailed, result), client). Ran ((detail_status nfailed (length keys), result), client))"

definition MgetSync ::
  "BatchEnv \<Rightarrow> nat list \<Rightarrow> LaserClientOption \<Rightarrow> LaserKey list \<Rightarrow> LaserClient \<Rightarrow> ((Status \<times> LaserValue list) \<times> LaserClient) run" where
  "MgetSync B sched clientOption keys client =
     client_mget B sched clientOption keys RqMget mget_process (Status_OK, replicate (length keys) NewLaserValue) client"

section \<open>Schedules without interference\<close>

text \<open>The actions of each goroutine follow each other directly.\<close>

definition turns :: "(string \<times> addressKeyMap) list \<Rightarrow> nat \<Rightarrow> nat list" where
  "turns groups i = (if fst (groups ! i) = NIL_ADDRESS then [i] else [i, i])"

definition unraced :: "(string \<times> addressKeyMap) list \<Rightarrow> nat list \<Rightarrow> bool" where
  "unraced groups sched \<longleftrightarrow> (\<exists>is. distinct is \<and> set is = {..<length groups} \<and> sched = concat (map (turns groups) is))"

definition addr :: "ServerAddress \<Rightarrow> string \<times> int" where
  "addr a = (AddrHost a, uint (AddrPort a))"

text \<open>A network in which every server answers every request of the batch at once.\<close>

definition answers_all :: "ClientEnv \<Rightarrow> ('k \<Rightarrow> request) \<Rightarrow> (string \<times> int \<Rightarrow> 'k \<Rightarrow> LaserResponse) \<Rightarrow> bool" where
  "answers_all P rq ans \<longleftrightarrow> (\<forall>n c ks. ce_net P n c (rq ks) = Replied (ans (address c) ks))"

lemma targeted_call_answers:
  assumes "answers_all P rq ans" and "checkTargetServerAddress (lo_TargetServerAddress options)"
    and "addresses_apart A (lc_cg client)" and "addr (lo_TargetServerAddress options) \<in> A"
  shows "\<exists>client'. commonCallWithRouteId P info options (rq ks) client =
      Ran (\<lparr>cr_idxes = [], cr_status = Status_OK, cr_resp = ans (addr (lo_TargetServerAddress options)) ks\<rparr>, client') \<and>
    addresses_apart A (lc_cg client')"
proof -
  let ?o = "if lo_ReceiveTimeoutMs options \<le> 0 then options\<lparr>lo_ReceiveTimeoutMs := defaultReceiveTimeoutMs\<rparr> else options"
  let ?s = "empty_server\<lparr>Host := AddrHost (lo_TargetServerAddress options), Port := AddrPort (lo_TargetServerAddress options)\<rparr>"
  obtain c p cg where pool: "GetConnection_pool (ce_numCPU P) (thriftConfig ?o ?s) (pool_options ?o) (lc_cg client) = ((c, p), cg)"
    by (metis surj_pair)
  have "server_address ?s = addr (lo_TargetServerAddress options)" by (simp add: server_address_def addr_def)
  with GetConnection_pool_apart [OF assms(3) _ pool] assms(4)
  have c: "address c = addr (lo_TargetServerAddress options)" "addresses_apart A cg" by auto
  have "pick_server P ?o (getClientOption client options info) 1 client =
      Ran (Some ?s, client\<lparr>lc_router := count_selection (Some ?s) (lc_router client)\<rparr>)"
    using assms(2) by (simp add: pick_server_def Let_def)
  moreover have "ce_net P (nat 1) c (rq ks) = Replied (ans (addr (lo_TargetServerAddress options)) ks)"
    using assms(1) c by (simp add: answers_all_def)
  ultimately show ?thesis
    using pool c(2) by (simp add: commonCallWithRouteId_def Let_def call_loop.simps [of P ?o])
qed

definition reachable_group :: "(string \<times> int) set \<Rightarrow> string \<times> addressKeyMap \<Rightarrow> bool" where
  "reachable_group A g \<longleftrightarrow> (fst g \<noteq> NIL_ADDRESS \<longrightarrow>
     (\<exists>a. ak_address (snd g) = Some a \<and> checkTargetServerAddress a \<and> addr a \<in> A))"

definition group_resp ::
  "(nat \<Rightarrow> callResp) \<Rightarrow> (string \<times> int \<Rightarrow> keyToIndex list \<Rightarrow> LaserResponse) \<Rightarrow> string \<times> addressKeyMap \<Rightarrow> callResp" where
  "group_resp nil_resp ans g =
     (let ks = ak_keyToIndexList (snd g) in
      if fst g = NIL_ADDRESS then (nil_resp (length ks))\<lparr>cr_idxes := map ki_idx ks\<rparr>
      else \<lparr>cr_idxes = map ki_idx ks, cr_status = Status_OK, cr_resp = ans (addr (the (ak_address (snd g)))) ks\<rparr>)"

lemma mop_run_unraced:
  assumes "answers_all P rq ans"
  shows "distinct is \<Longrightarrow> set is \<inter> set stored = {} \<Longrightarrow> set is \<subseteq> {..<length groups} \<Longrightarrow>
    \<forall>i \<in> set is. reachable_group A (groups ! i) \<Longrightarrow> addresses_apart A (lc_cg client) \<Longrightarrow>
    \<exists>client'. mop_run P rq nil_resp groups (concat (map (turns groups) is)) stored options chs client =
      Ran (chs @ map (\<lambda>i. group_resp nil_resp ans (groups ! i)) is, client')"
proof (induction "is" arbitrary: stored options chs client)
  case (Cons i "is")
  obtain key am where g: "groups ! i = (key, am)" by (cases "groups ! i")
  show ?case
  proof (cases "key = NIL_ADDRESS")
    case True
    with g have "mop_run P rq nil_resp groups (concat (map (turns groups) (i # is))) stored options chs client =
      mop_run P rq nil_resp groups (concat (map (turns groups) is)) stored options
        (chs @ [group_resp nil_resp ans (groups ! i)]) client"
      by (simp add: turns_def group_resp_def Let_def)
    with Cons.IH [of stored client options "chs @ [group_resp nil_resp ans (groups ! i)]"] Cons.prems
    show ?thesis by auto
  next
    case False
    with g Cons.prems(4) obtain a where a: "ak_address am = Some a" "checkTargetServerAddress a" "addr a \<in> A"
      by (auto simp: reachable_group_def)
    let ?o = "options\<lparr>lo_TargetServerAddress := a\<rparr>" and ?ks = "ak_keyToIndexList am"
    obtain client1 where c: "commonCallWithRouteId P no_route ?o (rq ?ks) client =
        Ran (\<lparr>cr_idxes = [], cr_status = Status_OK, cr_resp = ans (addr a) ?ks\<rparr>, client1)"
      "addresses_apart A (lc_cg client1)"
      using targeted_call_answers [OF assms, of ?o A client no_route ?ks] a Cons.prems(5) by auto
    have "mop_run P rq nil_resp groups (concat (map (turns groups) (i # is))) stored options chs client =
      mop_run P rq nil_resp groups (concat (map (turns groups) is)) (i # stored) ?o
        (chs @ [group_resp nil_resp ans (groups ! i)]) client1"
      using g False a(1) c(1) Cons.prems(2) by (simp add: turns_def group_resp_def Let_def)
    with Cons.IH [of "i # stored" client1 ?o "chs @ [group_resp nil_resp ans (groups ! i)]"] Cons.prems c(2)
    show ?thesis by auto
  qed
qed simp

section \<open>The values of a batch\<close>

abbreviation (input) put_pairs :: "(nat \<times> 'a) list \<Rightarrow> 'a list \<Rightarrow> 'a list" where
  "put_pairs ps xs \<equiv> fold (\<lambda>(j, v) xs. xs[j := v]) ps xs"

lemma length_put_pairs [simp]: "length (put_pairs ps xs) = length xs"
  by (induction ps arbitrary: xs) (auto split: prod.splits)

lemma put_pairs_other: "j \<notin> fst ` set ps \<Longrightarrow> put_pairs ps xs ! j = xs ! j"
  by (induction ps arbitrary: xs) (auto split: prod.splits)

lemma put_pairs_nth:
  "distinct (map fst ps) \<Longrightarrow> (j, v) \<in> set ps \<Longrightarrow> j < length xs \<Longrightarrow> put_pairs ps xs ! j = v"
proof (induction ps arbitrary: xs)
  case (Cons p ps)
  show ?case
  proof (cases "p = (j, v)")
    case True
    with Cons.prems(1) have "j \<notin> fst ` set ps" by auto
    with True Cons.prems(3) show ?thesis by (simp add: put_pairs_other)
  next
    case False
    with Cons show ?thesis by (auto split: prod.splits)
  qed
qed simp

text \<open>What a batch of gets receives from a server whose value for a key js given.\<close>

definition mget_answer :: "('a \<Rightarrow> LaserKey \<Rightarrow> LaserValue) \<Rightarrow> 'a \<Rightarrow> keyToIndex list \<Rightarrow> LaserResponse" where
  "mget_answer val a ks = NewLaserResponse\<lparr>lr_ListValueData := Some (map (\<lambda>ki. val a (item_key ki)) ks)\<rparr>"

definition group_pairs :: "(string \<times> int \<Rightarrow> LaserKey \<Rightarrow> LaserValue) \<Rightarrow> string \<times> addressKeyMap \<Rightarrow> (nat \<times> LaserValue) list" where
  "group_pairs val g =
     (if fst g = NIL_ADDRESS then []
      else map (\<lambda>ki. (ki_idx ki, val (addr (the (ak_address (snd g)))) (item_key ki))) (ak_keyToIndexList (snd g)))"

lemma process_idxes_put:
  "length idxes + i \<le> length vs \<Longrightarrow>
   process_idxes (\<lambda>i index (status, result). go_bind (go_index vs i) (\<lambda>res. Inr (status, result[index := res]))) i idxes (st, xs) =
   Inr (st, put_pairs (zip idxes (drop i vs)) xs)"
proof (induction idxes arbitrary: i xs)
  case (Cons index idxes)
  then have "drop i vs = vs ! i # drop (i + 1) vs" by (simp add: Cons_nth_drop_Suc)
  with Cons show ?case by (simp add: go_index_def go_bind_def)
qed simp

lemma mget_process_group:
  "mget_process (group_resp nil_mget (mget_answer val) g) (st, xs) =
     Inr (if fst g = NIL_ADDRESS then Status_CLIENT_THRIFT_CALL_ERROR else st, put_pairs (group_pairs val g) xs)"
proof (cases "fst g = NIL_ADDRESS")
  case True
  then show ?thesis by (simp add: mget_process_def group_resp_def nil_mget_def error_resp_def group_pairs_def Let_def)
next
  case False
  let ?ks = "ak_keyToIndexList (snd g)" and ?a = "addr (the (ak_address (snd g)))"
  let ?vs = "map (\<lambda>ki. val ?a (item_key ki)) ?ks"
  have "zip (map ki_idx ?ks) ?vs = group_pairs val g"
    using False by (simp add: group_pairs_def zip_map_map zip_same_conv_map comp_def)
  then show ?thesis
    using False process_idxes_put [of "map ki_idx ?ks" 0 ?vs st xs]
    by (simp add: mget_process_def group_resp_def mget_answer_def GetListValueData_def unnil_def Let_def)
qed

lemma mget_process_groups:
  "process_all mget_process (map (\<lambda>i. group_resp nil_mget (mget_answer val) (groups ! i)) js) (st, xs) =
     Inr (if \<exists>i \<in> set js. fst (groups ! i) = NIL_ADDRESS then Status_CLIENT_THRIFT_CALL_ERROR else st,
          put_pairs (concat (map (\<lambda>i. group_pairs val (groups ! i)) js)) xs)"
  by (induction js arbitrary: st xs) (auto simp: mget_process_group go_bind_def)

lemma mset_concat_perm: "mset xs = mset ys \<Longrightarrow> mset (concat (map f xs)) = mset (concat (map f ys))"
  by (simp add: mset_concat sum_mset_sum_list [symmetric])

lemma distinct_concat_apart:
  "distinct (concat (map f xs)) \<Longrightarrow> x \<in> set xs \<Longrightarrow> y \<in> set xs \<Longrightarrow> x \<noteq> y \<Longrightarrow> set (f x) \<inter> set (f y) = {}"
  by (induction xs) auto

lemma distinct_concat_filter:
  "distinct (concat (map f xs)) \<Longrightarrow> distinct (concat (map (\<lambda>x. if P x then [] else f x) xs))"
  by (induction xs) auto

abbreviation (input) idxs_of :: "string \<times> addressKeyMap \<Rightarrow> nat list" where
  "idxs_of g \<equiv> map ki_idx (ak_keyToIndexList (snd g))"

lemma groups_idxs_distinct:
  assumes "mset (concat (map (\<lambda>(k, am). ak_keyToIndexList am) groups)) = mset (map (item kvs) [0..<n])"
    and "mset gs = mset groups" and "distinct js" "set js = {..<length gs}"
  shows "distinct (concat (map (\<lambda>i. idxs_of (gs ! i)) js))"
proof -
  have js: "mset js = mset [0..<length gs]"
    using assms(3,4) set_eq_iff_mset_eq_distinct [of js "[0..<length gs]"] by (auto simp: lessThan_atLeast0)
  have gs: "map (\<lambda>i. idxs_of (gs ! i)) [0..<length gs] = map idxs_of gs" by (rule nth_equalityI) simp_all
  have "concat (map idxs_of groups) = map ki_idx (concat (map (\<lambda>(k, am). ak_keyToIndexList am) groups))"
    by (induction groups) auto
  then have all: "mset (concat (map idxs_of groups)) = mset [0..<n]"
    using arg_cong [OF assms(1), of "image_mset ki_idx"] by (simp add: item_def comp_def flip: mset_map)
  have "mset (concat (map (\<lambda>i. idxs_of (gs ! i)) js)) = mset (concat (map (\<lambda>i. idxs_of (gs ! i)) [0..<length gs]))"
    using js by (rule mset_concat_perm)
  also have "\<dots> = mset (concat (map idxs_of groups))" unfolding gs using assms(2) by (rule mset_concat_perm)
  finally have "mset (concat (map (\<lambda>i. idxs_of (gs ! i)) js)) = mset [0..<n]" using all by simp
  then show ?thesis by (metis distinct_upt mset_eq_imp_distinct_iff)
qed

lemma put_groups_nth:
  assumes "distinct (concat (map (\<lambda>i. idxs_of (gs ! i)) js))" and "i \<in> set js"
    and "ki \<in> set (ak_keyToIndexList (snd (gs ! i)))" and "ki_idx ki < length xs"
  shows "put_pairs (concat (map (\<lambda>i. group_pairs val (gs ! i)) js)) xs ! ki_idx ki =
    (if fst (gs ! i) = NIL_ADDRESS then xs ! ki_idx ki else val (addr (the (ak_address (snd (gs ! i))))) (item_key ki))"
proof -
  let ?ps = "concat (map (\<lambda>i. group_pairs val (gs ! i)) js)"
  have fst_ps: "map fst ?ps = concat (map (\<lambda>i. if fst (gs ! i) = NIL_ADDRESS then [] else idxs_of (gs ! i)) js)"
    by (induction js) (simp_all add: group_pairs_def comp_def)
  have mine: "ki_idx ki \<in> set (idxs_of (gs ! i))" using assms(3) by simp
  show ?thesis
  proof (cases "fst (gs ! i) = NIL_ADDRESS")
    case True
    have "ki_idx ki \<notin> set (map fst ?ps)"
      unfolding fst_ps using distinct_concat_apart [OF assms(1) assms(2)] mine True by fastforce
    with True show ?thesis by (simp add: put_pairs_other)
  next
    case False
    have "(ki_idx ki, val (addr (the (ak_address (snd (gs ! i))))) (item_key ki)) \<in> set (group_pairs val (gs ! i))"
      using False assms(3) by (simp add: group_pairs_def)
    with assms(2) have mem: "(ki_idx ki, val (addr (the (ak_address (snd (gs ! i))))) (item_key ki)) \<in> set ?ps" by auto
    have "distinct (map fst ?ps)" unfolding fst_ps by (rule distinct_concat_filter [OF assms(1)])
    from put_pairs_nth [OF this mem assms(4)] False show ?thesis by simp
  qed
qed

lemma nth_image_iff:
  assumes "set js = {..<length gs}"
  shows "(\<exists>i \<in> set js. f (gs ! i) = x) \<longleftrightarrow> x \<in> f ` set gs"
proof
  assume "x \<in> f ` set gs"
  then obtain g where "g \<in> set gs" "f g = x" by auto
  then show "\<exists>i \<in> set js. f (gs ! i) = x" unfolding assms by (metis in_set_conv_nth lessThan_iff)
next
  assume "\<exists>i \<in> set js. f (gs ! i) = x"
  then obtain i where "i < length gs" "f (gs ! i) = x" unfolding assms by auto
  then show "x \<in> f ` set gs" using nth_mem by (metis image_eqI)
qed

text \<open>C6. A batch of gets returns, at the position of each key, the value that the server the key was grouped
  under holds for it, when the servers answer and no goroutine stores its address between the two
  actions of another; keys without a server keep the empty value and turn the status into an error.\<close>

theorem MgetSync_values:
  assumes "is_order (be_dcs B)" "is_order (be_edges B)" "is_order (be_routes B)" "is_order (be_groups B)"
    and "client_group B (map key_kv keys) options client = Ran (groups, client1)"
    and "\<forall>i < length keys. \<forall>info. getRouteInfo (e_city (ce_env (be_call B))) (be_intn B i) (keys ! i) (lo_ReadMode options) client = Inr info \<and>
      ri_routeToEdgeNode info \<longrightarrow> ri_partitionHash info \<notin> shard_ids"
    and "unraced (be_groups B groups) sched"
    and "\<forall>n c ks. ce_net (be_call B) n c (RqMget ks) = Replied (NewLaserResponse\<lparr>lr_ListValueData := Some (map (val (address c)) ks)\<rparr>)"
    and "addresses_apart A (lc_cg client1)" and "\<forall>g \<in> set groups. reachable_group A g"
  shows "\<exists>values client'. MgetSync B sched options keys client =
      Ran ((if NIL_ADDRESS \<in> fst ` set groups then Status_CLIENT_THRIFT_CALL_ERROR else Status_OK, values), client') \<and>
    length values = length keys \<and>
    (\<forall>(k, am) \<in> set groups. \<forall>ki \<in> set (ak_keyToIndexList am). ki_idx ki < length keys \<and>
       values ! ki_idx ki = (if k = NIL_ADDRESS then NewLaserValue else val (addr (the (ak_address am))) (keys ! ki_idx ki)))"
proof -
  let ?gs = "be_groups B groups" and ?init = "replicate (length keys) NewLaserValue"
  obtain js where js: "distinct js" "set js = {..<length ?gs}" "sched = concat (map (turns ?gs) js)"
    using assms(7) by (auto simp: unraced_def)
  have gs: "set ?gs = set groups" "mset ?gs = mset groups" using is_orderD [OF assms(4)] by blast+
  have reach: "\<forall>i \<in> set js. reachable_group A (?gs ! i)" using assms(10) gs(1) js(2) nth_mem by blast
  have "answers_all (be_call B) (\<lambda>ks. RqMget (map item_key ks)) (mget_answer val)"
    using assms(8) by (simp add: answers_all_def mget_answer_def comp_def)
  from mop_run_unraced [OF this js(1), of "[]" ?gs A client1 nil_mget options "[]"] js reach assms(9)
  obtain client' where run: "mop_run (be_call B) (\<lambda>ks. RqMget (map item_key ks)) nil_mget ?gs sched [] options [] client1 =
      Ran (map (\<lambda>i. group_resp nil_mget (mget_answer val) (?gs ! i)) js, client')" by auto
  let ?ps = "concat (map (\<lambda>i. group_pairs val (?gs ! i)) js)" and ?vs = "put_pairs (concat (map (\<lambda>i. group_pairs val (?gs ! i)) js)) ?init"
  have nil: "(\<exists>i \<in> set js. fst (?gs ! i) = NIL_ADDRESS) \<longleftrightarrow> NIL_ADDRESS \<in> fst ` set groups"
    using nth_image_iff [OF js(2)] gs(1) by simp
  have run': "MgetSync B sched options keys client =
      Ran ((if NIL_ADDRESS \<in> fst ` set groups then Status_CLIENT_THRIFT_CALL_ERROR else Status_OK, ?vs), client')"
    using assms(5) run by (simp add: MgetSync_def client_mget_def mget_process_groups nil)
  have "\<forall>i < length (map key_kv keys). \<forall>key info. kv_Key (map key_kv keys ! i) = Some key \<and>
      getRouteInfo (e_city (ce_env (be_call B))) (be_intn B i) key (lo_ReadMode options) client = Inr info \<and>
      ri_routeToEdgeNode info \<longrightarrow> ri_partitionHash info \<notin> shard_ids"
    using assms(6) by (simp add: key_kv_def)
  note part = client_group_items [OF assms(1-3,5) this]
  note dist = groups_idxs_distinct [OF part gs(2) js(1,2)]
  have "ki_idx ki < length keys \<and>
       ?vs ! ki_idx ki = (if k = NIL_ADDRESS then NewLaserValue else val (addr (the (ak_address am))) (keys ! ki_idx ki))"
    if "(k, am) \<in> set groups" "ki \<in> set (ak_keyToIndexList am)" for k am ki
  proof -
    from that gs obtain i where i: "i \<in> set js" "?gs ! i = (k, am)" unfolding js(2) by (metis in_set_conv_nth lessThan_iff)
    have "ki \<in># mset (concat (map (\<lambda>(k, am). ak_keyToIndexList am) groups))" using that by auto
    then obtain j where "j < length keys" "ki = item (map key_kv keys) j" unfolding part by auto
    then have ki: "ki_idx ki < length keys" "item_key ki = keys ! ki_idx ki"
      by (simp_all add: item_def item_key_def key_kv_def)
    then show ?thesis using put_groups_nth [OF dist i(1), of ki ?init val] i(2) that(2) by simp
  qed
  with run' show ?thesis by auto
qed

text \<open>C32. The goroutines of a batch interfere: when two of them store their addresses before either copies the
  options, both calls go to the address stored last, and the keys of the first group are answered by the
  second group's server.\<close>

theorem batch_race:
  assumes "answers_all P rq ans" and "k0 \<noteq> NIL_ADDRESS" "k1 \<noteq> NIL_ADDRESS"
    and "ak_address g0 = Some a0" "ak_address g1 = Some a1" and "checkTargetServerAddress a1"
    and "addresses_apart A (lc_cg client)" "addr a1 \<in> A"
  shows "\<exists>client'. mop_run P rq nil_resp [(k0, g0), (k1, g1)] [0, 1, 0, 1] [] options [] client =
    Ran ([\<lparr>cr_idxes = map ki_idx (ak_keyToIndexList g0), cr_status = Status_OK, cr_resp = ans (addr a1) (ak_keyToIndexList g0)\<rparr>,
          \<lparr>cr_idxes = map ki_idx (ak_keyToIndexList g1), cr_status = Status_OK, cr_resp = ans (addr a1) (ak_keyToIndexList g1)\<rparr>], client')"
proof -
  let ?o = "options\<lparr>lo_TargetServerAddress := a1\<rparr>"
  note call = targeted_call_answers [OF assms(1), of ?o A _ no_route, simplified, OF assms(6) _ assms(8)]
  obtain client1 where c1: "commonCallWithRouteId P no_route ?o (rq (ak_keyToIndexList g0)) client =
      Ran (\<lparr>cr_idxes = [], cr_status = Status_OK, cr_resp = ans (addr a1) (ak_keyToIndexList g0)\<rparr>, client1)"
    "addresses_apart A (lc_cg client1)" using call [OF assms(7)] by auto
  obtain client2 where c2: "commonCallWithRouteId P no_route ?o (rq (ak_keyToIndexList g1)) client1 =
      Ran (\<lparr>cr_idxes = [], cr_status = Status_OK, cr_resp = ans (addr a1) (ak_keyToIndexList g1)\<rparr>, client2)"
    using call [OF c1(2)] by auto
  from assms(2-5) c1(1) c2 show ?thesis by (simp add: Let_def)
qed

definition echo_env :: ClientEnv where
  "echo_env = example_clientenv\<lparr>ce_net := \<lambda>n c rq. case rq of
     RqMget ks \<Rightarrow> Replied (NewLaserResponse\<lparr>lr_ListValueData := Some (map (\<lambda>k. NewLaserValue\<lparr>lv_StringValue := Some (cfg_Host c)\<rparr>) ks)\<rparr>)
   | _ \<Rightarrow> TimedOut\<rparr>"

definition echo :: "string \<times> int \<Rightarrow> LaserKey \<Rightarrow> LaserValue" where
  "echo a key = NewLaserValue\<lparr>lv_StringValue := Some (fst a)\<rparr>"

lemma echo_answers: "ce_net echo_env n c (RqMget ks) = Replied (NewLaserResponse\<lparr>lr_ListValueData := Some (map (echo (address c)) ks)\<rparr>)"
  by (simp add: echo_env_def echo_def address_def)

definition example_addr :: "string \<Rightarrow> ServerAddress" where
  "example_addr h = \<lparr>AddrHost = h, AddrPort = 8080\<rparr>"

theorem batch_race_witness:
  "\<exists>client' r0 r1. mop_run echo_env (\<lambda>ks. RqMget (map item_key ks)) nil_mget
     [(''10.0.0.1:8080'', \<lparr>ak_address = Some (example_addr ''10.0.0.1''), ak_keyToIndexList = [item [key_kv example_key] 0]\<rparr>),
      (''10.0.0.2:8080'', \<lparr>ak_address = Some (example_addr ''10.0.0.2''), ak_keyToIndexList = []\<rparr>)]
     [0, 1, 0, 1] [] example_options [] example_client = Ran ([r0, r1], client') \<and>
   GetListValueData (cr_resp r0) = [NewLaserValue\<lparr>lv_StringValue := Some ''10.0.0.2''\<rparr>]"
proof -
  have "answers_all echo_env (\<lambda>ks. RqMget (map item_key ks)) (mget_answer echo)"
    by (simp add: answers_all_def echo_answers mget_answer_def comp_def)
  moreover have "checkTargetServerAddress (example_addr ''10.0.0.2'')"
    by (simp add: checkTargetServerAddress_def example_addr_def)
  moreover have "addresses_apart {(''10.0.0.2'', 8080)} (lc_cg example_client)"
    by (simp add: addresses_apart_def example_client_def group_ok_GetConnGroup) (simp add: GetConnGroup_def)
  moreover have "addr (example_addr ''10.0.0.2'') \<in> {(''10.0.0.2'', 8080)}" by (simp add: addr_def example_addr_def)
  ultimately show ?thesis
    using batch_race [of echo_env "\<lambda>ks. RqMget (map item_key ks)" "mget_answer echo" "''10.0.0.1:8080''" "''10.0.0.2:8080''"
        "\<lparr>ak_address = Some (example_addr ''10.0.0.1''), ak_keyToIndexList = [item [key_kv example_key] 0]\<rparr>"
        "example_addr ''10.0.0.1''" "\<lparr>ak_address = Some (example_addr ''10.0.0.2''), ak_keyToIndexList = []\<rparr>"
        "example_addr ''10.0.0.2''" "{(''10.0.0.2'', 8080)}" example_client nil_mget example_options]
    by (auto simp: mget_answer_def echo_def GetListValueData_def unnil_def example_addr_def addr_def)
qed

theorem MgetSync_values_witness:
  "\<exists>values client'. MgetSync (example_batch echo_env) [0, 0] example_options [example_key, example_key] example_client =
     Ran ((Status_OK, values), client') \<and> values ! 0 = echo (''10.0.0.1'', 8080) example_key \<and> values ! 1 = echo (''10.0.0.1'', 8080) example_key"
proof -
  let ?B = "example_batch echo_env" and ?kvs = "map key_kv [example_key, example_key]"
  let ?am = "\<lparr>ak_address = Some \<lparr>AddrHost = ''10.0.0.1'', AddrPort = 8080\<rparr>, ak_keyToIndexList = [item ?kvs 0, item ?kvs 1]\<rparr>"
  have "like_example echo_env" by (simp add: like_example_def echo_env_def example_clientenv_def)
  from example_group [OF this, of "key_kv example_key" example_key "key_kv example_key" example_key]
  obtain client1 where g: "client_group ?B ?kvs example_options example_client = Ran ([(map_key (Some example_server), ?am)], client1)"
    "lc_cg client1 = GetConnGroup" by (auto simp: key_kv_def)
  have mk: "map_key (Some example_server) \<noteq> NIL_ADDRESS" by (simp add: map_key_def example_server_def)
  have orders: "is_order (be_dcs ?B)" "is_order (be_edges ?B)" "is_order (be_routes ?B)" "is_order (be_groups ?B)"
    by (simp_all add: example_batch_def is_order_id is_order_rev)
  have "be_groups ?B [(map_key (Some example_server), ?am)] = [(map_key (Some example_server), ?am)]"
    by (simp add: example_batch_def)
  then have un: "unraced (be_groups ?B [(map_key (Some example_server), ?am)]) [0, 0]"
    using mk unfolding unraced_def by (intro exI [of _ "[0]"]) (simp add: turns_def lessThan_Suc)
  have edges: "\<forall>i < length [example_key, example_key]. \<forall>info. getRouteInfo (e_city (ce_env (be_call ?B))) (be_intn ?B i)
      ([example_key, example_key] ! i) (lo_ReadMode example_options) example_client = Inr info \<and> ri_routeToEdgeNode info \<longrightarrow>
      ri_partitionHash info \<notin> shard_ids"
    by (simp add: example_getRouteInfo example_info_def)
  have net: "\<forall>n c ks. ce_net (be_call ?B) n c (RqMget ks) = Replied (NewLaserResponse\<lparr>lr_ListValueData := Some (map (echo (address c)) ks)\<rparr>)"
    by (simp add: example_batch_def echo_answers)
  have apart: "addresses_apart {(''10.0.0.1'', 8080)} (lc_cg client1)"
    using example_addresses g(2) by (simp add: example_client_def)
  have reach: "\<forall>g \<in> set [(map_key (Some example_server), ?am)]. reachable_group {(''10.0.0.1'', 8080)} g"
    by (simp add: reachable_group_def checkTargetServerAddress_def addr_def)
  from MgetSync_values [OF orders g(1) edges un net apart reach] mk show ?thesis
    by (auto simp: item_def addr_def)
qed

end
