(* ===== verification/Laser_Wire.thy ===== *)
theory Laser_Wire
  imports Laser_Thrift
begin

text \<open>
  Reading and writing the structures of the thrift interface, from
  \<^verbatim>\<open>src/sdk/go/laser_client/if/laser/ttypes.go\<close>.

  The thrift protocol is a library the code calls. It is the record \<open>Protocol\<close> of its operations: a
  write takes the output so far and returns the longer output or an error, a read takes the input left
  and returns what it read and the rest. What the code relies on is \<open>faithful\<close>: each read operation
  gives back what the write operation of the same name wrote, and leaves what follows.

  An error carries the kind and the text of the thrift exception. Reading has a fuel for the loop over
  the fields of a structure, as an input may hold any number of fields; running out is an error of its
  own. A structure written by the code has at most nine fields, so a fuel of ten is enough to read it.
  The pointers in a slice or map are not nil.
\<close>

section \<open>The protocol\<close>

datatype ttype = TSTOP | TBOOL | TI32 | TI64 | TSTRING | TSTRUCT | TMAP | TLIST | TOTHER nat

datatype error_kind = TransportError | INVALID_DATA | OtherError

text \<open>\<open>OutOfFuel\<close> and \<open>Crashed\<close> are no errors of the code: the first says that the fuel was too small,
  the second that the code panicked.\<close>

datatype crash = NegativeCapacity | NilPointer

datatype wire_error = WireError error_kind string | OutOfFuel | Crashed crash

type_synonym 'b wr = "'b list \<Rightarrow> wire_error + 'b list"
type_synonym ('b, 'a) rd = "'b list \<Rightarrow> wire_error + 'a \<times> 'b list"

record 'b Protocol =
  WriteStructBegin :: "string \<Rightarrow> 'b wr"
  WriteStructEnd :: "'b wr"
  WriteFieldBegin :: "string \<Rightarrow> ttype \<Rightarrow> 16 word \<Rightarrow> 'b wr"
  WriteFieldEnd :: "'b wr"
  WriteFieldStop :: "'b wr"
  WriteListBegin :: "ttype \<Rightarrow> int \<Rightarrow> 'b wr"
  WriteListEnd :: "'b wr"
  WriteMapBegin :: "ttype \<Rightarrow> ttype \<Rightarrow> int \<Rightarrow> 'b wr"
  WriteMapEnd :: "'b wr"
  WriteBool :: "bool \<Rightarrow> 'b wr"
  WriteI32 :: "int32 \<Rightarrow> 'b wr"
  WriteI64 :: "int64 \<Rightarrow> 'b wr"
  WriteString :: "string \<Rightarrow> 'b wr"
  ReadStructBegin :: "('b, unit) rd"
  ReadStructEnd :: "('b, unit) rd"
  ReadFieldBegin :: "('b, ttype \<times> 16 word) rd"
  FailedFieldId :: "'b list \<Rightarrow> string"
  ReadFieldEnd :: "('b, unit) rd"
  ReadListBegin :: "('b, int) rd"
  ReadListEnd :: "('b, unit) rd"
  ReadMapBegin :: "('b, int) rd"
  ReadMapEnd :: "('b, unit) rd"
  ReadBool :: "('b, bool) rd"
  ReadI32 :: "('b, int32) rd"
  ReadI64 :: "('b, int64) rd"
  ReadString :: "('b, string) rd"
  Skip :: "ttype \<Rightarrow> ('b, unit) rd"

text \<open>\<open>FailedFieldId\<close> is the printed field id that \<open>ReadFieldBegin\<close> returns beside an error.\<close>

text \<open>Sequences of protocol calls, each of which may fail, and \<open>thrift.PrependError\<close>.\<close>

fun prepend :: "string \<Rightarrow> wire_error \<Rightarrow> wire_error" where
  "prepend m (WireError k e) = WireError k (m @ e)"
| "prepend m e = e"

definition wnil :: "'b wr" where
  "wnil out = Inr out"

definition wthen :: "'b wr \<Rightarrow> 'b wr \<Rightarrow> 'b wr" where
  "wthen f g out = (case f out of Inl e \<Rightarrow> Inl e | Inr out' \<Rightarrow> g out')"

definition wprep :: "string \<Rightarrow> 'b wr \<Rightarrow> 'b wr" where
  "wprep m f out = (case f out of Inl e \<Rightarrow> Inl (prepend m e) | Inr out' \<Rightarrow> Inr out')"

fun weach :: "('a \<Rightarrow> 'b wr) \<Rightarrow> 'a list \<Rightarrow> 'b wr" where
  "weach f [] = wnil"
| "weach f (x # xs) = wthen (f x) (weach f xs)"

definition rret :: "'a \<Rightarrow> ('b, 'a) rd" where
  "rret x b = Inr (x, b)"

definition rbind :: "('b, 'a) rd \<Rightarrow> ('a \<Rightarrow> ('b, 'c) rd) \<Rightarrow> ('b, 'c) rd" where
  "rbind f g b = (case f b of Inl e \<Rightarrow> Inl e | Inr (x, b') \<Rightarrow> g x b')"

definition rprep :: "string \<Rightarrow> ('b, 'a) rd \<Rightarrow> ('b, 'a) rd" where
  "rprep m f b = (case f b of Inl e \<Rightarrow> Inl (prepend m e) | Inr r \<Rightarrow> Inr r)"

definition rfail :: "wire_error \<Rightarrow> ('b, 'a) rd" where
  "rfail e b = Inl e"

section \<open>The loops of the generated code\<close>

text \<open>The loop over the elements of a list, appending to the slice, and over the entries of a map,
  storing under the key. A negative capacity of a slice panics, one of a map does not.\<close>

fun read_elems :: "('b, 'a) rd \<Rightarrow> nat \<Rightarrow> 'a list \<Rightarrow> ('b, 'a list) rd" where
  "read_elems elem 0 acc = rret acc"
| "read_elems elem (Suc n) acc = rbind elem (\<lambda>x. read_elems elem n (acc @ [x]))"

definition read_list :: "'b Protocol \<Rightarrow> ('b, 'a) rd \<Rightarrow> ('b, 'a list) rd" where
  "read_list pr elem =
     rbind (rprep ''error reading list begin: '' (ReadListBegin pr)) (\<lambda>size.
     if size < 0 then rfail (Crashed NegativeCapacity)
     else rbind (read_elems elem (nat size) []) (\<lambda>xs.
     rbind (rprep ''error reading list end: '' (ReadListEnd pr)) (\<lambda>_. rret xs)))"

fun read_entries :: "('b, string) rd \<Rightarrow> ('b, 'a) rd \<Rightarrow> nat \<Rightarrow> (string, 'a) gomap \<Rightarrow> ('b, (string, 'a) gomap) rd" where
  "read_entries key val 0 m = rret m"
| "read_entries key val (Suc n) m =
     rbind key (\<lambda>k. rbind val (\<lambda>v. read_entries key val n (AList.update k v m)))"

definition read_map :: "'b Protocol \<Rightarrow> ('b, 'a) rd \<Rightarrow> ('b, (string, 'a) gomap) rd" where
  "read_map pr val =
     rbind (rprep ''error reading map begin: '' (ReadMapBegin pr)) (\<lambda>size.
     rbind (read_entries (rprep ''error reading field 0: '' (ReadString pr)) val (nat size) []) (\<lambda>m.
     rbind (rprep ''error reading map end: '' (ReadMapEnd pr)) (\<lambda>_. rret m)))"

definition write_list :: "'b Protocol \<Rightarrow> ttype \<Rightarrow> ('a \<Rightarrow> 'b wr) \<Rightarrow> 'a list \<Rightarrow> 'b wr" where
  "write_list pr t elem xs =
     wthen (wprep ''error writing list begin: '' (WriteListBegin pr t (int (length xs))))
     (wthen (weach elem xs)
       (wprep ''error writing list end: '' (WriteListEnd pr)))"

text \<open>A range over a map takes its keys in the order that \<open>ko\<close> puts them.\<close>

definition ranged :: "(string list \<Rightarrow> string list) \<Rightarrow> (string, 'a) gomap \<Rightarrow> (string, 'a) gomap" where
  "ranged ko m = map (\<lambda>k. (k, the (map_of m k))) (ko (map fst m))"

definition write_map ::
  "'b Protocol \<Rightarrow> string \<Rightarrow> (string list \<Rightarrow> string list) \<Rightarrow> ttype \<Rightarrow> ('a \<Rightarrow> 'b wr) \<Rightarrow> (string, 'a) gomap \<Rightarrow> 'b wr" where
  "write_map pr T ko t val m =
     wthen (wprep ''error writing map begin: '' (WriteMapBegin pr TSTRING t (int (length m))))
     (wthen (weach (\<lambda>(k, v). wthen (wprep (T @ ''. (0) field write error: '') (WriteString pr k)) (val v)) (ranged ko m))
       (wprep ''error writing map end: '' (WriteMapEnd pr)))"

text \<open>The frame of a field and of a structure. \<open>T\<close> is what \<open>%T\<close> prints and \<open>label\<close> the field's
  number and name.\<close>

definition write_field :: "'b Protocol \<Rightarrow> string \<Rightarrow> string \<Rightarrow> string \<Rightarrow> ttype \<Rightarrow> 16 word \<Rightarrow> 'b wr \<Rightarrow> 'b wr" where
  "write_field pr T label name t i body =
     wthen (wprep (T @ '' write field begin error '' @ label @ '': '') (WriteFieldBegin pr name t i))
     (wthen body
       (wprep (T @ '' write field end error '' @ label @ '': '') (WriteFieldEnd pr)))"

definition write_struct :: "'b Protocol \<Rightarrow> string \<Rightarrow> string \<Rightarrow> 'b wr list \<Rightarrow> 'b wr" where
  "write_struct pr T name ws =
     wthen (wprep (T @ '' write struct begin error: '') (WriteStructBegin pr name))
     (wthen (weach id ws)
     (wthen (wprep ''write field stop error: '' (WriteFieldStop pr))
       (wprep ''write struct stop error: '' (WriteStructEnd pr))))"

text \<open>The loop of \<open>Read\<close>: a field is dispatched on its id, one of another id is skipped by its type.
  Its state is the structure read so far with the ids of the fields seen, which stand for the
  \<open>isset\<close> variables.\<close>

type_synonym ('b, 'p) field_reader = "16 word \<Rightarrow> ('p \<Rightarrow> ('b, 'p) rd) option"

definition read_field ::
  "'b Protocol \<Rightarrow> ('b, 'p) field_reader \<Rightarrow> ttype \<Rightarrow> 16 word \<Rightarrow> 'p \<times> 16 word list \<Rightarrow> ('b, 'p \<times> 16 word list) rd" where
  "read_field pr sw t i st =
     (case sw i of
        Some f \<Rightarrow> rbind (f (fst st)) (\<lambda>p. rret (p, i # snd st))
      | None \<Rightarrow> rbind (Skip pr t) (\<lambda>_. rret st))"

fun read_fields ::
  "'b Protocol \<Rightarrow> string \<Rightarrow> ('b, 'p) field_reader \<Rightarrow> nat \<Rightarrow> 'p \<times> 16 word list \<Rightarrow> ('b, 'p \<times> 16 word list) rd" where
  "read_fields pr T sw 0 st = rfail OutOfFuel"
| "read_fields pr T sw (Suc n) st =
     (\<lambda>b. rbind (rprep (T @ '' field '' @ FailedFieldId pr b @ '' read error: '') (ReadFieldBegin pr)) (\<lambda>(t, i).
       if t = TSTOP then rret st
       else rbind (read_field pr sw t i st) (\<lambda>st'.
         rbind (ReadFieldEnd pr) (\<lambda>_. read_fields pr T sw n st'))) b)"

fun require :: "(16 word \<times> string) list \<Rightarrow> 16 word list \<Rightarrow> ('b, unit) rd" where
  "require [] seen = rret ()"
| "require ((i, name) # req) seen =
     (if i \<in> set seen then require req seen
      else rfail (WireError INVALID_DATA (''Required field '' @ name @ '' is not set'')))"

definition read_struct ::
  "'b Protocol \<Rightarrow> nat \<Rightarrow> string \<Rightarrow> ('b, 'p) field_reader \<Rightarrow> (16 word \<times> string) list \<Rightarrow> 'p \<Rightarrow> ('b, 'p) rd" where
  "read_struct pr fuel T sw req p =
     rbind (rprep (T @ '' read error: '') (ReadStructBegin pr)) (\<lambda>_.
     rbind (read_fields pr T sw fuel (p, [])) (\<lambda>(q, seen).
     rbind (rprep (T @ '' read struct end error: '') (ReadStructEnd pr)) (\<lambda>_.
     rbind (require req seen) (\<lambda>_. rret q))))"

section \<open>Reading back what was written\<close>

definition reads_back :: "'b wr \<Rightarrow> ('b, 'a) rd \<Rightarrow> 'a \<Rightarrow> bool" where
  "reads_back w r v \<longleftrightarrow>
     (\<forall>out out'. w out = Inr out' \<longrightarrow> (\<exists>bs. out' = out @ bs \<and> (\<forall>rest. r (bs @ rest) = Inr (v, rest))))"

definition faithful :: "'b Protocol \<Rightarrow> bool" where
  "faithful pr \<longleftrightarrow>
     (\<forall>name. reads_back (WriteStructBegin pr name) (ReadStructBegin pr) ()) \<and>
     reads_back (WriteStructEnd pr) (ReadStructEnd pr) () \<and>
     (\<forall>name t i. t \<noteq> TSTOP \<longrightarrow> reads_back (WriteFieldBegin pr name t i) (ReadFieldBegin pr) (t, i)) \<and>
     reads_back (WriteFieldEnd pr) (ReadFieldEnd pr) () \<and>
     (\<exists>i. reads_back (WriteFieldStop pr) (ReadFieldBegin pr) (TSTOP, i)) \<and>
     (\<forall>t n. reads_back (WriteListBegin pr t n) (ReadListBegin pr) n) \<and>
     reads_back (WriteListEnd pr) (ReadListEnd pr) () \<and>
     (\<forall>t t' n. reads_back (WriteMapBegin pr t t' n) (ReadMapBegin pr) n) \<and>
     reads_back (WriteMapEnd pr) (ReadMapEnd pr) () \<and>
     (\<forall>v. reads_back (WriteBool pr v) (ReadBool pr) v) \<and>
     (\<forall>v. reads_back (WriteI32 pr v) (ReadI32 pr) v) \<and>
     (\<forall>v. reads_back (WriteI64 pr v) (ReadI64 pr) v) \<and>
     (\<forall>v. reads_back (WriteString pr v) (ReadString pr) v)"

named_theorems wire_intros \<open>how writing and reading compose\<close>

lemma faithfulD [wire_intros]:
  assumes "faithful pr"
  shows "reads_back (WriteStructBegin pr name) (ReadStructBegin pr) ()"
    "reads_back (WriteStructEnd pr) (ReadStructEnd pr) ()"
    "reads_back (WriteFieldEnd pr) (ReadFieldEnd pr) ()"
    "reads_back (WriteListBegin pr t n) (ReadListBegin pr) n"
    "reads_back (WriteListEnd pr) (ReadListEnd pr) ()"
    "reads_back (WriteMapBegin pr t t' n) (ReadMapBegin pr) n"
    "reads_back (WriteMapEnd pr) (ReadMapEnd pr) ()"
    "reads_back (WriteBool pr a) (ReadBool pr) a"
    "reads_back (WriteI32 pr b) (ReadI32 pr) b"
    "reads_back (WriteI64 pr c) (ReadI64 pr) c"
    "reads_back (WriteString pr d) (ReadString pr) d"
  using assms by (simp_all add: faithful_def)

lemma reads_back_nil [wire_intros]: "reads_back wnil (rret x) x"
  by (simp add: reads_back_def wnil_def rret_def)

lemma wthen_eq_Inr: "wthen f g out = Inr out'' \<longleftrightarrow> (\<exists>out'. f out = Inr out' \<and> g out' = Inr out'')"
  by (auto simp: wthen_def split: sum.splits)

lemma reads_back_then:
  assumes "reads_back w r x" and "reads_back w' (f x) y"
  shows "reads_back (wthen w w') (rbind r f) y"
proof (unfold reads_back_def, intro allI impI)
  fix out out'' assume "wthen w w' out = Inr out''"
  then obtain out' where "w out = Inr out'" and "w' out' = Inr out''"
    by (auto simp: wthen_eq_Inr)
  with assms obtain bs bs' where out: "out' = out @ bs" "out'' = out' @ bs'"
    and r: "\<forall>rest. r (bs @ rest) = Inr (x, rest)" and f: "\<forall>rest. f x (bs' @ rest) = Inr (y, rest)"
    unfolding reads_back_def by blast
  have "rbind r f ((bs @ bs') @ rest) = Inr (y, rest)" for rest
    using r f by (simp add: rbind_def)
  with out show "\<exists>bs. out'' = out @ bs \<and> (\<forall>rest. rbind r f (bs @ rest) = Inr (y, rest))"
    by (metis append.assoc)
qed

lemma reads_back_map:
  assumes "reads_back w r x" and "f x = rret y"
  shows "reads_back w (rbind r f) y"
  using assms by (fastforce simp: reads_back_def rbind_def rret_def)

lemma reads_back_prep [wire_intros]:
  assumes "reads_back w r x"
  shows "reads_back (wprep m w) (rprep m' r) x"
  using assms by (fastforce simp: reads_back_def wprep_def rprep_def split: sum.splits)

lemma reads_back_wprep: "reads_back w r x \<Longrightarrow> reads_back (wprep m w) r x"
  by (simp add: reads_back_def wprep_def split: sum.splits)

lemma reads_back_end:
  assumes "reads_back w r x"
  shows "reads_back (wprep m w) (rbind (rprep m' r) (\<lambda>_. rret y)) y"
  using assms by (intro reads_back_map [where x = x] reads_back_prep) simp_all

lemma wthen_assoc: "wthen (wthen f g) h = wthen f (wthen g h)"
  by (rule ext) (simp add: wthen_def split: sum.split)

lemma wthen_nil [simp]: "wthen wnil w = w" "wthen w wnil = w"
  by (auto simp: fun_eq_iff wthen_def wnil_def split: sum.split)

lemma rbind_assoc: "rbind (rbind f g) h = rbind f (\<lambda>x. rbind (g x) h)"
  by (rule ext) (simp add: rbind_def split: sum.split)

lemma rbind_rret [simp]: "rbind (rret x) f = f x" "rbind r rret = r"
  by (auto simp: fun_eq_iff rbind_def rret_def split: sum.split)

lemma read_elems_back:
  assumes "\<And>x. x \<in> set xs \<Longrightarrow> reads_back (elem x) r (g x)"
  shows "reads_back (weach elem xs) (read_elems r (length xs) acc) (acc @ map g xs)"
  using assms
proof (induction xs arbitrary: acc)
  case Nil then show ?case by (simp add: reads_back_nil)
next
  case (Cons x xs)
  have "reads_back (weach elem xs) (read_elems r (length xs) (acc @ [g x])) ((acc @ [g x]) @ map g xs)"
    using Cons.prems by (intro Cons.IH) simp
  then show ?case
    using Cons.prems by (auto intro!: reads_back_then)
qed

lemma read_list_back:
  assumes "faithful pr" and "\<And>x. x \<in> set xs \<Longrightarrow> reads_back (elem x) r (g x)"
  shows "reads_back (write_list pr t elem xs) (read_list pr r) (map g xs)"
  unfolding write_list_def read_list_def
proof (rule reads_back_then)
  show "reads_back (wprep ''error writing list begin: '' (WriteListBegin pr t (int (length xs))))
      (rprep ''error reading list begin: '' (ReadListBegin pr)) (int (length xs))"
    using assms(1) by (intro wire_intros)
  have "reads_back (weach elem xs) (read_elems r (length xs) []) (map g xs)"
    using read_elems_back [OF assms(2), where acc = "[]"] by simp
  moreover have "reads_back (wprep ''error writing list end: '' (WriteListEnd pr))
      (rbind (rprep ''error reading list end: '' (ReadListEnd pr)) (\<lambda>_. rret (map g xs))) (map g xs)"
    by (rule reads_back_end [OF faithfulD(5) [OF assms(1)]])
  ultimately show "reads_back (wthen (weach elem xs) (wprep ''error writing list end: '' (WriteListEnd pr)))
     (if int (length xs) < 0 then rfail (Crashed NegativeCapacity)
      else rbind (read_elems r (nat (int (length xs))) []) (\<lambda>xs.
        rbind (rprep ''error reading list end: '' (ReadListEnd pr)) (\<lambda>_. rret xs))) (map g xs)"
    by (simp add: reads_back_then)
qed

text \<open>A map is read in the order in which it was written.\<close>

lemma read_entries_back:
  assumes "\<And>k v. (k, v) \<in> set kvs \<Longrightarrow> reads_back (val v) rv (g v)" and "\<And>k. reads_back (wk k) rk k"
  shows "reads_back (weach (\<lambda>(k, v). wthen (wk k) (val v)) kvs) (read_entries rk rv (length kvs) m)
     (fold (\<lambda>(k, v). AList.update k (g v)) kvs m)"
  using assms(1)
proof (induction kvs arbitrary: m)
  case Nil then show ?case by (simp add: reads_back_nil)
next
  case (Cons kv kvs)
  obtain k v where kv: "kv = (k, v)" by (cases kv)
  have "reads_back (weach (\<lambda>(k, v). wthen (wk k) (val v)) kvs) (read_entries rk rv (length kvs) (AList.update k (g v) m))
     (fold (\<lambda>(k, v). AList.update k (g v)) kvs (AList.update k (g v) m))"
    using Cons.prems by (intro Cons.IH) auto
  moreover have "reads_back (val v) rv (g v)" using Cons.prems kv by auto
  ultimately show ?case
    by (auto simp: kv wthen_assoc intro!: reads_back_then assms(2))
qed

lemma update_fresh: "k \<notin> fst ` set m \<Longrightarrow> AList.update k v m = m @ [(k, v)]"
  by (induction m) auto

lemma fold_update_fresh:
  "distinct (map fst m @ map fst kvs) \<Longrightarrow> fold (\<lambda>(k, v). AList.update k (g v)) kvs m = m @ map (\<lambda>(k, v). (k, g v)) kvs"
proof (induction kvs arbitrary: m)
  case (Cons kv kvs)
  obtain k v where kv: "kv = (k, v)" by (cases kv)
  have "AList.update k (g v) m = m @ [(k, g v)]"
    using Cons.prems kv by (intro update_fresh) auto
  then show ?case using Cons.IH [of "m @ [(k, g v)]"] Cons.prems kv by simp
qed simp

lemma ranged_keys: "map fst (ranged ko m) = ko (map fst m)"
  by (simp add: ranged_def o_def)

lemma ranged_distinct: "is_order ko \<Longrightarrow> distinct (map fst m) \<Longrightarrow> distinct (map fst (ranged ko m))"
  by (metis is_order_def mset_eq_imp_distinct_iff ranged_keys)

lemma ranged_length: "is_order ko \<Longrightarrow> length (ranged ko m) = length m"
  by (metis is_order_def length_map mset_eq_length ranged_keys)

lemma map_of_ranged:
  assumes "is_order ko"
  shows "map_of (ranged ko m) = map_of m"
proof
  fix k
  have "set (ko (map fst m)) = fst ` set m"
    by (metis assms is_order_def list.set_map mset_eq_setD)
  then show "map_of (ranged ko m) k = map_of m k"
    by (auto simp: ranged_def map_of_map_restrict restrict_map_def map_of_eq_None_iff eq_commute [of None])
qed

lemma ranged_subset: "is_order ko \<Longrightarrow> distinct (map fst m) \<Longrightarrow> set (ranged ko m) = set m"
  by (metis map_of_inject_set map_of_ranged ranged_distinct)

lemma read_map_back:
  assumes "faithful pr" and "is_order ko" and "distinct (map fst m)"
    and "\<And>k v. (k, v) \<in> set m \<Longrightarrow> reads_back (val v) rv (g v)"
  shows "reads_back (write_map pr T ko t val m) (read_map pr rv) (map (\<lambda>(k, v). (k, g v)) (ranged ko m))"
  unfolding write_map_def read_map_def
proof (rule reads_back_then)
  let ?m = "ranged ko m" and ?r = "map (\<lambda>(k, v). (k, g v)) (ranged ko m)"
  let ?k = "rprep ''error reading field 0: '' (ReadString pr)"
  show "reads_back (wprep ''error writing map begin: '' (WriteMapBegin pr TSTRING t (int (length m))))
      (rprep ''error reading map begin: '' (ReadMapBegin pr)) (int (length ?m))"
    using assms(1,2) by (simp add: ranged_length wire_intros)
  have "reads_back (weach (\<lambda>(k, v). wthen (wprep (T @ ''. (0) field write error: '') (WriteString pr k)) (val v)) ?m)
      (read_entries ?k rv (length ?m) []) (fold (\<lambda>(k, v). AList.update k (g v)) ?m [])"
    using assms by (intro read_entries_back) (auto simp: ranged_subset intro: wire_intros)
  moreover have "fold (\<lambda>(k, v). AList.update k (g v)) ?m [] = ?r"
    using fold_update_fresh [of "[]" ?m g] ranged_distinct [OF assms(2,3)] by simp
  moreover have "reads_back (wprep ''error writing map end: '' (WriteMapEnd pr))
      (rbind (rprep ''error reading map end: '' (ReadMapEnd pr)) (\<lambda>_. rret ?r)) ?r"
    by (rule reads_back_end [OF faithfulD(7) [OF assms(1)]])
  ultimately show "reads_back (wthen (weach (\<lambda>(k, v). wthen (wprep (T @ ''. (0) field write error: '') (WriteString pr k)) (val v)) ?m)
        (wprep ''error writing map end: '' (WriteMapEnd pr)))
     (rbind (read_entries ?k rv (nat (int (length ?m))) []) (\<lambda>m.
        rbind (rprep ''error reading map end: '' (ReadMapEnd pr)) (\<lambda>_. rret m))) ?r"
    by (simp add: reads_back_then)
qed

text \<open>The loop over the fields: a written field takes one round, an unset one none.\<close>

lemma read_fields_stop:
  assumes "faithful pr" and "0 < n"
  shows "reads_back (wprep m (WriteFieldStop pr)) (read_fields pr T sw n st) st"
proof -
  obtain k where n: "n = Suc k" using assms(2) gr0_implies_Suc by blast
  obtain i where i: "reads_back (WriteFieldStop pr) (ReadFieldBegin pr) (TSTOP, i)"
    using assms(1) by (auto simp: faithful_def)
  show ?thesis
    using i unfolding reads_back_def
    by (fastforce simp: n wprep_def rprep_def rbind_def rret_def split: sum.splits)
qed

lemma read_fields_step:
  assumes "reads_back w (ReadFieldBegin pr) (t, i)" and "t \<noteq> TSTOP"
    and "reads_back w' (\<lambda>b. rbind (read_field pr sw t i st) (\<lambda>st'. rbind (ReadFieldEnd pr) (\<lambda>_. read_fields pr T sw n st')) b) v"
  shows "reads_back (wthen (wprep m w) w') (read_fields pr T sw (Suc n) st) v"
proof (unfold reads_back_def, intro allI impI)
  fix out out'' assume "wthen (wprep m w) w' out = Inr out''"
  then obtain out' where "w out = Inr out'" and "w' out' = Inr out''"
    by (auto simp: wthen_eq_Inr wprep_def split: sum.splits)
  with assms(1,3) obtain bs bs' where out: "out' = out @ bs" "out'' = out' @ bs'"
    and r: "\<forall>rest. ReadFieldBegin pr (bs @ rest) = Inr ((t, i), rest)"
    and f: "\<forall>rest. rbind (read_field pr sw t i st) (\<lambda>st'. rbind (ReadFieldEnd pr) (\<lambda>_. read_fields pr T sw n st')) (bs' @ rest) = Inr (v, rest)"
    unfolding reads_back_def by blast
  have "read_fields pr T sw (Suc n) st ((bs @ bs') @ rest) = Inr (v, rest)" for rest
    using r f assms(2) by (simp add: rbind_def [where f = "rprep _ _"] rprep_def)
  with out show "\<exists>bs. out'' = out @ bs \<and> (\<forall>rest. read_fields pr T sw (Suc n) st (bs @ rest) = Inr (v, rest))"
    by (metis append.assoc)
qed

lemma field_end_back:
  assumes "faithful pr" and "reads_back w r v"
  shows "reads_back (wthen (wprep m (WriteFieldEnd pr)) w) (rbind (ReadFieldEnd pr) (\<lambda>_. r)) v"
  by (rule reads_back_then [OF reads_back_wprep [OF faithfulD(3) [OF assms(1)]] assms(2)])

lemma read_fields_field:
  assumes "faithful pr" and "0 < n" and "t \<noteq> TSTOP" and "sw i = Some f"
    and "reads_back body (f p) p'"
    and "reads_back w (read_fields pr T sw (n - 1) (p', i # seen)) v"
  shows "reads_back (wthen (write_field pr T' label name t i body) w) (read_fields pr T sw n (p, seen)) v"
proof -
  have "reads_back (WriteFieldBegin pr name t i) (ReadFieldBegin pr) (t, i)"
    using assms(1,3) by (simp add: faithful_def)
  moreover have "reads_back (wthen body (wthen (wprep m (WriteFieldEnd pr)) w))
      (rbind (read_field pr sw t i (p, seen)) (\<lambda>st'. rbind (ReadFieldEnd pr) (\<lambda>_. read_fields pr T sw (n - 1) st'))) v" for m
    using assms(4) field_end_back [OF assms(1,6)]
    by (simp add: read_field_def rbind_assoc) (rule reads_back_then [OF assms(5)], simp)
  ultimately have "reads_back (wthen (write_field pr T' label name t i body) w)
      (read_fields pr T sw (Suc (n - 1)) (p, seen)) v"
    unfolding write_field_def wthen_assoc using assms(3) by (intro read_fields_step) auto
  with assms(2) show ?thesis by simp
qed

lemma read_fields_skip:
  assumes "faithful pr" and "0 < n" and "t \<noteq> TSTOP" and "sw i = None"
    and "reads_back body (Skip pr t) ()"
    and "reads_back w (read_fields pr T sw (n - 1) st) v"
  shows "reads_back (wthen (write_field pr T' label name t i body) w) (read_fields pr T sw n st) v"
proof -
  have "reads_back (WriteFieldBegin pr name t i) (ReadFieldBegin pr) (t, i)"
    using assms(1,3) by (simp add: faithful_def)
  moreover have "reads_back (wthen body (wthen (wprep m (WriteFieldEnd pr)) w))
      (rbind (read_field pr sw t i st) (\<lambda>st'. rbind (ReadFieldEnd pr) (\<lambda>_. read_fields pr T sw (n - 1) st'))) v" for m
    using assms(4) field_end_back [OF assms(1,6)]
    by (simp add: read_field_def rbind_assoc) (rule reads_back_then [OF assms(5)], simp)
  ultimately have "reads_back (wthen (write_field pr T' label name t i body) w)
      (read_fields pr T sw (Suc (n - 1)) st) v"
    unfolding write_field_def wthen_assoc using assms(3) by (intro read_fields_step) auto
  with assms(2) show ?thesis by simp
qed

lemma read_struct_back:
  assumes "faithful pr"
    and "reads_back (wthen (weach id ws) (wprep ''write field stop error: '' (WriteFieldStop pr)))
      (read_fields pr T sw fuel (p, [])) (q, seen)"
    and "fst ` set req \<subseteq> set seen"
  shows "reads_back (write_struct pr T' name ws) (read_struct pr fuel T sw req p) q"
proof -
  have req: "require req seen = rret ()"
    using assms(3) by (induction req) (auto split: prod.splits)
  have "reads_back (wprep m (WriteStructEnd pr))
     (rbind (rprep (T @ '' read struct end error: '') (ReadStructEnd pr)) (\<lambda>_. rbind (require req seen) (\<lambda>_. rret q))) q" for m
    using reads_back_end [OF faithfulD(2) [OF assms(1)]] by (simp add: req)
  moreover have "reads_back (wprep m (WriteStructBegin pr name)) (rprep (T @ '' read error: '') (ReadStructBegin pr)) ()" for m
    using assms(1) by (intro reads_back_prep faithfulD)
  ultimately show ?thesis
    unfolding write_struct_def read_struct_def
    by (subst wthen_assoc [of "weach id ws", symmetric]) (rule reads_back_then, assumption, rule reads_back_then [OF assms(2)], simp)
qed

section \<open>LaserKey\<close>

definition NewLaserKey :: LaserKey where
  "NewLaserKey = \<lparr>lk_DatabaseName = [], lk_TableName = [], lk_PrimaryKeys = [], lk_ColumnKeys = []\<rparr>"

definition LaserKey_ReadField1 :: "'b Protocol \<Rightarrow> LaserKey \<Rightarrow> ('b, LaserKey) rd" where
  "LaserKey_ReadField1 pr p =
     rbind (rprep ''error reading field 1: '' (ReadString pr)) (\<lambda>v. rret (p\<lparr>lk_DatabaseName := v\<rparr>))"

definition LaserKey_ReadField2 :: "'b Protocol \<Rightarrow> LaserKey \<Rightarrow> ('b, LaserKey) rd" where
  "LaserKey_ReadField2 pr p =
     rbind (rprep ''error reading field 2: '' (ReadString pr)) (\<lambda>v. rret (p\<lparr>lk_TableName := v\<rparr>))"

definition LaserKey_ReadField3 :: "'b Protocol \<Rightarrow> LaserKey \<Rightarrow> ('b, LaserKey) rd" where
  "LaserKey_ReadField3 pr p =
     rbind (read_list pr (rprep ''error reading field 0: '' (ReadString pr))) (\<lambda>v. rret (p\<lparr>lk_PrimaryKeys := v\<rparr>))"

definition LaserKey_ReadField4 :: "'b Protocol \<Rightarrow> LaserKey \<Rightarrow> ('b, LaserKey) rd" where
  "LaserKey_ReadField4 pr p =
     rbind (read_list pr (rprep ''error reading field 0: '' (ReadString pr))) (\<lambda>v. rret (p\<lparr>lk_ColumnKeys := v\<rparr>))"

definition LaserKey_switch :: "'b Protocol \<Rightarrow> ('b, LaserKey) field_reader" where
  "LaserKey_switch pr i =
     (if i = 1 then Some (LaserKey_ReadField1 pr)
      else if i = 2 then Some (LaserKey_ReadField2 pr)
      else if i = 3 then Some (LaserKey_ReadField3 pr)
      else if i = 4 then Some (LaserKey_ReadField4 pr)
      else None)"

definition LaserKey_Read :: "'b Protocol \<Rightarrow> nat \<Rightarrow> LaserKey \<Rightarrow> ('b, LaserKey) rd" where
  "LaserKey_Read pr fuel p =
     read_struct pr fuel ''*laser.LaserKey'' (LaserKey_switch pr)
       [(1, ''DatabaseName''), (2, ''TableName''), (3, ''PrimaryKeys'')] p"

definition LaserKey_writeField1 :: "'b Protocol \<Rightarrow> LaserKey \<Rightarrow> 'b wr" where
  "LaserKey_writeField1 pr p =
     write_field pr ''*laser.LaserKey'' ''1:database_name'' ''database_name'' TSTRING 1
       (wprep ''*laser.LaserKey.database_name (1) field write error: '' (WriteString pr (lk_DatabaseName p)))"

definition LaserKey_writeField2 :: "'b Protocol \<Rightarrow> LaserKey \<Rightarrow> 'b wr" where
  "LaserKey_writeField2 pr p =
     write_field pr ''*laser.LaserKey'' ''2:table_name'' ''table_name'' TSTRING 2
       (wprep ''*laser.LaserKey.table_name (2) field write error: '' (WriteString pr (lk_TableName p)))"

definition LaserKey_writeField3 :: "'b Protocol \<Rightarrow> LaserKey \<Rightarrow> 'b wr" where
  "LaserKey_writeField3 pr p =
     write_field pr ''*laser.LaserKey'' ''3:primary_keys'' ''primary_keys'' TLIST 3
       (write_list pr TSTRING (\<lambda>x. wprep ''*laser.LaserKey. (0) field write error: '' (WriteString pr x)) (lk_PrimaryKeys p))"

definition LaserKey_writeField4 :: "'b Protocol \<Rightarrow> LaserKey \<Rightarrow> 'b wr" where
  "LaserKey_writeField4 pr p =
     write_field pr ''*laser.LaserKey'' ''4:column_keys'' ''column_keys'' TLIST 4
       (write_list pr TSTRING (\<lambda>x. wprep ''*laser.LaserKey. (0) field write error: '' (WriteString pr x)) (lk_ColumnKeys p))"

definition LaserKey_Write :: "'b Protocol \<Rightarrow> LaserKey \<Rightarrow> 'b wr" where
  "LaserKey_Write pr p =
     write_struct pr ''*laser.LaserKey'' ''LaserKey''
       [LaserKey_writeField1 pr p, LaserKey_writeField2 pr p, LaserKey_writeField3 pr p,
        LaserKey_writeField4 pr p]"

text \<open>\<open>Write\<close> on a nil pointer panics when the first field is written.\<close>

definition LaserKey_Write_nil :: "'b Protocol \<Rightarrow> 'b wr" where
  "LaserKey_Write_nil pr =
     wthen (wprep ''*laser.LaserKey write struct begin error: '' (WriteStructBegin pr ''LaserKey''))
       (\<lambda>_. Inl (Crashed NilPointer))"

section \<open>LaserKeys\<close>

record LaserKeys =
  lks_Keys :: "LaserKey list"

definition NewLaserKeys :: LaserKeys where
  "NewLaserKeys = \<lparr>lks_Keys = []\<rparr>"

definition LaserKeys_ReadField1 :: "'b Protocol \<Rightarrow> nat \<Rightarrow> LaserKeys \<Rightarrow> ('b, LaserKeys) rd" where
  "LaserKeys_ReadField1 pr fuel p =
     rbind (read_list pr (rprep ''*laser.LaserKey error reading struct: '' (LaserKey_Read pr fuel NewLaserKey))) (\<lambda>v. rret (p\<lparr>lks_Keys := v\<rparr>))"

definition LaserKeys_switch :: "'b Protocol \<Rightarrow> nat \<Rightarrow> ('b, LaserKeys) field_reader" where
  "LaserKeys_switch pr fuel i =
     (if i = 1 then Some (LaserKeys_ReadField1 pr fuel)
      else None)"

definition LaserKeys_Read :: "'b Protocol \<Rightarrow> nat \<Rightarrow> LaserKeys \<Rightarrow> ('b, LaserKeys) rd" where
  "LaserKeys_Read pr fuel p =
     read_struct pr fuel ''*laser.LaserKeys'' (LaserKeys_switch pr fuel)
       [(1, ''Keys'')] p"

definition LaserKeys_writeField1 :: "'b Protocol \<Rightarrow> LaserKeys \<Rightarrow> 'b wr" where
  "LaserKeys_writeField1 pr p =
     write_field pr ''*laser.LaserKeys'' ''1:keys'' ''keys'' TLIST 1
       (write_list pr TSTRUCT (\<lambda>x. wprep ''*laser.LaserKey error writing struct: '' (LaserKey_Write pr x)) (lks_Keys p))"

definition LaserKeys_Write :: "'b Protocol \<Rightarrow> LaserKeys \<Rightarrow> 'b wr" where
  "LaserKeys_Write pr p =
     write_struct pr ''*laser.LaserKeys'' ''LaserKeys''
       [LaserKeys_writeField1 pr p]"

section \<open>EntryValue\<close>

definition NewEntryValue :: EntryValue where
  "NewEntryValue = \<lparr>ev_Status = 0, ev_StringValue = []\<rparr>"

definition EntryValue_ReadField1 :: "'b Protocol \<Rightarrow> EntryValue \<Rightarrow> ('b, EntryValue) rd" where
  "EntryValue_ReadField1 pr p =
     rbind (rprep ''error reading field 1: '' (ReadI32 pr)) (\<lambda>v. rret (p\<lparr>ev_Status := (scast v)\<rparr>))"

definition EntryValue_ReadField2 :: "'b Protocol \<Rightarrow> EntryValue \<Rightarrow> ('b, EntryValue) rd" where
  "EntryValue_ReadField2 pr p =
     rbind (rprep ''error reading field 2: '' (ReadString pr)) (\<lambda>v. rret (p\<lparr>ev_StringValue := v\<rparr>))"

definition EntryValue_switch :: "'b Protocol \<Rightarrow> ('b, EntryValue) field_reader" where
  "EntryValue_switch pr i =
     (if i = 1 then Some (EntryValue_ReadField1 pr)
      else if i = 2 then Some (EntryValue_ReadField2 pr)
      else None)"

definition EntryValue_Read :: "'b Protocol \<Rightarrow> nat \<Rightarrow> EntryValue \<Rightarrow> ('b, EntryValue) rd" where
  "EntryValue_Read pr fuel p =
     read_struct pr fuel ''*laser.EntryValue'' (EntryValue_switch pr)
       [(1, ''Status''), (2, ''StringValue'')] p"

definition EntryValue_writeField1 :: "'b Protocol \<Rightarrow> EntryValue \<Rightarrow> 'b wr" where
  "EntryValue_writeField1 pr p =
     write_field pr ''*laser.EntryValue'' ''1:status'' ''status'' TI32 1
       (wprep ''*laser.EntryValue.status (1) field write error: '' (WriteI32 pr (scast (ev_Status p))))"

definition EntryValue_writeField2 :: "'b Protocol \<Rightarrow> EntryValue \<Rightarrow> 'b wr" where
  "EntryValue_writeField2 pr p =
     write_field pr ''*laser.EntryValue'' ''2:string_value'' ''string_value'' TSTRING 2
       (wprep ''*laser.EntryValue.string_value (2) field write error: '' (WriteString pr (ev_StringValue p)))"

definition EntryValue_Write :: "'b Protocol \<Rightarrow> EntryValue \<Rightarrow> 'b wr" where
  "EntryValue_Write pr p =
     write_struct pr ''*laser.EntryValue'' ''EntryValue''
       [EntryValue_writeField1 pr p, EntryValue_writeField2 pr p]"

section \<open>LaserValue\<close>

definition LaserValue_ReadField1 :: "'b Protocol \<Rightarrow> LaserValue \<Rightarrow> ('b, LaserValue) rd" where
  "LaserValue_ReadField1 pr p =
     rbind (rprep ''error reading field 1: '' (ReadString pr)) (\<lambda>v. rret (p\<lparr>lv_StringValue := Some v\<rparr>))"

definition LaserValue_ReadField2 :: "'b Protocol \<Rightarrow> LaserValue \<Rightarrow> ('b, LaserValue) rd" where
  "LaserValue_ReadField2 pr p =
     rbind (read_map pr (rprep ''error reading field 0: '' (ReadString pr))) (\<lambda>v. rret (p\<lparr>lv_MapValue := Some v\<rparr>))"

definition LaserValue_ReadField3 :: "'b Protocol \<Rightarrow> LaserValue \<Rightarrow> ('b, LaserValue) rd" where
  "LaserValue_ReadField3 pr p =
     rbind (rprep ''error reading field 3: '' (ReadBool pr)) (\<lambda>v. rret (p\<lparr>lv_NullValue := Some v\<rparr>))"

definition LaserValue_ReadField4 :: "'b Protocol \<Rightarrow> LaserValue \<Rightarrow> ('b, LaserValue) rd" where
  "LaserValue_ReadField4 pr p =
     rbind (read_map pr (rprep ''error reading field 0: '' (ReadI64 pr))) (\<lambda>v. rret (p\<lparr>lv_MemberScoreValue := Some v\<rparr>))"

definition LaserValue_ReadField5 :: "'b Protocol \<Rightarrow> nat \<Rightarrow> LaserValue \<Rightarrow> ('b, LaserValue) rd" where
  "LaserValue_ReadField5 pr fuel p =
     rbind (rprep ''*laser.EntryValue error reading struct: '' (EntryValue_Read pr fuel NewEntryValue)) (\<lambda>v. rret (p\<lparr>lv_EntryValue := Some v\<rparr>))"

definition LaserValue_switch :: "'b Protocol \<Rightarrow> nat \<Rightarrow> ('b, LaserValue) field_reader" where
  "LaserValue_switch pr fuel i =
     (if i = 1 then Some (LaserValue_ReadField1 pr)
      else if i = 2 then Some (LaserValue_ReadField2 pr)
      else if i = 3 then Some (LaserValue_ReadField3 pr)
      else if i = 4 then Some (LaserValue_ReadField4 pr)
      else if i = 5 then Some (LaserValue_ReadField5 pr fuel)
      else None)"

definition LaserValue_Read :: "'b Protocol \<Rightarrow> nat \<Rightarrow> LaserValue \<Rightarrow> ('b, LaserValue) rd" where
  "LaserValue_Read pr fuel p =
     read_struct pr fuel ''*laser.LaserValue'' (LaserValue_switch pr fuel)
       [] p"

definition LaserValue_writeField1 :: "'b Protocol \<Rightarrow> LaserValue \<Rightarrow> 'b wr" where
  "LaserValue_writeField1 pr p =
     (case lv_StringValue p of None \<Rightarrow> wnil
      | Some v \<Rightarrow> write_field pr ''*laser.LaserValue'' ''1:string_value'' ''string_value'' TSTRING 1
       (wprep ''*laser.LaserValue.string_value (1) field write error: '' (WriteString pr v)))"

definition LaserValue_writeField2 :: "'b Protocol \<Rightarrow> (string list \<Rightarrow> string list) \<Rightarrow> LaserValue \<Rightarrow> 'b wr" where
  "LaserValue_writeField2 pr ko p =
     (case lv_MapValue p of None \<Rightarrow> wnil
      | Some v \<Rightarrow> write_field pr ''*laser.LaserValue'' ''2:map_value'' ''map_value'' TMAP 2
       (write_map pr ''*laser.LaserValue'' ko TSTRING (\<lambda>x. wprep ''*laser.LaserValue. (0) field write error: '' (WriteString pr x)) v))"

definition LaserValue_writeField3 :: "'b Protocol \<Rightarrow> LaserValue \<Rightarrow> 'b wr" where
  "LaserValue_writeField3 pr p =
     (case lv_NullValue p of None \<Rightarrow> wnil
      | Some v \<Rightarrow> write_field pr ''*laser.LaserValue'' ''3:null_value'' ''null_value'' TBOOL 3
       (wprep ''*laser.LaserValue.null_value (3) field write error: '' (WriteBool pr v)))"

definition LaserValue_writeField4 :: "'b Protocol \<Rightarrow> (string list \<Rightarrow> string list) \<Rightarrow> LaserValue \<Rightarrow> 'b wr" where
  "LaserValue_writeField4 pr ko p =
     (case lv_MemberScoreValue p of None \<Rightarrow> wnil
      | Some v \<Rightarrow> write_field pr ''*laser.LaserValue'' ''4:member_score_value'' ''member_score_value'' TMAP 4
       (write_map pr ''*laser.LaserValue'' ko TI64 (\<lambda>x. wprep ''*laser.LaserValue. (0) field write error: '' (WriteI64 pr x)) v))"

definition LaserValue_writeField5 :: "'b Protocol \<Rightarrow> LaserValue \<Rightarrow> 'b wr" where
  "LaserValue_writeField5 pr p =
     (case lv_EntryValue p of None \<Rightarrow> wnil
      | Some v \<Rightarrow> write_field pr ''*laser.LaserValue'' ''5:entry_value'' ''entry_value'' TSTRUCT 5
       (wprep ''*laser.EntryValue error writing struct: '' (EntryValue_Write pr v)))"

definition LaserValue_Write :: "'b Protocol \<Rightarrow> (string list \<Rightarrow> string list) \<Rightarrow> LaserValue \<Rightarrow> 'b wr" where
  "LaserValue_Write pr ko p =
     (if CountSetFieldsLaserValue p \<noteq> 1
      then (\<lambda>_. Inl (WireError OtherError (''*laser.LaserValue'' @ '' write union: exactly one field must be set ('' @
             Itoa (int (CountSetFieldsLaserValue p)) @ '' set).'')))
      else write_struct pr ''*laser.LaserValue'' ''LaserValue''
       [LaserValue_writeField1 pr p, LaserValue_writeField2 pr ko p, LaserValue_writeField3 pr p,
        LaserValue_writeField4 pr ko p, LaserValue_writeField5 pr p])"

text \<open>\<open>Write\<close> on a nil pointer panics when it counts the fields.\<close>

definition LaserValue_Write_nil :: "'b wr" where
  "LaserValue_Write_nil out = Inl (Crashed NilPointer)"

section \<open>LaserKV\<close>

definition NewLaserKV :: LaserKV where
  "NewLaserKV = \<lparr>kv_Key = None, kv_Value = None\<rparr>"

definition LaserKV_ReadField1 :: "'b Protocol \<Rightarrow> nat \<Rightarrow> LaserKV \<Rightarrow> ('b, LaserKV) rd" where
  "LaserKV_ReadField1 pr fuel p =
     rbind (rprep ''*laser.LaserKey error reading struct: '' (LaserKey_Read pr fuel NewLaserKey)) (\<lambda>v. rret (p\<lparr>kv_Key := Some v\<rparr>))"

definition LaserKV_ReadField2 :: "'b Protocol \<Rightarrow> nat \<Rightarrow> LaserKV \<Rightarrow> ('b, LaserKV) rd" where
  "LaserKV_ReadField2 pr fuel p =
     rbind (rprep ''*laser.LaserValue error reading struct: '' (LaserValue_Read pr fuel NewLaserValue)) (\<lambda>v. rret (p\<lparr>kv_Value := Some v\<rparr>))"

definition LaserKV_switch :: "'b Protocol \<Rightarrow> nat \<Rightarrow> ('b, LaserKV) field_reader" where
  "LaserKV_switch pr fuel i =
     (if i = 1 then Some (LaserKV_ReadField1 pr fuel)
      else if i = 2 then Some (LaserKV_ReadField2 pr fuel)
      else None)"

definition LaserKV_Read :: "'b Protocol \<Rightarrow> nat \<Rightarrow> LaserKV \<Rightarrow> ('b, LaserKV) rd" where
  "LaserKV_Read pr fuel p =
     read_struct pr fuel ''*laser.LaserKV'' (LaserKV_switch pr fuel)
       [(1, ''Key''), (2, ''Value'')] p"

definition LaserKV_writeField1 :: "'b Protocol \<Rightarrow> LaserKV \<Rightarrow> 'b wr" where
  "LaserKV_writeField1 pr p =
     write_field pr ''*laser.LaserKV'' ''1:key'' ''key'' TSTRUCT 1
       (wprep ''*laser.LaserKey error writing struct: '' (case kv_Key p of Some v \<Rightarrow> LaserKey_Write pr v | None \<Rightarrow> LaserKey_Write_nil pr))"

definition LaserKV_writeField2 :: "'b Protocol \<Rightarrow> (string list \<Rightarrow> string list) \<Rightarrow> LaserKV \<Rightarrow> 'b wr" where
  "LaserKV_writeField2 pr ko p =
     write_field pr ''*laser.LaserKV'' ''2:value'' ''value'' TSTRUCT 2
       (wprep ''*laser.LaserValue error writing struct: '' (case kv_Value p of Some v \<Rightarrow> LaserValue_Write pr ko v | None \<Rightarrow> LaserValue_Write_nil))"

definition LaserKV_Write :: "'b Protocol \<Rightarrow> (string list \<Rightarrow> string list) \<Rightarrow> LaserKV \<Rightarrow> 'b wr" where
  "LaserKV_Write pr ko p =
     write_struct pr ''*laser.LaserKV'' ''LaserKV''
       [LaserKV_writeField1 pr p, LaserKV_writeField2 pr ko p]"

section \<open>LaserSetOption\<close>

definition NewLaserSetOption :: LaserSetOption where
  "NewLaserSetOption = \<lparr>so_NotExists = False, so_Ttl = 0\<rparr>"

definition LaserSetOption_ReadField1 :: "'b Protocol \<Rightarrow> LaserSetOption \<Rightarrow> ('b, LaserSetOption) rd" where
  "LaserSetOption_ReadField1 pr p =
     rbind (rprep ''error reading field 1: '' (ReadBool pr)) (\<lambda>v. rret (p\<lparr>so_NotExists := v\<rparr>))"

definition LaserSetOption_ReadField2 :: "'b Protocol \<Rightarrow> LaserSetOption \<Rightarrow> ('b, LaserSetOption) rd" where
  "LaserSetOption_ReadField2 pr p =
     rbind (rprep ''error reading field 2: '' (ReadI64 pr)) (\<lambda>v. rret (p\<lparr>so_Ttl := v\<rparr>))"

definition LaserSetOption_switch :: "'b Protocol \<Rightarrow> ('b, LaserSetOption) field_reader" where
  "LaserSetOption_switch pr i =
     (if i = 1 then Some (LaserSetOption_ReadField1 pr)
      else if i = 2 then Some (LaserSetOption_ReadField2 pr)
      else None)"

definition LaserSetOption_Read :: "'b Protocol \<Rightarrow> nat \<Rightarrow> LaserSetOption \<Rightarrow> ('b, LaserSetOption) rd" where
  "LaserSetOption_Read pr fuel p =
     read_struct pr fuel ''*laser.LaserSetOption'' (LaserSetOption_switch pr)
       [(1, ''NotExists''), (2, ''Ttl'')] p"

definition LaserSetOption_writeField1 :: "'b Protocol \<Rightarrow> LaserSetOption \<Rightarrow> 'b wr" where
  "LaserSetOption_writeField1 pr p =
     write_field pr ''*laser.LaserSetOption'' ''1:not_exists'' ''not_exists'' TBOOL 1
       (wprep ''*laser.LaserSetOption.not_exists (1) field write error: '' (WriteBool pr (so_NotExists p)))"

definition LaserSetOption_writeField2 :: "'b Protocol \<Rightarrow> LaserSetOption \<Rightarrow> 'b wr" where
  "LaserSetOption_writeField2 pr p =
     write_field pr ''*laser.LaserSetOption'' ''2:ttl'' ''ttl'' TI64 2
       (wprep ''*laser.LaserSetOption.ttl (2) field write error: '' (WriteI64 pr (so_Ttl p)))"

definition LaserSetOption_Write :: "'b Protocol \<Rightarrow> LaserSetOption \<Rightarrow> 'b wr" where
  "LaserSetOption_Write pr p =
     write_struct pr ''*laser.LaserSetOption'' ''LaserSetOption''
       [LaserSetOption_writeField1 pr p, LaserSetOption_writeField2 pr p]"

section \<open>LaserKVs\<close>

record LaserKVs =
  kvs_Values :: "LaserKV list"

definition NewLaserKVs :: LaserKVs where
  "NewLaserKVs = \<lparr>kvs_Values = []\<rparr>"

definition LaserKVs_ReadField1 :: "'b Protocol \<Rightarrow> nat \<Rightarrow> LaserKVs \<Rightarrow> ('b, LaserKVs) rd" where
  "LaserKVs_ReadField1 pr fuel p =
     rbind (read_list pr (rprep ''*laser.LaserKV error reading struct: '' (LaserKV_Read pr fuel NewLaserKV))) (\<lambda>v. rret (p\<lparr>kvs_Values := v\<rparr>))"

definition LaserKVs_switch :: "'b Protocol \<Rightarrow> nat \<Rightarrow> ('b, LaserKVs) field_reader" where
  "LaserKVs_switch pr fuel i =
     (if i = 1 then Some (LaserKVs_ReadField1 pr fuel)
      else None)"

definition LaserKVs_Read :: "'b Protocol \<Rightarrow> nat \<Rightarrow> LaserKVs \<Rightarrow> ('b, LaserKVs) rd" where
  "LaserKVs_Read pr fuel p =
     read_struct pr fuel ''*laser.LaserKVs'' (LaserKVs_switch pr fuel)
       [] p"

definition LaserKVs_writeField1 :: "'b Protocol \<Rightarrow> (string list \<Rightarrow> string list) \<Rightarrow> LaserKVs \<Rightarrow> 'b wr" where
  "LaserKVs_writeField1 pr ko p =
     write_field pr ''*laser.LaserKVs'' ''1:values'' ''values'' TLIST 1
       (write_list pr TSTRUCT (\<lambda>x. wprep ''*laser.LaserKV error writing struct: '' (LaserKV_Write pr ko x)) (kvs_Values p))"

definition LaserKVs_Write :: "'b Protocol \<Rightarrow> (string list \<Rightarrow> string list) \<Rightarrow> LaserKVs \<Rightarrow> 'b wr" where
  "LaserKVs_Write pr ko p =
     write_struct pr ''*laser.LaserKVs'' ''LaserKVs''
       [LaserKVs_writeField1 pr ko p]"

section \<open>LaserScoreMember\<close>

definition NewLaserScoreMember :: LaserScoreMember where
  "NewLaserScoreMember = \<lparr>sm_Score = 0, sm_Member = []\<rparr>"

definition LaserScoreMember_ReadField1 :: "'b Protocol \<Rightarrow> LaserScoreMember \<Rightarrow> ('b, LaserScoreMember) rd" where
  "LaserScoreMember_ReadField1 pr p =
     rbind (rprep ''error reading field 1: '' (ReadI64 pr)) (\<lambda>v. rret (p\<lparr>sm_Score := v\<rparr>))"

definition LaserScoreMember_ReadField2 :: "'b Protocol \<Rightarrow> LaserScoreMember \<Rightarrow> ('b, LaserScoreMember) rd" where
  "LaserScoreMember_ReadField2 pr p =
     rbind (rprep ''error reading field 2: '' (ReadString pr)) (\<lambda>v. rret (p\<lparr>sm_Member := v\<rparr>))"

definition LaserScoreMember_switch :: "'b Protocol \<Rightarrow> ('b, LaserScoreMember) field_reader" where
  "LaserScoreMember_switch pr i =
     (if i = 1 then Some (LaserScoreMember_ReadField1 pr)
      else if i = 2 then Some (LaserScoreMember_ReadField2 pr)
      else None)"

definition LaserScoreMember_Read :: "'b Protocol \<Rightarrow> nat \<Rightarrow> LaserScoreMember \<Rightarrow> ('b, LaserScoreMember) rd" where
  "LaserScoreMember_Read pr fuel p =
     read_struct pr fuel ''*laser.LaserScoreMember'' (LaserScoreMember_switch pr)
       [(1, ''Score''), (2, ''Member'')] p"

definition LaserScoreMember_writeField1 :: "'b Protocol \<Rightarrow> LaserScoreMember \<Rightarrow> 'b wr" where
  "LaserScoreMember_writeField1 pr p =
     write_field pr ''*laser.LaserScoreMember'' ''1:score'' ''score'' TI64 1
       (wprep ''*laser.LaserScoreMember.score (1) field write error: '' (WriteI64 pr (sm_Score p)))"

definition LaserScoreMember_writeField2 :: "'b Protocol \<Rightarrow> LaserScoreMember \<Rightarrow> 'b wr" where
  "LaserScoreMember_writeField2 pr p =
     write_field pr ''*laser.LaserScoreMember'' ''2:member'' ''member'' TSTRING 2
       (wprep ''*laser.LaserScoreMember.member (2) field write error: '' (WriteString pr (sm_Member p)))"

definition LaserScoreMember_Write :: "'b Protocol \<Rightarrow> LaserScoreMember \<Rightarrow> 'b wr" where
  "LaserScoreMember_Write pr p =
     write_struct pr ''*laser.LaserScoreMember'' ''LaserScoreMember''
       [LaserScoreMember_writeField1 pr p, LaserScoreMember_writeField2 pr p]"

section \<open>LaserResponse\<close>

definition LaserResponse_ReadField1 :: "'b Protocol \<Rightarrow> LaserResponse \<Rightarrow> ('b, LaserResponse) rd" where
  "LaserResponse_ReadField1 pr p =
     rbind (rprep ''error reading field 1: '' (ReadI64 pr)) (\<lambda>v. rret (p\<lparr>lr_IntData := Some v\<rparr>))"

definition LaserResponse_ReadField2 :: "'b Protocol \<Rightarrow> LaserResponse \<Rightarrow> ('b, LaserResponse) rd" where
  "LaserResponse_ReadField2 pr p =
     rbind (rprep ''error reading field 2: '' (ReadString pr)) (\<lambda>v. rret (p\<lparr>lr_StringData := Some v\<rparr>))"

definition LaserResponse_ReadField3 :: "'b Protocol \<Rightarrow> LaserResponse \<Rightarrow> ('b, LaserResponse) rd" where
  "LaserResponse_ReadField3 pr p =
     rbind (read_list pr (rprep ''error reading field 0: '' (ReadI64 pr))) (\<lambda>v. rret (p\<lparr>lr_ListIntData := Some v\<rparr>))"

definition LaserResponse_ReadField4 :: "'b Protocol \<Rightarrow> LaserResponse \<Rightarrow> ('b, LaserResponse) rd" where
  "LaserResponse_ReadField4 pr p =
     rbind (read_list pr (rprep ''error reading field 0: '' (ReadString pr))) (\<lambda>v. rret (p\<lparr>lr_ListStringData := Some v\<rparr>))"

definition LaserResponse_ReadField5 :: "'b Protocol \<Rightarrow> nat \<Rightarrow> LaserResponse \<Rightarrow> ('b, LaserResponse) rd" where
  "LaserResponse_ReadField5 pr fuel p =
     rbind (read_list pr (rprep ''*laser.LaserValue error reading struct: '' (LaserValue_Read pr fuel NewLaserValue))) (\<lambda>v. rret (p\<lparr>lr_ListValueData := Some v\<rparr>))"

definition LaserResponse_ReadField6 :: "'b Protocol \<Rightarrow> LaserResponse \<Rightarrow> ('b, LaserResponse) rd" where
  "LaserResponse_ReadField6 pr p =
     rbind (read_map pr (rprep ''error reading field 0: '' (ReadString pr))) (\<lambda>v. rret (p\<lparr>lr_MapStringData := Some v\<rparr>))"

definition LaserResponse_ReadField7 :: "'b Protocol \<Rightarrow> nat \<Rightarrow> LaserResponse \<Rightarrow> ('b, LaserResponse) rd" where
  "LaserResponse_ReadField7 pr fuel p =
     rbind (read_map pr (rprep ''*laser.LaserValue error reading struct: '' (LaserValue_Read pr fuel NewLaserValue))) (\<lambda>v. rret (p\<lparr>lr_MapValueData := Some v\<rparr>))"

definition LaserResponse_ReadField8 :: "'b Protocol \<Rightarrow> LaserResponse \<Rightarrow> ('b, LaserResponse) rd" where
  "LaserResponse_ReadField8 pr p =
     rbind (rprep ''error reading field 8: '' (ReadBool pr)) (\<lambda>v. rret (p\<lparr>lr_BoolData := Some v\<rparr>))"

definition LaserResponse_ReadField9 :: "'b Protocol \<Rightarrow> nat \<Rightarrow> LaserResponse \<Rightarrow> ('b, LaserResponse) rd" where
  "LaserResponse_ReadField9 pr fuel p =
     rbind (read_list pr (rprep ''*laser.LaserScoreMember error reading struct: '' (LaserScoreMember_Read pr fuel NewLaserScoreMember))) (\<lambda>v. rret (p\<lparr>lr_ListScoreMemberData := Some v\<rparr>))"

definition LaserResponse_switch :: "'b Protocol \<Rightarrow> nat \<Rightarrow> ('b, LaserResponse) field_reader" where
  "LaserResponse_switch pr fuel i =
     (if i = 1 then Some (LaserResponse_ReadField1 pr)
      else if i = 2 then Some (LaserResponse_ReadField2 pr)
      else if i = 3 then Some (LaserResponse_ReadField3 pr)
      else if i = 4 then Some (LaserResponse_ReadField4 pr)
      else if i = 5 then Some (LaserResponse_ReadField5 pr fuel)
      else if i = 6 then Some (LaserResponse_ReadField6 pr)
      else if i = 7 then Some (LaserResponse_ReadField7 pr fuel)
      else if i = 8 then Some (LaserResponse_ReadField8 pr)
      else if i = 9 then Some (LaserResponse_ReadField9 pr fuel)
      else None)"

definition LaserResponse_Read :: "'b Protocol \<Rightarrow> nat \<Rightarrow> LaserResponse \<Rightarrow> ('b, LaserResponse) rd" where
  "LaserResponse_Read pr fuel p =
     read_struct pr fuel ''*laser.LaserResponse'' (LaserResponse_switch pr fuel)
       [] p"

definition LaserResponse_writeField1 :: "'b Protocol \<Rightarrow> LaserResponse \<Rightarrow> 'b wr" where
  "LaserResponse_writeField1 pr p =
     (case lr_IntData p of None \<Rightarrow> wnil
      | Some v \<Rightarrow> write_field pr ''*laser.LaserResponse'' ''1:int_data'' ''int_data'' TI64 1
       (wprep ''*laser.LaserResponse.int_data (1) field write error: '' (WriteI64 pr v)))"

definition LaserResponse_writeField2 :: "'b Protocol \<Rightarrow> LaserResponse \<Rightarrow> 'b wr" where
  "LaserResponse_writeField2 pr p =
     (case lr_StringData p of None \<Rightarrow> wnil
      | Some v \<Rightarrow> write_field pr ''*laser.LaserResponse'' ''2:string_data'' ''string_data'' TSTRING 2
       (wprep ''*laser.LaserResponse.string_data (2) field write error: '' (WriteString pr v)))"

definition LaserResponse_writeField3 :: "'b Protocol \<Rightarrow> LaserResponse \<Rightarrow> 'b wr" where
  "LaserResponse_writeField3 pr p =
     (case lr_ListIntData p of None \<Rightarrow> wnil
      | Some v \<Rightarrow> write_field pr ''*laser.LaserResponse'' ''3:list_int_data'' ''list_int_data'' TLIST 3
       (write_list pr TI64 (\<lambda>x. wprep ''*laser.LaserResponse. (0) field write error: '' (WriteI64 pr x)) v))"

definition LaserResponse_writeField4 :: "'b Protocol \<Rightarrow> LaserResponse \<Rightarrow> 'b wr" where
  "LaserResponse_writeField4 pr p =
     (case lr_ListStringData p of None \<Rightarrow> wnil
      | Some v \<Rightarrow> write_field pr ''*laser.LaserResponse'' ''4:list_string_data'' ''list_string_data'' TLIST 4
       (write_list pr TSTRING (\<lambda>x. wprep ''*laser.LaserResponse. (0) field write error: '' (WriteString pr x)) v))"

definition LaserResponse_writeField5 :: "'b Protocol \<Rightarrow> (string list \<Rightarrow> string list) \<Rightarrow> LaserResponse \<Rightarrow> 'b wr" where
  "LaserResponse_writeField5 pr ko p =
     (case lr_ListValueData p of None \<Rightarrow> wnil
      | Some v \<Rightarrow> write_field pr ''*laser.LaserResponse'' ''5:list_value_data'' ''list_value_data'' TLIST 5
       (write_list pr TSTRUCT (\<lambda>x. wprep ''*laser.LaserValue error writing struct: '' (LaserValue_Write pr ko x)) v))"

definition LaserResponse_writeField6 :: "'b Protocol \<Rightarrow> (string list \<Rightarrow> string list) \<Rightarrow> LaserResponse \<Rightarrow> 'b wr" where
  "LaserResponse_writeField6 pr ko p =
     (case lr_MapStringData p of None \<Rightarrow> wnil
      | Some v \<Rightarrow> write_field pr ''*laser.LaserResponse'' ''6:map_string_data'' ''map_string_data'' TMAP 6
       (write_map pr ''*laser.LaserResponse'' ko TSTRING (\<lambda>x. wprep ''*laser.LaserResponse. (0) field write error: '' (WriteString pr x)) v))"

definition LaserResponse_writeField7 :: "'b Protocol \<Rightarrow> (string list \<Rightarrow> string list) \<Rightarrow> LaserResponse \<Rightarrow> 'b wr" where
  "LaserResponse_writeField7 pr ko p =
     (case lr_MapValueData p of None \<Rightarrow> wnil
      | Some v \<Rightarrow> write_field pr ''*laser.LaserResponse'' ''7:map_value_data'' ''map_value_data'' TMAP 7
       (write_map pr ''*laser.LaserResponse'' ko TSTRUCT (\<lambda>x. wprep ''*laser.LaserValue error writing struct: '' (LaserValue_Write pr ko x)) v))"

definition LaserResponse_writeField8 :: "'b Protocol \<Rightarrow> LaserResponse \<Rightarrow> 'b wr" where
  "LaserResponse_writeField8 pr p =
     (case lr_BoolData p of None \<Rightarrow> wnil
      | Some v \<Rightarrow> write_field pr ''*laser.LaserResponse'' ''8:bool_data'' ''bool_data'' TBOOL 8
       (wprep ''*laser.LaserResponse.bool_data (8) field write error: '' (WriteBool pr v)))"

definition LaserResponse_writeField9 :: "'b Protocol \<Rightarrow> LaserResponse \<Rightarrow> 'b wr" where
  "LaserResponse_writeField9 pr p =
     (case lr_ListScoreMemberData p of None \<Rightarrow> wnil
      | Some v \<Rightarrow> write_field pr ''*laser.LaserResponse'' ''9:list_score_member_data'' ''list_score_member_data'' TLIST 9
       (write_list pr TSTRUCT (\<lambda>x. wprep ''*laser.LaserScoreMember error writing struct: '' (LaserScoreMember_Write pr x)) v))"

definition LaserResponse_Write :: "'b Protocol \<Rightarrow> (string list \<Rightarrow> string list) \<Rightarrow> LaserResponse \<Rightarrow> 'b wr" where
  "LaserResponse_Write pr ko p =
     (if CountSetFieldsLaserResponse p \<noteq> 1
      then (\<lambda>_. Inl (WireError OtherError (''*laser.LaserResponse'' @ '' write union: exactly one field must be set ('' @
             Itoa (int (CountSetFieldsLaserResponse p)) @ '' set).'')))
      else write_struct pr ''*laser.LaserResponse'' ''LaserResponse''
       [LaserResponse_writeField1 pr p, LaserResponse_writeField2 pr p, LaserResponse_writeField3 pr p,
        LaserResponse_writeField4 pr p, LaserResponse_writeField5 pr ko p, LaserResponse_writeField6 pr ko p,
        LaserResponse_writeField7 pr ko p, LaserResponse_writeField8 pr p, LaserResponse_writeField9 pr p])"

section \<open>LaserException\<close>

definition NewLaserException :: LaserException where
  "NewLaserException = \<lparr>ex_Message = [], ex_Status = 0\<rparr>"

definition LaserException_ReadField1 :: "'b Protocol \<Rightarrow> LaserException \<Rightarrow> ('b, LaserException) rd" where
  "LaserException_ReadField1 pr p =
     rbind (rprep ''error reading field 1: '' (ReadString pr)) (\<lambda>v. rret (p\<lparr>ex_Message := v\<rparr>))"

definition LaserException_ReadField2 :: "'b Protocol \<Rightarrow> LaserException \<Rightarrow> ('b, LaserException) rd" where
  "LaserException_ReadField2 pr p =
     rbind (rprep ''error reading field 2: '' (ReadI32 pr)) (\<lambda>v. rret (p\<lparr>ex_Status := (scast v)\<rparr>))"

definition LaserException_switch :: "'b Protocol \<Rightarrow> ('b, LaserException) field_reader" where
  "LaserException_switch pr i =
     (if i = 1 then Some (LaserException_ReadField1 pr)
      else if i = 2 then Some (LaserException_ReadField2 pr)
      else None)"

definition LaserException_Read :: "'b Protocol \<Rightarrow> nat \<Rightarrow> LaserException \<Rightarrow> ('b, LaserException) rd" where
  "LaserException_Read pr fuel p =
     read_struct pr fuel ''*laser.LaserException'' (LaserException_switch pr)
       [(1, ''Message''), (2, ''Status'')] p"

definition LaserException_writeField1 :: "'b Protocol \<Rightarrow> LaserException \<Rightarrow> 'b wr" where
  "LaserException_writeField1 pr p =
     write_field pr ''*laser.LaserException'' ''1:message'' ''message'' TSTRING 1
       (wprep ''*laser.LaserException.message (1) field write error: '' (WriteString pr (ex_Message p)))"

definition LaserException_writeField2 :: "'b Protocol \<Rightarrow> LaserException \<Rightarrow> 'b wr" where
  "LaserException_writeField2 pr p =
     write_field pr ''*laser.LaserException'' ''2:status'' ''status'' TI32 2
       (wprep ''*laser.LaserException.status (2) field write error: '' (WriteI32 pr (scast (ex_Status p))))"

definition LaserException_Write :: "'b Protocol \<Rightarrow> LaserException \<Rightarrow> 'b wr" where
  "LaserException_Write pr p =
     write_struct pr ''*laser.LaserException'' ''LaserException''
       [LaserException_writeField1 pr p, LaserException_writeField2 pr p]"

section \<open>Round trips\<close>

text \<open>\<open>fields_back pr T sw R n p w q\<close>: what \<open>w\<close> writes, the fields left to write and the stop, the loop
  of \<open>Read\<close> takes from the structure \<open>p\<close> to \<open>q\<close> with a fuel of at least \<open>n\<close>, and the fields it sees
  are those in \<open>R\<close>.\<close>

definition fields_back ::
  "'b Protocol \<Rightarrow> string \<Rightarrow> ('b, 'p) field_reader \<Rightarrow> 16 word set \<Rightarrow> nat \<Rightarrow> 'p \<Rightarrow> 'b wr \<Rightarrow> 'p \<Rightarrow> bool" where
  "fields_back pr T sw R n p w q \<longleftrightarrow>
     (\<forall>k seen. n \<le> k \<longrightarrow>
       (\<exists>seen'. reads_back w (read_fields pr T sw k (p, seen)) (q, seen') \<and> set seen' = R \<union> set seen))"

lemma fields_back_stop:
  "faithful pr \<Longrightarrow> fields_back pr T sw {} 1 p (wprep m (WriteFieldStop pr)) p"
  unfolding fields_back_def by (intro allI impI exI conjI, rule read_fields_stop) auto

lemma fields_back_field:
  assumes "faithful pr" and "t \<noteq> TSTOP" and "sw i = Some f" and "reads_back body (f p) p'"
    and "fields_back pr T sw R n p' w q"
  shows "fields_back pr T sw (insert i R) (Suc n) p (wthen (write_field pr T' label name t i body) w) q"
  unfolding fields_back_def
proof (intro allI impI)
  fix k seen assume "Suc n \<le> k"
  then have "n \<le> k - 1" by simp
  with assms(5) obtain seen' where "reads_back w (read_fields pr T sw (k - 1) (p', i # seen)) (q, seen')"
    and "set seen' = R \<union> set (i # seen)"
    unfolding fields_back_def by blast
  with \<open>Suc n \<le> k\<close> assms(1-4)
  show "\<exists>seen'. reads_back (wthen (write_field pr T' label name t i body) w)
      (read_fields pr T sw k (p, seen)) (q, seen') \<and> set seen' = insert i R \<union> set seen"
    by (intro exI [of _ seen'] conjI read_fields_field) auto
qed

lemma struct_back:
  assumes "faithful pr"
    and "\<And>m. fields_back pr T sw R n p (wthen (weach id ws) (wprep m (WriteFieldStop pr))) q"
    and "fst ` set req \<subseteq> R" and "n \<le> fuel"
  shows "reads_back (write_struct pr T' name ws) (read_struct pr fuel T sw req p) q"
proof -
  obtain seen where "reads_back (wthen (weach id ws) (wprep ''write field stop error: '' (WriteFieldStop pr)))
      (read_fields pr T sw fuel (p, [])) (q, seen)" and "set seen = R"
    using assms(2) [of "''write field stop error: ''"] assms(4) unfolding fields_back_def by fastforce
  with assms(1,3) show ?thesis by (intro read_struct_back) auto
qed

lemma fields_back_stop_eq:
  "faithful pr \<Longrightarrow> p = q \<Longrightarrow> fields_back pr T sw {} (Suc 0) p (wprep m (WriteFieldStop pr)) q"
  using fields_back_stop [of pr T sw p m] by simp

lemma scalar_back:
  assumes "reads_back w r v"
  shows "reads_back (wprep m w) (rbind (rprep m' r) (\<lambda>v. rret (f v))) (f v)"
  using assms by (intro reads_back_map [where x = v] reads_back_prep) simp_all

lemma value_back:
  assumes "reads_back w r v"
  shows "reads_back w (rbind r (\<lambda>v. rret (f v))) (f v)"
  using assms by (intro reads_back_map [where x = v]) simp_all

lemmas string_back = scalar_back [OF faithfulD(11)]
lemmas i64_back = scalar_back [OF faithfulD(10)]
lemmas i32_back = scalar_back [OF faithfulD(9)]
lemmas bool_back = scalar_back [OF faithfulD(8)]

lemma list_back:
  assumes "faithful pr" and "\<And>x. x \<in> set xs \<Longrightarrow> reads_back (elem x) r (g x)"
  shows "reads_back (write_list pr t (\<lambda>x. wprep m (elem x)) xs)
    (rbind (read_list pr (rprep m' r)) (\<lambda>v. rret (f v))) (f (map g xs))"
  using assms by (intro value_back read_list_back reads_back_prep)

lemma string_list_back:
  assumes "faithful pr"
  shows "reads_back (write_list pr t (\<lambda>x. wprep m (WriteString pr x)) xs)
    (rbind (read_list pr (rprep m' (ReadString pr))) (\<lambda>v. rret (f v))) (f xs)"
  using list_back [OF assms, of xs "WriteString pr" "ReadString pr" "\<lambda>x. x"] faithfulD [OF assms] by simp

lemmas field_back = string_back i64_back i32_back bool_back string_list_back

subsection \<open>Structures of required fields\<close>

named_theorems wire_defs \<open>the fields of the structures, and how their sequence is written\<close>

declare weach.simps [wire_defs] wthen_assoc [wire_defs] id_apply [wire_defs] wthen_nil [wire_defs]

declare LaserKey_switch_def [abs_def, wire_defs]
  LaserKey_ReadField1_def [wire_defs] LaserKey_ReadField2_def [wire_defs]
  LaserKey_ReadField3_def [wire_defs] LaserKey_ReadField4_def [wire_defs]
  LaserKey_writeField1_def [wire_defs] LaserKey_writeField2_def [wire_defs]
  LaserKey_writeField3_def [wire_defs] LaserKey_writeField4_def [wire_defs]

lemma LaserKey_back:
  assumes "faithful pr" and "5 \<le> fuel"
  shows "reads_back (LaserKey_Write pr p) (LaserKey_Read pr fuel NewLaserKey) p"
  unfolding LaserKey_Write_def LaserKey_Read_def
  by (rule struct_back [OF assms(1), where R = "{1, 2, 3, 4}" and n = "Suc (Suc (Suc (Suc (Suc 0))))"], unfold wire_defs)
    ((rule fields_back_field [OF assms(1)], simp, simp, rule field_back [OF assms(1)])+,
     use assms in \<open>auto simp: NewLaserKey_def intro!: fields_back_stop_eq\<close>)

lemma LaserKeys_back:
  assumes "faithful pr" and "5 \<le> fuel"
  shows "reads_back (LaserKeys_Write pr p) (LaserKeys_Read pr fuel NewLaserKeys) p"
proof -
  have "reads_back (write_list pr TSTRUCT (\<lambda>x. wprep m (LaserKey_Write pr x)) xs)
      (rbind (read_list pr (rprep m' (LaserKey_Read pr fuel NewLaserKey))) (\<lambda>v. rret (f v))) (f xs)" for m m' f xs
    using list_back [OF assms(1), of xs "LaserKey_Write pr" "LaserKey_Read pr fuel NewLaserKey" "\<lambda>x. x"]
      LaserKey_back [OF assms] by simp
  note keys_back = this
  show ?thesis
    unfolding LaserKeys_Write_def LaserKeys_Read_def
    by (rule struct_back [OF assms(1), where R = "{1}" and n = "Suc (Suc 0)"], unfold wire_defs LaserKeys_switch_def [abs_def]
          LaserKeys_ReadField1_def LaserKeys_writeField1_def)
      ((rule fields_back_field [OF assms(1)], simp, simp, rule keys_back)+,
       use assms in \<open>auto simp: NewLaserKeys_def intro!: fields_back_stop_eq\<close>)
qed

text \<open>A status is written as 32 bits.\<close>

definition fits32 :: "Status \<Rightarrow> bool" where
  "fits32 s \<longleftrightarrow> scast (scast s :: int32) = s"

declare EntryValue_switch_def [abs_def, wire_defs]
  EntryValue_ReadField1_def [wire_defs] EntryValue_ReadField2_def [wire_defs]
  EntryValue_writeField1_def [wire_defs] EntryValue_writeField2_def [wire_defs]

lemma EntryValue_back:
  assumes "faithful pr" and "3 \<le> fuel"
  shows "reads_back (EntryValue_Write pr p) (EntryValue_Read pr fuel NewEntryValue)
    (p\<lparr>ev_Status := scast (scast (ev_Status p) :: int32)\<rparr>)"
  unfolding EntryValue_Write_def EntryValue_Read_def
  by (rule struct_back [OF assms(1), where R = "{1, 2}" and n = "Suc (Suc (Suc 0))"], unfold wire_defs)
    ((rule fields_back_field [OF assms(1)], simp, simp, rule field_back [OF assms(1)])+,
     use assms in \<open>auto simp: NewEntryValue_def intro!: fields_back_stop_eq\<close>)

declare LaserException_switch_def [abs_def, wire_defs]
  LaserException_ReadField1_def [wire_defs] LaserException_ReadField2_def [wire_defs]
  LaserException_writeField1_def [wire_defs] LaserException_writeField2_def [wire_defs]

lemma LaserException_back:
  assumes "faithful pr" and "3 \<le> fuel"
  shows "reads_back (LaserException_Write pr p) (LaserException_Read pr fuel NewLaserException)
    (p\<lparr>ex_Status := scast (scast (ex_Status p) :: int32)\<rparr>)"
  unfolding LaserException_Write_def LaserException_Read_def
  by (rule struct_back [OF assms(1), where R = "{1, 2}" and n = "Suc (Suc (Suc 0))"], unfold wire_defs)
    ((rule fields_back_field [OF assms(1)], simp, simp, rule field_back [OF assms(1)])+,
     use assms in \<open>auto simp: NewLaserException_def intro!: fields_back_stop_eq\<close>)

declare LaserSetOption_switch_def [abs_def, wire_defs]
  LaserSetOption_ReadField1_def [wire_defs] LaserSetOption_ReadField2_def [wire_defs]
  LaserSetOption_writeField1_def [wire_defs] LaserSetOption_writeField2_def [wire_defs]

lemma LaserSetOption_back:
  assumes "faithful pr" and "3 \<le> fuel"
  shows "reads_back (LaserSetOption_Write pr p) (LaserSetOption_Read pr fuel NewLaserSetOption) p"
  unfolding LaserSetOption_Write_def LaserSetOption_Read_def
  by (rule struct_back [OF assms(1), where R = "{1, 2}" and n = "Suc (Suc (Suc 0))"], unfold wire_defs)
    ((rule fields_back_field [OF assms(1)], simp, simp, rule field_back [OF assms(1)])+,
     use assms in \<open>auto simp: NewLaserSetOption_def intro!: fields_back_stop_eq\<close>)

declare LaserScoreMember_switch_def [abs_def, wire_defs]
  LaserScoreMember_ReadField1_def [wire_defs] LaserScoreMember_ReadField2_def [wire_defs]
  LaserScoreMember_writeField1_def [wire_defs] LaserScoreMember_writeField2_def [wire_defs]

lemma LaserScoreMember_back:
  assumes "faithful pr" and "3 \<le> fuel"
  shows "reads_back (LaserScoreMember_Write pr p) (LaserScoreMember_Read pr fuel NewLaserScoreMember) p"
  unfolding LaserScoreMember_Write_def LaserScoreMember_Read_def
  by (rule struct_back [OF assms(1), where R = "{1, 2}" and n = "Suc (Suc (Suc 0))"], unfold wire_defs)
    ((rule fields_back_field [OF assms(1)], simp, simp, rule field_back [OF assms(1)])+,
     use assms in \<open>auto simp: NewLaserScoreMember_def intro!: fields_back_stop_eq\<close>)

subsection \<open>Unions\<close>

lemma reads_back_never: "(\<And>out. \<exists>e. w out = Inl e) \<Longrightarrow> reads_back w r v"
  unfolding reads_back_def by (metis Inl_Inr_False)

lemma LaserValue_cases:
  assumes "CountSetFieldsLaserValue q = 1"
  obtains v where "q = NewLaserValue\<lparr>lv_StringValue := Some v\<rparr>"
    | v where "q = NewLaserValue\<lparr>lv_MapValue := Some v\<rparr>"
    | v where "q = NewLaserValue\<lparr>lv_NullValue := Some v\<rparr>"
    | v where "q = NewLaserValue\<lparr>lv_MemberScoreValue := Some v\<rparr>"
    | v where "q = NewLaserValue\<lparr>lv_EntryValue := Some v\<rparr>"
proof (cases q)
  case (fields a b c d e)
  with assms show thesis
    by (cases a; cases b; cases c; cases d; cases e)
      (auto simp: CountSetFieldsLaserValue_def NewLaserValue_def intro: that)
qed

lemma LaserResponse_cases:
  assumes "CountSetFieldsLaserResponse q = 1"
  obtains v where "q = NewLaserResponse\<lparr>lr_IntData := Some v\<rparr>"
    | v where "q = NewLaserResponse\<lparr>lr_StringData := Some v\<rparr>"
    | v where "q = NewLaserResponse\<lparr>lr_ListIntData := Some v\<rparr>"
    | v where "q = NewLaserResponse\<lparr>lr_ListStringData := Some v\<rparr>"
    | v where "q = NewLaserResponse\<lparr>lr_ListValueData := Some v\<rparr>"
    | v where "q = NewLaserResponse\<lparr>lr_MapStringData := Some v\<rparr>"
    | v where "q = NewLaserResponse\<lparr>lr_MapValueData := Some v\<rparr>"
    | v where "q = NewLaserResponse\<lparr>lr_BoolData := Some v\<rparr>"
    | v where "q = NewLaserResponse\<lparr>lr_ListScoreMemberData := Some v\<rparr>"
proof (cases q)
  case (fields a b c d e f g h i)
  with assms show thesis
    by (cases a; cases b; cases c; cases d; cases e; cases f; cases g; cases h; cases i)
      (auto simp: CountSetFieldsLaserResponse_def NewLaserResponse_def intro: that)
qed

text \<open>What arrives of a value: its maps in the order in which they were written, its status cut to 32 bits.\<close>

definition sent_EntryValue :: "EntryValue \<Rightarrow> EntryValue" where
  "sent_EntryValue e = e\<lparr>ev_Status := scast (scast (ev_Status e) :: int32)\<rparr>"

definition sent_LaserValue :: "(string list \<Rightarrow> string list) \<Rightarrow> LaserValue \<Rightarrow> LaserValue" where
  "sent_LaserValue ko v = v\<lparr>lv_MapValue := map_option (ranged ko) (lv_MapValue v),
     lv_MemberScoreValue := map_option (ranged ko) (lv_MemberScoreValue v),
     lv_EntryValue := map_option sent_EntryValue (lv_EntryValue v)\<rparr>"

text \<open>A Go map has each key once.\<close>

definition maps_ok_LaserValue :: "LaserValue \<Rightarrow> bool" where
  "maps_ok_LaserValue v \<longleftrightarrow>
     pred_option (\<lambda>m. distinct (map fst m)) (lv_MapValue v) \<and>
     pred_option (\<lambda>m. distinct (map fst m)) (lv_MemberScoreValue v)"

lemma one_field_back:
  assumes "faithful pr" and "t \<noteq> TSTOP" and "sw i = Some f" and "reads_back body (f p) q" and "2 \<le> fuel"
    and "\<And>m. wthen (weach id ws) (wprep m (WriteFieldStop pr)) =
       wthen (write_field pr T'' label fname t i body) (wprep m (WriteFieldStop pr))"
  shows "reads_back (write_struct pr T' name ws) (read_struct pr fuel T sw [] p) q"
proof (rule struct_back [OF assms(1)])
  show "fields_back pr T sw {i} (Suc (Suc 0)) p (wthen (weach id ws) (wprep m (WriteFieldStop pr))) q" for m
    unfolding assms(6) using assms(1-4) by (intro fields_back_field fields_back_stop_eq) auto
qed (use assms(5) in auto)

lemma value_back_eq:
  assumes "reads_back w r x" and "y = f x"
  shows "reads_back w (rbind r (\<lambda>v. rret (f v))) y"
  using value_back [OF assms(1)] assms(2) by simp

lemma LaserValue_back:
  assumes pr: "faithful pr" and ko: "is_order ko" and q: "maps_ok_LaserValue q" and fuel: "3 \<le> fuel"
  shows "reads_back (LaserValue_Write pr ko q) (LaserValue_Read pr fuel NewLaserValue) (sent_LaserValue ko q)"
proof (cases "CountSetFieldsLaserValue q = 1")
  case False
  then show ?thesis by (intro reads_back_never) (simp add: LaserValue_Write_def)
next
  case True
  note backs = value_back_eq reads_back_prep faithfulD [OF pr] EntryValue_back [OF pr fuel, folded sent_EntryValue_def]
    read_map_back [OF pr ko, where g = "\<lambda>v. v"]
  note defs = LaserValue_switch_def LaserValue_ReadField1_def LaserValue_ReadField2_def LaserValue_ReadField3_def
    LaserValue_ReadField4_def LaserValue_ReadField5_def LaserValue_writeField1_def LaserValue_writeField2_def
    LaserValue_writeField3_def LaserValue_writeField4_def LaserValue_writeField5_def
    NewLaserValue_def sent_LaserValue_def
  from True have w: "LaserValue_Write pr ko q = write_struct pr ''*laser.LaserValue'' ''LaserValue''
    [LaserValue_writeField1 pr q, LaserValue_writeField2 pr ko q, LaserValue_writeField3 pr q,
     LaserValue_writeField4 pr ko q, LaserValue_writeField5 pr q]"
    by (simp add: LaserValue_Write_def)
  show ?thesis
    using True
  proof (cases rule: LaserValue_cases)
    case (1 v)
    show ?thesis unfolding w LaserValue_Read_def
      by (rule one_field_back [OF pr, where i = 1 and t = TSTRING])
        (use fuel ko q in \<open>auto simp: 1 defs maps_ok_LaserValue_def intro!: backs\<close>)
  next
    case (2 v)
    show ?thesis unfolding w LaserValue_Read_def
      by (rule one_field_back [OF pr, where i = 2 and t = TMAP])
        (use fuel ko q in \<open>auto simp: 2 defs maps_ok_LaserValue_def intro!: backs\<close>)
  next
    case (3 v)
    show ?thesis unfolding w LaserValue_Read_def
      by (rule one_field_back [OF pr, where i = 3 and t = TBOOL])
        (use fuel ko q in \<open>auto simp: 3 defs maps_ok_LaserValue_def intro!: backs\<close>)
  next
    case (4 v)
    show ?thesis unfolding w LaserValue_Read_def
      by (rule one_field_back [OF pr, where i = 4 and t = TMAP])
        (use fuel ko q in \<open>auto simp: 4 defs maps_ok_LaserValue_def intro!: backs\<close>)
  next
    case (5 v)
    show ?thesis unfolding w LaserValue_Read_def
      by (rule one_field_back [OF pr, where i = 5 and t = TSTRUCT])
        (use fuel ko q in \<open>auto simp: 5 defs maps_ok_LaserValue_def intro!: backs\<close>)
  qed
qed

definition sent_LaserResponse :: "(string list \<Rightarrow> string list) \<Rightarrow> LaserResponse \<Rightarrow> LaserResponse" where
  "sent_LaserResponse ko r = r\<lparr>lr_ListValueData := map_option (map (sent_LaserValue ko)) (lr_ListValueData r),
     lr_MapStringData := map_option (ranged ko) (lr_MapStringData r),
     lr_MapValueData := map_option (\<lambda>m. map (\<lambda>(k, v). (k, sent_LaserValue ko v)) (ranged ko m)) (lr_MapValueData r)\<rparr>"

definition maps_ok_LaserResponse :: "LaserResponse \<Rightarrow> bool" where
  "maps_ok_LaserResponse r \<longleftrightarrow>
     pred_option (list_all maps_ok_LaserValue) (lr_ListValueData r) \<and>
     pred_option (\<lambda>m. distinct (map fst m)) (lr_MapStringData r) \<and>
     pred_option (\<lambda>m. distinct (map fst m) \<and> list_all (\<lambda>kv. maps_ok_LaserValue (snd kv)) m) (lr_MapValueData r)"

lemma LaserValue_list_back:
  assumes "faithful pr" and "is_order ko" and "3 \<le> fuel" and "\<forall>v\<in>set vs. maps_ok_LaserValue v"
  shows "reads_back (write_list pr t (\<lambda>x. wprep m (LaserValue_Write pr ko x)) vs)
    (read_list pr (rprep m' (LaserValue_Read pr fuel NewLaserValue))) (map (sent_LaserValue ko) vs)"
  using assms by (intro read_list_back reads_back_prep LaserValue_back) auto

lemma LaserValue_map_back:
  assumes "faithful pr" and "is_order ko" and "3 \<le> fuel"
    and "distinct (map fst vs)" and "\<forall>kv\<in>set vs. maps_ok_LaserValue (snd kv)"
  shows "reads_back (write_map pr T ko t (\<lambda>x. wprep m (LaserValue_Write pr ko x)) vs)
    (read_map pr (rprep m' (LaserValue_Read pr fuel NewLaserValue)))
    (map (\<lambda>(k, v). (k, sent_LaserValue ko v)) (ranged ko vs))"
  using assms by (intro read_map_back reads_back_prep LaserValue_back) auto

lemma LaserResponse_back:
  assumes pr: "faithful pr" and ko: "is_order ko" and q: "maps_ok_LaserResponse q" and fuel: "3 \<le> fuel"
  shows "reads_back (LaserResponse_Write pr ko q) (LaserResponse_Read pr fuel NewLaserResponse) (sent_LaserResponse ko q)"
proof (cases "CountSetFieldsLaserResponse q = 1")
  case False
  then show ?thesis by (intro reads_back_never) (simp add: LaserResponse_Write_def)
next
  case True
  note backs = value_back_eq reads_back_prep faithfulD [OF pr] LaserScoreMember_back [OF pr fuel]
  note lists = read_list_back [OF pr, where g = "\<lambda>v. v"] read_map_back [OF pr ko, where g = "\<lambda>v. v"]
  note vals = LaserValue_list_back [OF pr ko fuel] and value_map = LaserValue_map_back [OF pr ko fuel]
  note reads = LaserResponse_switch_def LaserResponse_ReadField1_def LaserResponse_ReadField2_def
    LaserResponse_ReadField3_def LaserResponse_ReadField4_def LaserResponse_ReadField5_def
    LaserResponse_ReadField6_def LaserResponse_ReadField7_def LaserResponse_ReadField8_def LaserResponse_ReadField9_def
  note writes = LaserResponse_writeField1_def LaserResponse_writeField2_def LaserResponse_writeField3_def
    LaserResponse_writeField4_def LaserResponse_writeField5_def LaserResponse_writeField6_def
    LaserResponse_writeField7_def LaserResponse_writeField8_def LaserResponse_writeField9_def
  note defs = reads writes NewLaserResponse_def sent_LaserResponse_def maps_ok_LaserResponse_def list_all_iff
  from True have w: "LaserResponse_Write pr ko q = write_struct pr ''*laser.LaserResponse'' ''LaserResponse''
    [LaserResponse_writeField1 pr q, LaserResponse_writeField2 pr q, LaserResponse_writeField3 pr q,
     LaserResponse_writeField4 pr q, LaserResponse_writeField5 pr ko q, LaserResponse_writeField6 pr ko q,
     LaserResponse_writeField7 pr ko q, LaserResponse_writeField8 pr q, LaserResponse_writeField9 pr q]"
    by (simp add: LaserResponse_Write_def)
  show ?thesis
    using True
  proof (cases rule: LaserResponse_cases)
    case (1 v)
    show ?thesis unfolding w LaserResponse_Read_def
      by (rule one_field_back [OF pr, where i = 1 and t = TI64])
        (use fuel q in \<open>auto simp: 1 defs intro!: backs\<close>)
  next
    case (2 v)
    show ?thesis unfolding w LaserResponse_Read_def
      by (rule one_field_back [OF pr, where i = 2 and t = TSTRING])
        (use fuel q in \<open>auto simp: 2 defs intro!: backs\<close>)
  next
    case (3 v)
    show ?thesis unfolding w LaserResponse_Read_def
      by (rule one_field_back [OF pr, where i = 3 and t = TLIST])
        (use fuel q in \<open>auto simp: 3 defs intro!: backs lists(1)\<close>)
  next
    case (4 v)
    show ?thesis unfolding w LaserResponse_Read_def
      by (rule one_field_back [OF pr, where i = 4 and t = TLIST])
        (use fuel q in \<open>auto simp: 4 defs intro!: backs lists(1)\<close>)
  next
    case (5 v)
    show ?thesis unfolding w LaserResponse_Read_def
      by (rule one_field_back [OF pr, where i = 5 and t = TLIST])
        (use fuel q in \<open>auto simp: 5 defs intro!: value_back_eq [OF vals]\<close>)
  next
    case (6 v)
    show ?thesis unfolding w LaserResponse_Read_def
      by (rule one_field_back [OF pr, where i = 6 and t = TMAP])
        (use fuel q in \<open>auto simp: 6 defs intro!: backs lists(2)\<close>)
  next
    case (7 v)
    show ?thesis unfolding w LaserResponse_Read_def
      by (rule one_field_back [OF pr, where i = 7 and t = TMAP])
        (use fuel q in \<open>auto simp: 7 defs intro!: value_back_eq [OF value_map]\<close>)
  next
    case (8 v)
    show ?thesis unfolding w LaserResponse_Read_def
      by (rule one_field_back [OF pr, where i = 8 and t = TBOOL])
        (use fuel q in \<open>auto simp: 8 defs intro!: backs\<close>)
  next
    case (9 v)
    show ?thesis unfolding w LaserResponse_Read_def
      by (rule one_field_back [OF pr, where i = 9 and t = TLIST])
        (use fuel q in \<open>auto simp: 9 defs intro!: backs lists(1)\<close>)
  qed
qed

subsection \<open>Pairs\<close>

definition sent_LaserKV :: "(string list \<Rightarrow> string list) \<Rightarrow> LaserKV \<Rightarrow> LaserKV" where
  "sent_LaserKV ko p = p\<lparr>kv_Value := map_option (sent_LaserValue ko) (kv_Value p)\<rparr>"

definition maps_ok_LaserKV :: "LaserKV \<Rightarrow> bool" where
  "maps_ok_LaserKV p \<longleftrightarrow> pred_option maps_ok_LaserValue (kv_Value p)"

text \<open>A pair with a nil pointer cannot be written: the writer panics.\<close>

lemma kv_key_back:
  assumes "faithful pr" and "5 \<le> fuel"
  shows "reads_back (wprep m (case k of Some v \<Rightarrow> LaserKey_Write pr v | None \<Rightarrow> LaserKey_Write_nil pr))
    (rbind (rprep m' (LaserKey_Read pr fuel NewLaserKey)) (\<lambda>v. rret (p\<lparr>kv_Key := Some v\<rparr>))) (p\<lparr>kv_Key := k\<rparr>)"
proof (cases k)
  case None
  have "\<exists>e. wprep m (LaserKey_Write_nil pr) out = Inl e" for out
    by (simp add: LaserKey_Write_nil_def wthen_def wprep_def split: sum.split)
  with None show ?thesis by (simp add: reads_back_never)
next
  case (Some v)
  then show ?thesis by (simp add: value_back_eq [OF reads_back_prep [OF LaserKey_back [OF assms]]])
qed

lemma kv_value_back:
  assumes "faithful pr" and "is_order ko" and "pred_option maps_ok_LaserValue x" and "5 \<le> fuel"
  shows "reads_back (wprep m (case x of Some v \<Rightarrow> LaserValue_Write pr ko v | None \<Rightarrow> LaserValue_Write_nil))
    (rbind (rprep m' (LaserValue_Read pr fuel NewLaserValue)) (\<lambda>v. rret (p\<lparr>kv_Value := Some v\<rparr>)))
    (p\<lparr>kv_Value := map_option (sent_LaserValue ko) x\<rparr>)"
proof (cases x)
  case None
  then show ?thesis by (intro reads_back_never) (simp add: LaserValue_Write_nil_def wprep_def)
next
  case (Some v)
  moreover have "reads_back (LaserValue_Write pr ko v) (LaserValue_Read pr fuel NewLaserValue) (sent_LaserValue ko v)"
    using assms Some by (intro LaserValue_back) auto
  ultimately show ?thesis by (simp add: value_back_eq [OF reads_back_prep])
qed

lemma LaserKV_back:
  assumes pr: "faithful pr" and ko: "is_order ko" and q: "maps_ok_LaserKV q" and fuel: "5 \<le> fuel"
  shows "reads_back (LaserKV_Write pr ko q) (LaserKV_Read pr fuel NewLaserKV) (sent_LaserKV ko q)"
  unfolding LaserKV_Write_def LaserKV_Read_def
  by (rule struct_back [OF pr, where R = "{1, 2}" and n = "Suc (Suc (Suc 0))"], unfold wire_defs LaserKV_switch_def [abs_def]
        LaserKV_ReadField1_def LaserKV_ReadField2_def LaserKV_writeField1_def LaserKV_writeField2_def)
    (rule fields_back_field [OF pr], simp, simp, rule kv_key_back [OF pr fuel],
     rule fields_back_field [OF pr], simp, simp, rule kv_value_back [OF pr ko q [unfolded maps_ok_LaserKV_def] fuel],
     use fuel pr in \<open>auto simp: NewLaserKV_def sent_LaserKV_def intro!: fields_back_stop_eq\<close>)

definition sent_LaserKVs :: "(string list \<Rightarrow> string list) \<Rightarrow> LaserKVs \<Rightarrow> LaserKVs" where
  "sent_LaserKVs ko p = p\<lparr>kvs_Values := map (sent_LaserKV ko) (kvs_Values p)\<rparr>"

lemma LaserKVs_back:
  assumes pr: "faithful pr" and ko: "is_order ko" and q: "list_all maps_ok_LaserKV (kvs_Values q)" and fuel: "5 \<le> fuel"
  shows "reads_back (LaserKVs_Write pr ko q) (LaserKVs_Read pr fuel NewLaserKVs) (sent_LaserKVs ko q)"
proof -
  have "reads_back (write_list pr TSTRUCT (\<lambda>x. wprep m (LaserKV_Write pr ko x)) (kvs_Values q))
      (rbind (read_list pr (rprep m' (LaserKV_Read pr fuel NewLaserKV))) (\<lambda>v. rret (p\<lparr>kvs_Values := v\<rparr>)))
      (p\<lparr>kvs_Values := map (sent_LaserKV ko) (kvs_Values q)\<rparr>)" for m m' p
    using q by (intro list_back [OF pr] LaserKV_back [OF pr ko _ fuel]) (simp add: list_all_iff)
  note pairs_back = this
  show ?thesis
    unfolding LaserKVs_Write_def LaserKVs_Read_def
    by (rule struct_back [OF pr, where R = "{1}" and n = "Suc (Suc 0)"], unfold wire_defs LaserKVs_switch_def [abs_def]
          LaserKVs_ReadField1_def LaserKVs_writeField1_def)
      (rule fields_back_field [OF pr], simp, simp, rule pairs_back,
       use fuel pr in \<open>auto simp: NewLaserKVs_def sent_LaserKVs_def intro!: fields_back_stop_eq\<close>)
qed

subsection \<open>What the receiver sees\<close>

text \<open>Two values are the same for their reader if their maps hold the same entries.\<close>

definition same_map :: "('a \<Rightarrow> 'a \<Rightarrow> bool) \<Rightarrow> (string, 'a) gomap \<Rightarrow> (string, 'a) gomap \<Rightarrow> bool" where
  "same_map eq m m' \<longleftrightarrow> (\<forall>k. rel_option eq (map_of m k) (map_of m' k))"

definition same_LaserValue :: "LaserValue \<Rightarrow> LaserValue \<Rightarrow> bool" where
  "same_LaserValue v v' \<longleftrightarrow>
     lv_StringValue v = lv_StringValue v' \<and> lv_NullValue v = lv_NullValue v' \<and> lv_EntryValue v = lv_EntryValue v' \<and>
     rel_option (same_map (=)) (lv_MapValue v) (lv_MapValue v') \<and>
     rel_option (same_map (=)) (lv_MemberScoreValue v) (lv_MemberScoreValue v')"

definition same_LaserResponse :: "LaserResponse \<Rightarrow> LaserResponse \<Rightarrow> bool" where
  "same_LaserResponse r r' \<longleftrightarrow>
     lr_IntData r = lr_IntData r' \<and> lr_StringData r = lr_StringData r' \<and> lr_ListIntData r = lr_ListIntData r' \<and>
     lr_ListStringData r = lr_ListStringData r' \<and> lr_BoolData r = lr_BoolData r' \<and>
     lr_ListScoreMemberData r = lr_ListScoreMemberData r' \<and>
     rel_option (list_all2 same_LaserValue) (lr_ListValueData r) (lr_ListValueData r') \<and>
     rel_option (same_map (=)) (lr_MapStringData r) (lr_MapStringData r') \<and>
     rel_option (same_map same_LaserValue) (lr_MapValueData r) (lr_MapValueData r')"

definition same_LaserKV :: "LaserKV \<Rightarrow> LaserKV \<Rightarrow> bool" where
  "same_LaserKV p p' \<longleftrightarrow> kv_Key p = kv_Key p' \<and> rel_option same_LaserValue (kv_Value p) (kv_Value p')"

text \<open>The values the code handles: each key of a map once, and statuses of 32 bits.\<close>

definition wf_LaserValue :: "LaserValue \<Rightarrow> bool" where
  "wf_LaserValue v \<longleftrightarrow> maps_ok_LaserValue v \<and> pred_option (\<lambda>e. fits32 (ev_Status e)) (lv_EntryValue v)"

definition wf_LaserResponse :: "LaserResponse \<Rightarrow> bool" where
  "wf_LaserResponse r \<longleftrightarrow>
     pred_option (list_all wf_LaserValue) (lr_ListValueData r) \<and>
     pred_option (\<lambda>m. distinct (map fst m)) (lr_MapStringData r) \<and>
     pred_option (\<lambda>m. distinct (map fst m) \<and> list_all (\<lambda>kv. wf_LaserValue (snd kv)) m) (lr_MapValueData r)"

lemma same_map_ranged: "is_order ko \<Longrightarrow> same_map (=) m (ranged ko m)"
  by (simp add: same_map_def map_of_ranged option.rel_eq)

lemma rel_option_map: "(\<And>v. x = Some v \<Longrightarrow> R v (f v)) \<Longrightarrow> rel_option R x (map_option f x)"
  by (cases x) simp_all

lemma same_sent_LaserValue:
  assumes "is_order ko" and "wf_LaserValue v"
  shows "same_LaserValue v (sent_LaserValue ko v)"
proof -
  have "lv_EntryValue v = map_option sent_EntryValue (lv_EntryValue v)"
    using assms(2) by (cases "lv_EntryValue v") (auto simp: wf_LaserValue_def fits32_def sent_EntryValue_def)
  then show ?thesis
    using assms(1) by (auto simp: same_LaserValue_def sent_LaserValue_def intro!: rel_option_map same_map_ranged)
qed

lemma same_sent_map:
  assumes "is_order ko" and "\<forall>kv\<in>set m. wf_LaserValue (snd kv)"
  shows "same_map same_LaserValue m (map (\<lambda>(k, v). (k, sent_LaserValue ko v)) (ranged ko m))"
proof -
  have "map_of (map (\<lambda>(k, v). (k, sent_LaserValue ko v)) (ranged ko m)) k = map_option (sent_LaserValue ko) (map_of m k)" for k
    by (simp add: map_of_map map_of_ranged [OF assms(1)])
  then show ?thesis
    using assms(2) unfolding same_map_def
    by (fastforce intro!: rel_option_map same_sent_LaserValue [OF assms(1)] dest!: map_of_SomeD)
qed

lemma same_sent_LaserResponse:
  assumes "is_order ko" and "wf_LaserResponse r"
  shows "same_LaserResponse r (sent_LaserResponse ko r)"
proof -
  have "rel_option (list_all2 same_LaserValue) (lr_ListValueData r) (lr_ListValueData (sent_LaserResponse ko r))"
    using assms by (auto simp: wf_LaserResponse_def sent_LaserResponse_def list_all_iff list_all2_conv_all_nth
        intro!: rel_option_map same_sent_LaserValue)
  moreover have "rel_option (same_map same_LaserValue) (lr_MapValueData r) (lr_MapValueData (sent_LaserResponse ko r))"
    using assms by (fastforce simp: wf_LaserResponse_def sent_LaserResponse_def list_all_iff intro!: rel_option_map same_sent_map)
  ultimately show ?thesis
    using assms(1) by (auto simp: same_LaserResponse_def sent_LaserResponse_def intro!: rel_option_map same_map_ranged)
qed

lemma wf_maps_ok: "wf_LaserResponse r \<Longrightarrow> maps_ok_LaserResponse r"
  by (auto simp: wf_LaserResponse_def maps_ok_LaserResponse_def wf_LaserValue_def list_all_iff pred_option_def)

section \<open>Messages of other writers\<close>

text \<open>A key as another version of the interface may write it: known fields in any order, or left out,
  and fields with an id this version does not know, whose values the protocol can skip.\<close>

datatype 'b message_field = Known "16 word" | Unknown string ttype "16 word" "'b wr"

definition key_field :: "'b Protocol \<Rightarrow> LaserKey \<Rightarrow> 16 word \<Rightarrow> 'b wr" where
  "key_field pr p i =
     (if i = 1 then LaserKey_writeField1 pr p else if i = 2 then LaserKey_writeField2 pr p
      else if i = 3 then LaserKey_writeField3 pr p else LaserKey_writeField4 pr p)"

fun write_message_field :: "'b Protocol \<Rightarrow> LaserKey \<Rightarrow> 'b message_field \<Rightarrow> 'b wr" where
  "write_message_field pr p (Known i) = key_field pr p i"
| "write_message_field pr p (Unknown name t i body) = write_field pr ''*laser.LaserKey'' name name t i body"

fun message_field_ok :: "'b Protocol \<Rightarrow> 'b message_field \<Rightarrow> bool" where
  "message_field_ok pr (Known i) \<longleftrightarrow> i \<in> {1, 2, 3, 4}"
| "message_field_ok pr (Unknown name t i body) \<longleftrightarrow>
     i \<notin> {1, 2, 3, 4} \<and> t \<noteq> TSTOP \<and> reads_back body (Skip pr t) ()"

fun known_ids :: "'b message_field list \<Rightarrow> 16 word list" where
  "known_ids [] = []"
| "known_ids (Known i # fs) = i # known_ids fs"
| "known_ids (Unknown name t i body # fs) = known_ids fs"

definition copy_field :: "LaserKey \<Rightarrow> 16 word \<Rightarrow> LaserKey \<Rightarrow> LaserKey" where
  "copy_field p i q =
     (if i = 1 then q\<lparr>lk_DatabaseName := lk_DatabaseName p\<rparr> else if i = 2 then q\<lparr>lk_TableName := lk_TableName p\<rparr>
      else if i = 3 then q\<lparr>lk_PrimaryKeys := lk_PrimaryKeys p\<rparr> else q\<lparr>lk_ColumnKeys := lk_ColumnKeys p\<rparr>)"

lemma copy_fields:
  "set is \<subseteq> {1, 2, 3, 4} \<Longrightarrow> fold (copy_field p) is q =
     \<lparr>lk_DatabaseName = lk_DatabaseName (if 1 \<in> set is then p else q), lk_TableName = lk_TableName (if 2 \<in> set is then p else q),
      lk_PrimaryKeys = lk_PrimaryKeys (if 3 \<in> set is then p else q), lk_ColumnKeys = lk_ColumnKeys (if 4 \<in> set is then p else q)\<rparr>"
  by (induction "is" arbitrary: q) (auto simp: copy_field_def)

lemma fields_back_skip:
  assumes "faithful pr" and "t \<noteq> TSTOP" and "sw i = None" and "reads_back body (Skip pr t) ()"
    and "fields_back pr T sw R n p w q"
  shows "fields_back pr T sw R (Suc n) p (wthen (write_field pr T' label name t i body) w) q"
  unfolding fields_back_def
proof (intro allI impI)
  fix k seen assume "Suc n \<le> k"
  then have "n \<le> k - 1" by simp
  with assms(5) obtain seen' where "reads_back w (read_fields pr T sw (k - 1) (p, seen)) (q, seen')"
    and "set seen' = R \<union> set seen"
    unfolding fields_back_def by blast
  with \<open>Suc n \<le> k\<close> assms(1-4)
  show "\<exists>seen'. reads_back (wthen (write_field pr T' label name t i body) w)
      (read_fields pr T sw k (p, seen)) (q, seen') \<and> set seen' = R \<union> set seen"
    by (intro exI [of _ seen'] conjI read_fields_skip) auto
qed

lemma known_field_back:
  assumes "faithful pr" and "i \<in> {1, 2, 3, 4}" and "fields_back pr T (LaserKey_switch pr) R n (copy_field p i q) w q'"
  shows "fields_back pr T (LaserKey_switch pr) (insert i R) (Suc n) q (wthen (key_field pr p i) w) q'"
proof -
  consider "i = 1" | "i = 2" | "i = 3" | "i = 4" using assms(2) by auto
  then show ?thesis
    using assms(3) unfolding key_field_def copy_field_def wire_defs
    by cases (simp, rule fields_back_field [OF assms(1)], simp, simp, rule field_back [OF assms(1)], simp)+
qed

lemma message_back:
  assumes "faithful pr" and "list_all (message_field_ok pr) fs"
  shows "fields_back pr T (LaserKey_switch pr) (set (known_ids fs)) (Suc (length fs)) q
    (wthen (weach id (map (write_message_field pr p) fs)) (wprep m (WriteFieldStop pr))) (fold (copy_field p) (known_ids fs) q)"
  using assms(2)
proof (induction fs arbitrary: q rule: known_ids.induct)
  case 1 then show ?case using assms(1) by (simp add: fields_back_stop_eq)
next
  case (2 i fs) then show ?case using assms(1) by (simp add: wthen_assoc known_field_back)
next
  case (3 name t i body fs)
  then have "LaserKey_switch pr i = None" by (simp add: LaserKey_switch_def)
  with 3 show ?case using assms(1) by (simp add: wthen_assoc fields_back_skip)
qed

lemma struct_frame:
  assumes "faithful pr" and "fields_back pr T sw R n p (wthen (weach id ws) (wprep ''write field stop error: '' (WriteFieldStop pr))) q"
    and "n \<le> fuel" and "write_struct pr T' name ws out = Inr out'"
  obtains bs seen where "out' = out @ bs" and "set seen = R"
    and "\<And>rest. read_struct pr fuel T sw req p (bs @ rest) = rbind (require req seen) (\<lambda>_. rret q) rest"
proof -
  obtain seen where seen: "set seen = R" and "reads_back (wthen (weach id ws) (wprep ''write field stop error: '' (WriteFieldStop pr)))
      (read_fields pr T sw fuel (p, [])) (q, seen)"
    using assms(2) [unfolded fields_back_def, rule_format, OF assms(3), of "[]"] by auto
  then have "reads_back (write_struct pr T' name ws)
      (rbind (rprep (T @ '' read error: '') (ReadStructBegin pr)) (\<lambda>_. rbind (read_fields pr T sw fuel (p, [])) (\<lambda>(q, seen).
        rbind (rprep (T @ '' read struct end error: '') (ReadStructEnd pr)) (\<lambda>_. rret (q, seen))))) (q, seen)"
    unfolding write_struct_def wthen_assoc [of "weach id ws", symmetric]
    by (intro reads_back_then reads_back_prep faithfulD [OF assms(1)]) (auto intro!: reads_back_end faithfulD [OF assms(1)])
  with assms(4) obtain bs where "out' = out @ bs"
    and "\<And>rest. rbind (rprep (T @ '' read error: '') (ReadStructBegin pr)) (\<lambda>_. rbind (read_fields pr T sw fuel (p, [])) (\<lambda>(q, seen).
        rbind (rprep (T @ '' read struct end error: '') (ReadStructEnd pr)) (\<lambda>_. rret (q, seen)))) (bs @ rest) = Inr ((q, seen), rest)"
    unfolding reads_back_def by blast
  then show thesis
    using that seen by (fastforce simp: read_struct_def rbind_def rret_def split: sum.splits prod.splits)
qed

section \<open>A protocol that is faithful\<close>

text \<open>A protocol that keeps each call as one symbol, for the examples.\<close>

datatype token = TkStructBegin | TkStructEnd | TkField ttype "16 word" | TkFieldEnd
  | TkList int | TkListEnd | TkMap int | TkMapEnd | TkBool bool | TkI32 int32 | TkI64 int64 | TkString string

definition put :: "token \<Rightarrow> token wr" where
  "put t out = Inr (out @ [t])"

definition get :: "(token \<Rightarrow> 'a option) \<Rightarrow> (token, 'a) rd" where
  "get f b = (case b of [] \<Rightarrow> Inl (WireError TransportError ''EOF'')
     | t # b' \<Rightarrow> (case f t of Some x \<Rightarrow> Inr (x, b') | None \<Rightarrow> Inl (WireError OtherError ''unexpected'')))"

text \<open>It skips a value of the types whose value is one symbol.\<close>

definition token_protocol :: "token Protocol" where
  "token_protocol =
    \<lparr>WriteStructBegin = (\<lambda>name. put TkStructBegin), WriteStructEnd = put TkStructEnd,
     WriteFieldBegin = (\<lambda>name t i. put (TkField t i)), WriteFieldEnd = put TkFieldEnd,
     WriteFieldStop = put (TkField TSTOP 0),
     WriteListBegin = (\<lambda>t n. put (TkList n)), WriteListEnd = put TkListEnd,
     WriteMapBegin = (\<lambda>t t' n. put (TkMap n)), WriteMapEnd = put TkMapEnd,
     WriteBool = (\<lambda>v. put (TkBool v)), WriteI32 = (\<lambda>v. put (TkI32 v)), WriteI64 = (\<lambda>v. put (TkI64 v)),
     WriteString = (\<lambda>v. put (TkString v)),
     ReadStructBegin = get (\<lambda>t. if t = TkStructBegin then Some () else None),
     ReadStructEnd = get (\<lambda>t. if t = TkStructEnd then Some () else None),
     ReadFieldBegin = get (\<lambda>t. case t of TkField ty i \<Rightarrow> Some (ty, i) | _ \<Rightarrow> None),
     FailedFieldId = (\<lambda>_. ''0''),
     ReadFieldEnd = get (\<lambda>t. if t = TkFieldEnd then Some () else None),
     ReadListBegin = get (\<lambda>t. case t of TkList n \<Rightarrow> Some n | _ \<Rightarrow> None),
     ReadListEnd = get (\<lambda>t. if t = TkListEnd then Some () else None),
     ReadMapBegin = get (\<lambda>t. case t of TkMap n \<Rightarrow> Some n | _ \<Rightarrow> None),
     ReadMapEnd = get (\<lambda>t. if t = TkMapEnd then Some () else None),
     ReadBool = get (\<lambda>t. case t of TkBool v \<Rightarrow> Some v | _ \<Rightarrow> None),
     ReadI32 = get (\<lambda>t. case t of TkI32 v \<Rightarrow> Some v | _ \<Rightarrow> None),
     ReadI64 = get (\<lambda>t. case t of TkI64 v \<Rightarrow> Some v | _ \<Rightarrow> None),
     ReadString = get (\<lambda>t. case t of TkString v \<Rightarrow> Some v | _ \<Rightarrow> None),
     Skip = (\<lambda>_. get (\<lambda>t. Some ()))\<rparr>"

lemma put_get: "reads_back (put t) (get f) v \<longleftrightarrow> f t = Some v"
  by (auto simp: reads_back_def put_def get_def split: option.splits)

lemma faithful_token_protocol: "faithful token_protocol"
  by (auto simp: faithful_def token_protocol_def put_get)

section \<open>Properties of the wire format\<close>

text \<open>C5. What a server writes as a response the client reads as the same response, whatever follows in
  the stream: over a faithful protocol, whenever writing a well-formed response succeeds, reading
  returns, takes exactly the bytes written, and gives the same data. Maps are the same by their
  entries. A fuel of three is enough.\<close>

theorem LaserResponse_round_trip:
  assumes "faithful pr" and "is_order ko" and "wf_LaserResponse r" and "3 \<le> fuel"
    and "LaserResponse_Write pr ko r out = Inr out'"
  shows "\<exists>bs r'. out' = out @ bs \<and> same_LaserResponse r r' \<and>
    (\<forall>rest. LaserResponse_Read pr fuel NewLaserResponse (bs @ rest) = Inr (r', rest))"
proof -
  have "reads_back (LaserResponse_Write pr ko r) (LaserResponse_Read pr fuel NewLaserResponse) (sent_LaserResponse ko r)"
    by (rule LaserResponse_back [OF assms(1,2) wf_maps_ok [OF assms(3)] assms(4)])
  with same_sent_LaserResponse [OF assms(2,3)] assms(5) show ?thesis
    unfolding reads_back_def by blast
qed

definition example_response :: LaserResponse where
  "example_response = NewLaserResponse\<lparr>lr_MapStringData := Some [(''a'', ''1''), (''b'', ''2'')]\<rparr>"

lemma example_response_facts:
  "faithful token_protocol" "is_order rev" "wf_LaserResponse example_response"
  "LaserResponse_Write token_protocol rev example_response [] =
     Inr [TkStructBegin, TkField TMAP 6, TkMap 2, TkString ''b'', TkString ''2'', TkString ''a'', TkString ''1'',
       TkMapEnd, TkFieldEnd, TkField TSTOP 0, TkStructEnd]"
  by (simp_all add: faithful_token_protocol is_order_def wf_LaserResponse_def example_response_def NewLaserResponse_def)
    code_simp

theorem LaserResponse_round_trip_witness:
  "\<exists>bs r'. [TkStructBegin, TkField TMAP 6, TkMap 2, TkString ''b'', TkString ''2'', TkString ''a'', TkString ''1'',
       TkMapEnd, TkFieldEnd, TkField TSTOP 0, TkStructEnd] = [] @ bs \<and> same_LaserResponse example_response r' \<and>
    (\<forall>rest. LaserResponse_Read token_protocol 3 NewLaserResponse (bs @ rest) = Inr (r', rest))"
  by (rule LaserResponse_round_trip [OF example_response_facts(1-3) _ example_response_facts(4)]) simp

text \<open>C20. What a client writes as the pairs of a batch the server reads as the same pairs, in the same order.
  A pair whose key or value is a nil pointer is never written. A fuel of five is enough.\<close>

theorem LaserKVs_round_trip:
  assumes "faithful pr" and "is_order ko" and "5 \<le> fuel"
    and "list_all (\<lambda>p. pred_option wf_LaserValue (kv_Value p)) (kvs_Values ps)"
    and "LaserKVs_Write pr ko ps out = Inr out'"
  shows "\<exists>bs ps'. out' = out @ bs \<and> list_all2 same_LaserKV (kvs_Values ps) (kvs_Values ps') \<and>
    (\<forall>rest. LaserKVs_Read pr fuel NewLaserKVs (bs @ rest) = Inr (ps', rest))"
proof -
  have "list_all maps_ok_LaserKV (kvs_Values ps)"
    using assms(4) by (auto simp: list_all_iff maps_ok_LaserKV_def wf_LaserValue_def pred_option_def)
  then have "reads_back (LaserKVs_Write pr ko ps) (LaserKVs_Read pr fuel NewLaserKVs) (sent_LaserKVs ko ps)"
    by (rule LaserKVs_back [OF assms(1,2) _ assms(3)])
  moreover have "list_all2 same_LaserKV (kvs_Values ps) (kvs_Values (sent_LaserKVs ko ps))"
    using assms(2,4) by (auto simp: sent_LaserKVs_def list_all_iff list_all2_conv_all_nth same_LaserKV_def
        sent_LaserKV_def pred_option_def intro!: rel_option_map same_sent_LaserValue)
  ultimately show ?thesis using assms(5) unfolding reads_back_def by blast
qed

definition example_pairs :: LaserKVs where
  "example_pairs = \<lparr>kvs_Values = [\<lparr>
     kv_Key = Some \<lparr>lk_DatabaseName = ''db'', lk_TableName = ''t'', lk_PrimaryKeys = [''k''], lk_ColumnKeys = []\<rparr>,
     kv_Value = Some (NewLaserValue\<lparr>lv_StringValue := Some ''v''\<rparr>)\<rparr>]\<rparr>"

definition example_pairs_tokens :: "token list" where
  "example_pairs_tokens =
    [TkStructBegin, TkField TLIST 1, TkList 1, TkStructBegin, TkField TSTRUCT 1,
     TkStructBegin, TkField TSTRING 1, TkString ''db'', TkFieldEnd, TkField TSTRING 2, TkString ''t'', TkFieldEnd,
     TkField TLIST 3, TkList 1, TkString ''k'', TkListEnd, TkFieldEnd, TkField TLIST 4, TkList 0, TkListEnd, TkFieldEnd,
     TkField TSTOP 0, TkStructEnd, TkFieldEnd, TkField TSTRUCT 2,
     TkStructBegin, TkField TSTRING 1, TkString ''v'', TkFieldEnd, TkField TSTOP 0, TkStructEnd, TkFieldEnd,
     TkField TSTOP 0, TkStructEnd, TkListEnd, TkFieldEnd, TkField TSTOP 0, TkStructEnd]"

lemma example_pairs_facts:
  "is_order (\<lambda>ks. ks)" "list_all (\<lambda>p. pred_option wf_LaserValue (kv_Value p)) (kvs_Values example_pairs)"
  "LaserKVs_Write token_protocol (\<lambda>ks. ks) example_pairs [] = Inr example_pairs_tokens"
  by (simp_all add: is_order_def wf_LaserValue_def maps_ok_LaserValue_def example_pairs_def NewLaserValue_def)
    code_simp

theorem LaserKVs_round_trip_witness:
  "\<exists>bs ps'. example_pairs_tokens = [] @ bs \<and> list_all2 same_LaserKV (kvs_Values example_pairs) (kvs_Values ps') \<and>
    (\<forall>rest. LaserKVs_Read token_protocol 5 NewLaserKVs (bs @ rest) = Inr (ps', rest))"
  by (rule LaserKVs_round_trip [OF faithful_token_protocol example_pairs_facts(1) _ example_pairs_facts(2,3)]) simp

text \<open>C21. A key is read from the message of any writer: the order of the fields and fields of unknown ids
  make no difference, the column keys may be missing, and if the database, the table or the primary
  keys are missing, the read fails and names the first of them that is.\<close>

theorem LaserKey_Read_message:
  assumes "faithful pr" and "list_all (message_field_ok pr) fs" and "length fs < fuel"
    and "write_struct pr T ''LaserKey'' (map (write_message_field pr p) fs) out = Inr out'"
  shows "\<exists>bs. out' = out @ bs \<and> (\<forall>rest. LaserKey_Read pr fuel NewLaserKey (bs @ rest) =
    (if 1 \<notin> set (known_ids fs) then Inl (WireError INVALID_DATA ''Required field DatabaseName is not set'')
     else if 2 \<notin> set (known_ids fs) then Inl (WireError INVALID_DATA ''Required field TableName is not set'')
     else if 3 \<notin> set (known_ids fs) then Inl (WireError INVALID_DATA ''Required field PrimaryKeys is not set'')
     else Inr (p\<lparr>lk_ColumnKeys := if 4 \<in> set (known_ids fs) then lk_ColumnKeys p else []\<rparr>, rest)))"
proof -
  obtain bs seen where bs: "out' = out @ bs" and seen: "set seen = set (known_ids fs)"
    and read: "\<And>rest. LaserKey_Read pr fuel NewLaserKey (bs @ rest) =
      rbind (require [(1, ''DatabaseName''), (2, ''TableName''), (3, ''PrimaryKeys'')] seen)
        (\<lambda>_. rret (fold (copy_field p) (known_ids fs) NewLaserKey)) rest"
    unfolding LaserKey_Read_def
    using struct_frame [OF assms(1) message_back [OF assms(1,2)] _ assms(4)] assms(3)
    by (metis Suc_leI)
  have "set (known_ids fs) \<subseteq> {1, 2, 3, 4}"
    using assms(2) by (induction fs rule: known_ids.induct) auto
  moreover have "lk_ColumnKeys NewLaserKey = []" by (simp add: NewLaserKey_def)
  ultimately show ?thesis
    using bs by (auto simp: read seen copy_fields rbind_def rfail_def rret_def)
qed

definition example_wire_key :: LaserKey where
  "example_wire_key = \<lparr>lk_DatabaseName = ''db'', lk_TableName = ''t'', lk_PrimaryKeys = [''k''], lk_ColumnKeys = []\<rparr>"

definition example_message :: "token message_field list" where
  "example_message = [Known 3, Unknown ''ttl'' TI64 9 (put (TkI64 7)), Known 1]"

definition example_message_tokens :: "token list" where
  "example_message_tokens =
    [TkStructBegin, TkField TLIST 3, TkList 1, TkString ''k'', TkListEnd, TkFieldEnd,
     TkField TI64 9, TkI64 7, TkFieldEnd, TkField TSTRING 1, TkString ''db'', TkFieldEnd, TkField TSTOP 0, TkStructEnd]"

lemma example_message_facts:
  "list_all (message_field_ok token_protocol) example_message" "length example_message = 3"
  "set (known_ids example_message) = {1, 3}"
  "write_struct token_protocol [] ''LaserKey'' (map (write_message_field token_protocol example_wire_key) example_message) [] =
     Inr example_message_tokens"
  by (auto simp: example_message_def token_protocol_def put_get) code_simp

theorem LaserKey_Read_message_witness:
  "\<exists>bs. example_message_tokens = [] @ bs \<and> (\<forall>rest. LaserKey_Read token_protocol 4 NewLaserKey (bs @ rest) =
    Inl (WireError INVALID_DATA ''Required field TableName is not set''))"
  using LaserKey_Read_message [OF faithful_token_protocol example_message_facts(1), of 4 "[]" example_wire_key "[]"]
  by (simp add: example_message_facts)

text \<open>An exception arrives with its message, and with its status if and only if the status fits in 32 bits,
  the width it is written with; every status that has a name does.\<close>

theorem LaserException_status:
  assumes "faithful pr" and "3 \<le> fuel" and "LaserException_Write pr e out = Inr out'"
  shows "(\<exists>bs e'. out' = out @ bs \<and> ex_Message e' = ex_Message e \<and> (ex_Status e' = ex_Status e \<longleftrightarrow> fits32 (ex_Status e)) \<and>
      (\<forall>rest. LaserException_Read pr fuel NewLaserException (bs @ rest) = Inr (e', rest))) \<and>
    (map_of StatusToName s \<noteq> None \<longrightarrow> fits32 s)"
proof -
  let ?e = "e\<lparr>ex_Status := scast (scast (ex_Status e) :: int32)\<rparr>"
  have "reads_back (LaserException_Write pr e) (LaserException_Read pr fuel NewLaserException) ?e"
    by (rule LaserException_back [OF assms(1,2)])
  with assms(3) obtain bs where "out' = out @ bs"
    and "\<forall>rest. LaserException_Read pr fuel NewLaserException (bs @ rest) = Inr (?e, rest)"
    unfolding reads_back_def by blast
  moreover have "\<forall>s\<in>set (map fst StatusToName). fits32 s"
    by (simp add: StatusToName_def fits32_def)
  ultimately show ?thesis
    by (auto simp: fits32_def map_of_eq_None_iff intro!: exI [of _ bs] exI [of _ ?e])
qed

definition example_exception :: LaserException where
  "example_exception = \<lparr>ex_Message = ''busy'', ex_Status = 4294967296\<rparr>"

definition example_exception_tokens :: "token list" where
  "example_exception_tokens =
    [TkStructBegin, TkField TSTRING 1, TkString ''busy'', TkFieldEnd, TkField TI32 2, TkI32 0, TkFieldEnd, TkField TSTOP 0, TkStructEnd]"

lemma example_exception_write:
  "LaserException_Write token_protocol example_exception [] = Inr example_exception_tokens"
  by code_simp

theorem LaserException_status_witness:
  "(\<exists>bs e'. example_exception_tokens = [] @ bs \<and> ex_Message e' = ''busy'' \<and> ex_Status e' \<noteq> 4294967296 \<and>
      (\<forall>rest. LaserException_Read token_protocol 3 NewLaserException (bs @ rest) = Inr (e', rest))) \<and> fits32 Status_UNKNOWN_ERROR"
proof -
  have "\<not> fits32 (ex_Status example_exception)" "ex_Message example_exception = ''busy''" "ex_Status example_exception = 4294967296"
    by (simp_all add: fits32_def example_exception_def)
  moreover have "map_of StatusToName Status_UNKNOWN_ERROR \<noteq> None" by (simp add: StatusToName_def)
  ultimately show ?thesis
    using LaserException_status [OF faithful_token_protocol _ example_exception_write, of 3 Status_UNKNOWN_ERROR] by simp
qed

text \<open>The fields of a response that are set, in their order.\<close>

definition IsSet_LaserResponse :: "LaserResponse \<Rightarrow> bool list" where
  "IsSet_LaserResponse p =
     [lr_IntData p \<noteq> None, lr_StringData p \<noteq> None, lr_ListIntData p \<noteq> None, lr_ListStringData p \<noteq> None,
      lr_ListValueData p \<noteq> None, lr_MapStringData p \<noteq> None, lr_MapValueData p \<noteq> None, lr_BoolData p \<noteq> None,
      lr_ListScoreMemberData p \<noteq> None]"

lemma count_sent_LaserResponse:
  "CountSetFieldsLaserResponse (sent_LaserResponse ko r) = CountSetFieldsLaserResponse r"
  "IsSet_LaserResponse (sent_LaserResponse ko r) = IsSet_LaserResponse r"
  by (simp_all add: CountSetFieldsLaserResponse_def IsSet_LaserResponse_def sent_LaserResponse_def)

text \<open>A response keeps its type on the wire: a response that can be written has exactly one of its fields
  set, and so has the response its reader gets, the same field, provided each map has its keys once.\<close>

theorem LaserResponse_union_kept:
  assumes "faithful pr" and "is_order ko" and "maps_ok_LaserResponse r" and "3 \<le> fuel"
    and "LaserResponse_Write pr ko r out = Inr out'"
  shows "CountSetFieldsLaserResponse r = 1 \<and>
    (\<exists>bs r'. out' = out @ bs \<and> LaserResponse_Read pr fuel NewLaserResponse bs = Inr (r', []) \<and>
      CountSetFieldsLaserResponse r' = 1 \<and> IsSet_LaserResponse r' = IsSet_LaserResponse r)"
proof -
  have "CountSetFieldsLaserResponse r = 1"
    using assms(5) by (auto simp: LaserResponse_Write_def split: if_splits)
  moreover from LaserResponse_back [OF assms(1-4)] assms(5) obtain bs where "out' = out @ bs"
    and "\<forall>rest. LaserResponse_Read pr fuel NewLaserResponse (bs @ rest) = Inr (sent_LaserResponse ko r, rest)"
    unfolding reads_back_def by blast
  ultimately show ?thesis
    by (metis append_Nil2 count_sent_LaserResponse)
qed

theorem LaserResponse_union_kept_witness:
  "\<exists>bs r'. [TkStructBegin, TkField TMAP 6, TkMap 2, TkString ''b'', TkString ''2'', TkString ''a'', TkString ''1'',
       TkMapEnd, TkFieldEnd, TkField TSTOP 0, TkStructEnd] = [] @ bs \<and>
    LaserResponse_Read token_protocol 3 NewLaserResponse bs = Inr (r', []) \<and> CountSetFieldsLaserResponse r' = 1 \<and>
    IsSet_LaserResponse r' = [False, False, False, False, False, True, False, False, False]"
  using LaserResponse_union_kept [OF example_response_facts(1,2) wf_maps_ok [OF example_response_facts(3)] _ example_response_facts(4), of 3]
  by (simp add: IsSet_LaserResponse_def example_response_def NewLaserResponse_def)

end
