(* ===== verification/Laser_Float.thy ===== *)
theory Laser_Float
  imports Complex_Main Laser_Prelude
begin

text \<open>
  What the control service computes with Go's \<open>float64\<close>: the operations round the exact result to the
  nearest number with 53 significant bits, ties to the even one. A finite number is its rational value.
  The exponents of the values in scope are far from the limits of the format, so neither overflow nor
  subnormal numbers are modelled; where a divisor can be zero, the definitions that divide say what
  they do then.
\<close>

definition exp2 :: "int \<Rightarrow> rat" where
  "exp2 i = (if 0 \<le> i then 2 ^ nat i else 1 / 2 ^ nat (- i))"

text \<open>The number of bits of a positive integer, and the position of the leading bit of a positive number.\<close>

function bits :: "int \<Rightarrow> int" where
  "bits n = (if n \<le> 0 then 0 else 1 + bits (n div 2))"
  by auto
termination by (relation "measure nat") auto

declare bits.simps [simp del]

definition lead :: "rat \<Rightarrow> int" where
  "lead x = (case quotient_of x of (p, q) \<Rightarrow>
     let e = bits p - bits q in if exp2 e \<le> x then e else e - 1)"

definition round_even :: "rat \<Rightarrow> int" where
  "round_even y = (let f = \<lfloor>y\<rfloor>; d = y - of_int f in
     if d < 1 / 2 then f else if 1 / 2 < d then f + 1 else if even f then f else f + 1)"

definition fl :: "rat \<Rightarrow> rat" where
  "fl x = (if x = 0 then 0
     else let u = exp2 (lead \<bar>x\<bar> - 52) in sgn x * (of_int (round_even (\<bar>x\<bar> / u)) * u))"

definition fl_div :: "rat \<Rightarrow> rat \<Rightarrow> rat" where
  "fl_div x y = fl (x / y)"

definition fl_mult :: "rat \<Rightarrow> rat \<Rightarrow> rat" where
  "fl_mult x y = fl (x * y)"

text \<open>\<open>float64(n)\<close> of an unsigned integer.\<close>

definition float_of_uint :: "'a::len word \<Rightarrow> rat" where
  "float_of_uint n = fl (of_nat (unat n))"

section \<open>Bounds\<close>

lemma exp2_pos [simp]: "0 < exp2 i"
  by (simp add: exp2_def)

lemma exp2_powi: "exp2 i = 2 powi i"
  by (simp add: exp2_def power_int_def inverse_eq_divide power_one_over)

lemma exp2_add: "exp2 (i + j) = exp2 i * exp2 j"
  by (simp add: exp2_powi power_int_add)

lemma exp2_Suc: "exp2 (i + 1) = 2 * exp2 i"
  by (simp add: exp2_add) (simp add: exp2_def)

lemma exp2_less_iff: "exp2 i < exp2 j \<longleftrightarrow> i < j"
  using power_int_strict_increasing [of i j "2 :: rat"] power_int_strict_increasing [of j i "2 :: rat"]
  by (cases i j rule: linorder_cases) (simp_all add: exp2_powi)

lemma exp2_le_iff: "exp2 i \<le> exp2 j \<longleftrightarrow> i \<le> j"
  by (meson exp2_less_iff not_le)

lemma bits_nonneg: "0 \<le> bits n"
proof (induction n rule: bits.induct)
  case (1 n)
  then show ?case by (cases "n \<le> 0") (simp_all add: bits.simps [of n])
qed

lemma bits_bounds: "0 < n \<Longrightarrow> exp2 (bits n) \<le> 2 * of_int n \<and> of_int n < exp2 (bits n)"
proof (induction n rule: bits.induct)
  case (1 n)
  show ?case
  proof (cases "n = 1")
    case True
    then show ?thesis by (simp add: bits.simps exp2_def)
  next
    case False
    with 1 have ih: "exp2 (bits (n div 2)) \<le> 2 * of_int (n div 2)" "of_int (n div 2) < exp2 (bits (n div 2))" by auto
    have b: "exp2 (bits n) = 2 * exp2 (bits (n div 2))"
      using 1 by (simp add: bits.simps [of n] add.commute [of 1] exp2_Suc)
    obtain k where k: "exp2 (bits (n div 2)) = of_int (2 ^ k)"
      using bits_nonneg [of "n div 2"] by (metis exp2_def of_int_numeral of_int_power)
    have "2 ^ k \<le> 2 * (n div 2)" "n div 2 < 2 ^ k"
      using ih unfolding k by (simp_all only: of_int_le_iff of_int_less_iff flip: of_int_mult [of 2, simplified])
    then have "2 * 2 ^ k \<le> 2 * n" "n < 2 * 2 ^ k" by linarith+
    then have "of_int (2 * 2 ^ k) \<le> (of_int (2 * n) :: rat)" "(of_int n :: rat) < of_int (2 * 2 ^ k)"
      by (simp_all only: of_int_le_iff of_int_less_iff)
    then show ?thesis unfolding b k by simp
  qed
qed

lemma lead_bounds:
  assumes "0 < x"
  shows "exp2 (lead x) \<le> x" "x < 2 * exp2 (lead x)"
proof -
  obtain p q where pq: "quotient_of x = (p, q)" by (cases "quotient_of x")
  then have q: "0 < q" and x: "x = of_int p / of_int q"
    using quotient_of_denom_pos quotient_of_div by blast+
  with assms have p: "0 < p" by (simp add: zero_less_divide_iff)
  define e where "e = bits p - bits q"
  have e: "exp2 (bits p) = exp2 e * exp2 (bits q)" by (simp add: e_def flip: exp2_add)
  have bp: "exp2 (bits p) \<le> 2 * of_int p" "of_int p < exp2 (bits p)"
    and bq: "exp2 (bits q) \<le> 2 * of_int q" "of_int q < exp2 (bits q)"
    using bits_bounds [OF p] bits_bounds [OF q] by auto
  have "of_int p < exp2 e * (2 * of_int q)"
  proof -
    have "exp2 e * exp2 (bits q) \<le> exp2 e * (2 * of_int q)"
      by (rule mult_left_mono [OF bq(1)]) (simp add: less_imp_le)
    with bp(2) show ?thesis unfolding e by linarith
  qed
  then have hi: "x < 2 * exp2 e" using q by (simp add: x divide_less_eq mult_ac)
  have "exp2 e * of_int q < exp2 e * exp2 (bits q)" using bq(2) by simp
  then have "exp2 e * of_int q < 2 * of_int p" using bp(1) e by linarith
  then have lo: "exp2 e < 2 * x" using q by (simp add: x less_divide_eq mult_ac)
  have e1: "exp2 e = 2 * exp2 (e - 1)" using exp2_Suc [of "e - 1"] by simp
  have "lead x = (if exp2 e \<le> x then e else e - 1)" by (simp add: lead_def pq e_def Let_def)
  with hi lo e1 show "exp2 (lead x) \<le> x" "x < 2 * exp2 (lead x)" by (auto split: if_splits)
qed

lemma round_even_ge: "of_int m \<le> y \<Longrightarrow> m \<le> round_even y"
  by (auto simp: round_even_def Let_def le_floor_iff intro: add_increasing2)

lemma round_even_le: "y \<le> of_int m \<Longrightarrow> round_even y \<le> m"
proof -
  assume y: "y \<le> of_int m"
  show ?thesis
  proof (cases "y = of_int m")
    case True then show ?thesis by (simp add: round_even_def)
  next
    case False
    with y have "\<lfloor>y\<rfloor> < m" by (simp add: floor_less_iff)
    then show ?thesis by (auto simp: round_even_def Let_def)
  qed
qed

lemma round_even_of_int [simp]: "round_even (of_int m) = m"
  by (simp add: round_even_def)

lemma fl_pos:
  assumes "0 < x"
  shows "fl x = of_int (round_even (x / exp2 (lead x - 52))) * exp2 (lead x - 52)"
  using assms by (simp add: fl_def Let_def)

lemma exp2_52: "exp2 k = 4503599627370496 * exp2 (k - 52)"
  using exp2_add [of 52 "k - 52"] by (simp add: exp2_def [of 52])

text \<open>Rounding keeps a number between the powers of two around it.\<close>

lemma fl_bounds:
  assumes "0 < x"
  shows "exp2 (lead x) \<le> fl x" "fl x \<le> 2 * exp2 (lead x)"
proof -
  let ?u = "exp2 (lead x - 52)"
  have "of_int 4503599627370496 \<le> x / ?u" "x / ?u \<le> of_int 9007199254740992"
    using lead_bounds [OF assms] exp2_52 [of "lead x"] by (simp_all add: pos_le_divide_eq pos_divide_le_eq)
  then have "4503599627370496 \<le> round_even (x / ?u)" "round_even (x / ?u) \<le> 9007199254740992"
    by (intro round_even_ge round_even_le; simp)+
  then have "(4503599627370496 :: rat) \<le> of_int (round_even (x / ?u))" "of_int (round_even (x / ?u)) \<le> (9007199254740992 :: rat)"
    by linarith+
  then show "exp2 (lead x) \<le> fl x" "fl x \<le> 2 * exp2 (lead x)"
    unfolding fl_pos [OF assms] using exp2_52 [of "lead x"] by (simp_all add: mult_right_mono)
qed

lemma fl_half: "0 < x \<Longrightarrow> x / 2 < fl x"
  using fl_bounds(1) [of x] lead_bounds(2) [of x] by simp

lemma fl_double: "0 < x \<Longrightarrow> fl x \<le> 2 * x"
  using fl_bounds(2) [of x] lead_bounds(1) [of x] by simp

lemma fl_ge_exp2:
  assumes "exp2 k \<le> x"
  shows "exp2 k \<le> fl x"
proof -
  have x: "0 < x" using assms exp2_pos [of k] by linarith
  have "exp2 k < exp2 (lead x + 1)" using assms lead_bounds(2) [OF x] by (simp add: exp2_Suc)
  then have "exp2 k \<le> exp2 (lead x)" by (simp add: exp2_less_iff exp2_le_iff)
  with fl_bounds(1) [OF x] show ?thesis by simp
qed

text \<open>Integers below $2^{53}$ are numbers of the format.\<close>

lemma fl_small:
  assumes "n < 9007199254740992"
  shows "fl (of_nat n) = of_nat n"
proof (cases "n = 0")
  case False
  then have x: "(0 :: rat) < of_nat n" by simp
  have "(of_nat n :: rat) < of_nat 9007199254740992" using assms by (simp only: of_nat_less_iff)
  then have "exp2 (lead (of_nat n)) < exp2 53" using lead_bounds(1) [OF x] by (simp add: exp2_def [of 53])
  then have l: "lead (of_nat n) \<le> 52" by (simp add: exp2_less_iff)
  let ?i = "lead (of_nat n) - 52"
  have "exp2 (- ?i) = of_int (2 ^ nat (- ?i))" using l by (simp add: exp2_def)
  moreover have "exp2 ?i * exp2 (- ?i) = 1" by (simp add: exp2_def flip: exp2_add)
  ultimately have "of_nat n / exp2 ?i = of_int (int n * 2 ^ nat (- ?i))"
    using exp2_pos [of ?i] by (simp add: divide_eq_eq mult_ac del: exp2_pos)
  then have "fl (of_nat n) = of_int (int n * 2 ^ nat (- ?i)) * exp2 ?i"
    unfolding fl_pos [OF x] by (simp only: round_even_of_int)
  then show ?thesis
    using \<open>of_nat n / exp2 ?i = of_int (int n * 2 ^ nat (- ?i))\<close> by (metis exp2_pos less_irrefl nonzero_eq_divide_eq)
qed (simp add: fl_def)

end
