(* ===== verification/Laser_Metrics.thy ===== *)
theory Laser_Metrics
  imports Laser_Partition Laser_Float
begin

text \<open>
  The metrics cache of the control service, from \<^verbatim>\<open>src/control/service/metrics_info.go\<close>: the hashes of
  nodes and shards, what is taken from the answers of a node, the merge of the pulled results into the
  cache, and the queries on the cache.

  The lists that the code loads from its database (clusters, tables, groups with their nodes) are
  arguments, with the columns the code reads; columns declared not null are plain values. The decoded
  answers of a node are arguments as well, \<open>None\<close> standing for a failed request or an answer that is
  no JSON of the expected form. The copies of the cache that the code makes through JSON are the values
  themselves. The mutex is held around each query and each merge, so these are atomic here.
\<close>

section \<open>Data\<close>

type_synonym ShardRole = int32

abbreviation Leader :: ShardRole where "Leader \<equiv> 1"
abbreviation Follower :: ShardRole where "Follower \<equiv> 2"

type_synonym ShardServiceState = uint32

abbreviation Available :: ShardServiceState where "Available \<equiv> 1"
abbreviation Unavailable :: ShardServiceState where "Unavailable \<equiv> 2"

record Dc =
  dc_Name :: string
  dc_ShardNumber :: uint32

record Cluster =
  cl_Name :: string
  cl_ShardTotal :: uint32
  cl_Dcs :: "Dc list"

record Table =
  tb_Name :: string
  tb_DatabaseName :: string
  tb_PartitionNumber :: uint32
  tb_DcName :: string

record Node =
  nd_NodeId :: uint32
  nd_Active :: uint16
  nd_Host :: string
  nd_Port :: uint16
  nd_Weight :: uint32
  nd_Master :: bool
  nd_IsEdgeNode :: bool
  nd_GroupName :: string
  nd_LeaderShardList :: "string option"
  nd_FollowerShardList :: "string option"

record Group =
  gr_Id :: uint32
  gr_Name :: string
  gr_Alias :: string
  gr_DcName :: string
  gr_Nodes :: "Node list"

record ShardPartitionInfo =
  pi_SeqNo :: uint64
  pi_PartitionId :: uint32
  pi_Hash :: int64
  pi_DatabaseName :: string
  pi_TableName :: string
  pi_Role :: string
  pi_BaseVersion :: string
  pi_Size :: uint64
  pi_ReadKps :: uint64
  pi_WriteKps :: uint64
  pi_ReadBytes :: uint64
  pi_WriteBytes :: uint64

text \<open>An entry of the data of \<open>ShardListJson\<close>, and the fields of \<open>ServerStatus\<close> that are read.\<close>

record ShardListEntry =
  le_Status :: string
  le_Role :: string
  le_ShardId :: uint32
  le_Partitions :: "ShardPartitionInfo list"

record ServerStatus =
  ss_ServerStatus :: string
  ss_Stat :: "string \<rightharpoonup> rat"

record ShardInfo =
  si_ShardId :: uint32
  si_ShardHash :: string
  si_Role :: ShardRole
  si_ServiceState :: ShardServiceState
  si_SeqNo :: uint64
  si_BaseVersionHash :: uint64
  si_Metrics :: "string \<rightharpoonup> rat"
  si_Partitions :: "ShardPartitionInfo list"

definition zero_ShardInfo :: ShardInfo where
  "zero_ShardInfo = \<lparr>si_ShardId = 0, si_ShardHash = [], si_Role = 0, si_ServiceState = 0, si_SeqNo = 0,
     si_BaseVersionHash = 0, si_Metrics = Map.empty, si_Partitions = []\<rparr>"

record NodeBasicInfo =
  nb_GroupName :: string
  nb_NodeId :: uint32
  nb_Host :: string
  nb_Port :: uint16
  nb_Master :: "bool option"
  nb_IsAvailable :: bool

definition zero_NodeBasicInfo :: NodeBasicInfo where
  "zero_NodeBasicInfo = \<lparr>nb_GroupName = [], nb_NodeId = 0, nb_Host = [], nb_Port = 0, nb_Master = None, nb_IsAvailable = False\<rparr>"

record GroupShardMetrics =
  gm_nodeInfo :: "uint64 \<rightharpoonup> NodeBasicInfo"
  gm_nodeShardInfo :: "(uint64, (string, ShardInfo) gomap) gomap"

definition zero_GroupShardMetrics :: GroupShardMetrics where
  "zero_GroupShardMetrics = \<lparr>gm_nodeInfo = Map.empty, gm_nodeShardInfo = []\<rparr>"

record ShardPullNodeMetricsResult =
  pr_groupName :: string
  pr_nodeId :: uint32
  pr_basicInfo :: NodeBasicInfo
  pr_shardMetrics :: "(string, ShardInfo) gomap"

type_synonym ShardMetricsManager = "(string, GroupShardMetrics) gomap"

section \<open>Hashes and names\<close>

definition GetNodeHash :: "cityhash \<Rightarrow> string \<Rightarrow> uint32 \<Rightarrow> uint64" where
  "GetNodeHash city grp nodeId = hash_str city grp (ucast nodeId)"

definition GetShardHash :: "cityhash \<Rightarrow> uint64 \<Rightarrow> uint32 \<Rightarrow> string" where
  "GetShardHash city nodeHash shardId =
     (let shardIdStr = Itoa (uint shardId) in FormatUint (unat (hash_str city shardIdStr nodeHash)))"

definition control_GetPartitionHash :: "cityhash \<Rightarrow> string \<Rightarrow> string \<Rightarrow> uint32 \<Rightarrow> uint64" where
  "control_GetPartitionHash city databaseName tableName partitionId =
     hash_str city tableName (hash_str city databaseName (ucast partitionId))"

definition GetTableHash :: "cityhash \<Rightarrow> string \<Rightarrow> string \<Rightarrow> uint64" where
  "GetTableHash city databaseName tableName = hash_str city tableName (hash_str city databaseName 0)"

definition metricsType :: "string list" where
  "metricsType = [''write_kps_min_1'', ''read_kps_min_1'', ''write_bytes_min_1'', ''read_bytes_min_1'', ''live-sst-files-size'']"

definition getMetricKey :: "uint32 \<Rightarrow> string \<Rightarrow> uint32 \<Rightarrow> string" where
  "getMetricKey nodeId metricName shardId =
     ''property=rocksdb.'' @ metricName @ '',shard_id='' @ Itoa (uint shardId) @ '',node_id='' @ Itoa (uint nodeId)"

definition getShardListUrl :: "string \<Rightarrow> string" where
  "getShardListUrl address = ''http://'' @ address @ ''/shard/list''"

definition getServerStatusUrl :: "string \<Rightarrow> string" where
  "getServerStatusUrl address = ''http://'' @ address @ ''/server/status''"

definition node_address :: "Node \<Rightarrow> string" where
  "node_address node = nd_Host node @ '':'' @ Itoa (uint (nd_Port node))"

section \<open>Pulling the metrics of a node\<close>

text \<open>The versions of the partitions are hashed in the order of \<open>sort.Sort\<close>, by falling hash; the sort is
  not stable, so \<open>srt\<close> is any function that sorts.\<close>

type_synonym partition_sort = "ShardPartitionInfo list \<Rightarrow> ShardPartitionInfo list"

fun version_hash :: "cityhash \<Rightarrow> ShardPartitionInfo list \<Rightarrow> uint64 \<Rightarrow> uint64" where
  "version_hash city [] h = h"
| "version_hash city (p # ps) h = version_hash city ps (hash_str city (pi_BaseVersion p) h)"

definition shard_of_entry :: "cityhash \<Rightarrow> partition_sort \<Rightarrow> uint64 \<Rightarrow> ShardListEntry \<Rightarrow> ShardInfo" where
  "shard_of_entry city srt nodeHash e =
     (let ps = srt (le_Partitions e) in
      \<lparr>si_ShardId = le_ShardId e, si_ShardHash = GetShardHash city nodeHash (le_ShardId e),
       si_Role = (if le_Role e = ''leader'' then Leader else Follower),
       si_ServiceState = (if le_Status e = ''available'' then Available else Unavailable),
       si_SeqNo = sum_list (map pi_SeqNo ps), si_BaseVersionHash = version_hash city ps 0,
       si_Metrics = Map.empty, si_Partitions = ps\<rparr>)"

fun shard_list_loop :: "cityhash \<Rightarrow> partition_sort \<Rightarrow> uint64 \<Rightarrow> ShardListEntry list \<Rightarrow> (string, ShardInfo) gomap \<Rightarrow> (string, ShardInfo) gomap" where
  "shard_list_loop city srt nodeHash [] m = m"
| "shard_list_loop city srt nodeHash (e # es) m =
     (let s = shard_of_entry city srt nodeHash e in
      shard_list_loop city srt nodeHash es (AList.update (si_ShardHash s) s m))"

definition getNodeShardInfoFromShardList ::
  "cityhash \<Rightarrow> partition_sort \<Rightarrow> (string \<Rightarrow> ShardListEntry list option) \<Rightarrow> string \<Rightarrow> Node \<Rightarrow> GroupShardMetrics" where
  "getNodeShardInfoFromShardList city srt http_list groupName node =
     (let nodeHash = GetNodeHash city groupName (nd_NodeId node) in
      case http_list (getShardListUrl (node_address node)) of
        None \<Rightarrow> zero_GroupShardMetrics
      | Some [] \<Rightarrow> zero_GroupShardMetrics
      | Some es \<Rightarrow> \<lparr>gm_nodeInfo = Map.empty, gm_nodeShardInfo = [(nodeHash, shard_list_loop city srt nodeHash es [])]\<rparr>)"

definition shard_metrics :: "uint32 \<Rightarrow> (string \<rightharpoonup> rat) \<Rightarrow> uint32 \<Rightarrow> (string \<rightharpoonup> rat)" where
  "shard_metrics nodeId stat shardId name =
     (if name \<in> set metricsType then
        (case stat (getMetricKey nodeId name shardId) of
           Some v \<Rightarrow> if v \<noteq> 0 then Some v else None | None \<Rightarrow> None)
      else None)"

definition getShardMetricsFromServerStatus ::
  "cityhash \<Rightarrow> ((string \<times> ShardInfo) list \<Rightarrow> (string \<times> ShardInfo) list) \<Rightarrow> (string \<Rightarrow> ServerStatus option) \<Rightarrow>
     Node \<Rightarrow> uint64 \<Rightarrow> (string, ShardInfo) gomap \<Rightarrow> bool \<times> (string, ShardInfo) gomap" where
  "getShardMetricsFromServerStatus city order http_status node nodeHash shardList =
     (case http_status (getServerStatusUrl (node_address node)) of
        None \<Rightarrow> (False, [])
      | Some st \<Rightarrow>
          (ss_ServerStatus st = ''available'',
           fold (\<lambda>(_, s). AList.update (GetShardHash city nodeHash (si_ShardId s))
                   (s\<lparr>si_Metrics := shard_metrics (nd_NodeId node) (ss_Stat st) (si_ShardId s)\<rparr>))
             (order shardList) []))"

definition pull_node ::
  "cityhash \<Rightarrow> partition_sort \<Rightarrow> ((string \<times> ShardInfo) list \<Rightarrow> (string \<times> ShardInfo) list) \<Rightarrow>
     (string \<Rightarrow> ShardListEntry list option) \<Rightarrow> (string \<Rightarrow> ServerStatus option) \<Rightarrow> string \<Rightarrow> Node \<Rightarrow> ShardPullNodeMetricsResult" where
  "pull_node city srt order http_list http_status groupName node =
     (let nodeHash = GetNodeHash city groupName (nd_NodeId node);
          shardList = (case map_of (gm_nodeShardInfo (getNodeShardInfoFromShardList city srt http_list groupName node)) nodeHash of
            None \<Rightarrow> [] | Some m \<Rightarrow> m);
          (isAvailable, metrics) = getShardMetricsFromServerStatus city order http_status node nodeHash shardList
      in \<lparr>pr_groupName = groupName, pr_nodeId = nd_NodeId node,
          pr_basicInfo = \<lparr>nb_GroupName = groupName, nb_NodeId = nd_NodeId node, nb_Host = nd_Host node, nb_Port = nd_Port node,
            nb_Master = Some (nd_Master node), nb_IsAvailable = isAvailable\<rparr>,
          pr_shardMetrics = metrics\<rparr>)"

text \<open>The results are merged in the order in which they arrive. The loop waits once per node, and a wait
  that times out merges nothing (\<open>None\<close>).\<close>

definition merge_result :: "cityhash \<Rightarrow> ShardPullNodeMetricsResult \<Rightarrow> ShardMetricsManager \<Rightarrow> ShardMetricsManager" where
  "merge_result city r m =
     (let nodeHash = GetNodeHash city (pr_groupName r) (pr_nodeId r);
          gm = (case map_of m (pr_groupName r) of None \<Rightarrow> zero_GroupShardMetrics | Some gm \<Rightarrow> gm)
      in AList.update (pr_groupName r)
           \<lparr>gm_nodeInfo = (gm_nodeInfo gm)(nodeHash \<mapsto> pr_basicInfo r),
            gm_nodeShardInfo = AList.update nodeHash (pr_shardMetrics r) (gm_nodeShardInfo gm)\<rparr> m)"

fun syncShardMetrics :: "cityhash \<Rightarrow> ShardPullNodeMetricsResult option list \<Rightarrow> ShardMetricsManager \<Rightarrow> ShardMetricsManager" where
  "syncShardMetrics city [] m = m"
| "syncShardMetrics city (None # rs) m = syncShardMetrics city rs m"
| "syncShardMetrics city (Some r # rs) m = syncShardMetrics city rs (merge_result city r m)"

section \<open>Queries\<close>

fun dc_shard_number :: "Dc list \<Rightarrow> string \<Rightarrow> uint32 \<Rightarrow> uint32" where
  "dc_shard_number [] dc n = n"
| "dc_shard_number (d # ds) dc n = (if dc_Name d = dc then dc_ShardNumber d else dc_shard_number ds dc n)"

fun shard_num_loop :: "Cluster list \<Rightarrow> string \<Rightarrow> uint32 \<Rightarrow> uint32" where
  "shard_num_loop [] dc n = n"
| "shard_num_loop (c # cs) dc n =
     (let n' = dc_shard_number (cl_Dcs c) dc n in
      if n' = 0 then cl_ShardTotal c else shard_num_loop cs dc n')"

definition GetShardNum :: "Cluster list \<Rightarrow> string \<Rightarrow> uint32" where
  "GetShardNum clusterList dc = shard_num_loop clusterList dc 0"

fun GetPartitionNumAndDc :: "Table list \<Rightarrow> string \<Rightarrow> string \<Rightarrow> uint32 \<times> string" where
  "GetPartitionNumAndDc [] databaseName tableName = (0, [])"
| "GetPartitionNumAndDc (t # ts) databaseName tableName =
     (if tb_DatabaseName t = databaseName \<and> tb_Name t = tableName then (tb_PartitionNumber t, tb_DcName t)
      else GetPartitionNumAndDc ts databaseName tableName)"

text \<open>The keys of \<open>uniqueShardList\<close> are the entries of \<open>shardList\<close>.\<close>

fun table_shards :: "cityhash \<Rightarrow> string \<Rightarrow> string \<Rightarrow> uint32 \<Rightarrow> uint32 list \<Rightarrow> int64 list \<Rightarrow> int64 list go" where
  "table_shards city databaseName tableName shardNumber [] shardList = Inr shardList"
| "table_shards city databaseName tableName shardNumber (partitionId # ps) shardList =
     go_bind (GetShardIdByShardNumber city (NewPartition databaseName tableName partitionId) shardNumber) (\<lambda>shardId.
       table_shards city databaseName tableName shardNumber ps
         (if shardId \<in> set shardList then shardList else shardList @ [shardId]))"

definition GetTableShardList :: "cityhash \<Rightarrow> Cluster list \<Rightarrow> Table list \<Rightarrow> string \<Rightarrow> string \<Rightarrow> int64 list go" where
  "GetTableShardList city clusterList tableList databaseName tableName =
     (let (partitionNumber, dc) = GetPartitionNumAndDc tableList databaseName tableName;
          shardNumber = GetShardNum clusterList dc
      in table_shards city databaseName tableName shardNumber (map of_nat [0..<unat partitionNumber]) [])"

definition add_at :: "'k \<Rightarrow> uint64 \<Rightarrow> ('k, uint64) gomap \<Rightarrow> ('k, uint64) gomap" where
  "add_at k v m = AList.update k ((case map_of m k of None \<Rightarrow> 0 | Some x \<Rightarrow> x) + v) m"

text \<open>What one partition of a cached shard adds to the size and the reads of its shard.\<close>

definition add_partition ::
  "string \<Rightarrow> string \<Rightarrow> int64 \<Rightarrow> ShardPartitionInfo \<Rightarrow> (int64, uint64) gomap \<times> (int64, uint64) gomap \<Rightarrow>
     (int64, uint64) gomap \<times> (int64, uint64) gomap" where
  "add_partition databaseName tableName shardId p sk =
     (if pi_DatabaseName p = databaseName \<and> pi_TableName p = tableName
      then (if pi_Role p = ''leader'' then add_at shardId (pi_Size p) (fst sk) else fst sk,
            add_at shardId (pi_ReadKps p) (snd sk))
      else sk)"

definition shard_partitions :: "cityhash \<Rightarrow> uint64 \<times> (string, ShardInfo) gomap \<Rightarrow> int64 \<Rightarrow> ShardPartitionInfo list" where
  "shard_partitions city node shardId =
     (case map_of (snd node) (GetShardHash city (fst node) (ucast shardId)) of
        None \<Rightarrow> [] | Some s \<Rightarrow> si_Partitions s)"

definition GetTableShardSizeAndKps ::
  "cityhash \<Rightarrow> ((string \<times> GroupShardMetrics) list \<Rightarrow> (string \<times> GroupShardMetrics) list) \<Rightarrow>
     ((uint64 \<times> (string, ShardInfo) gomap) list \<Rightarrow> (uint64 \<times> (string, ShardInfo) gomap) list) \<Rightarrow>
     Cluster list \<Rightarrow> Table list \<Rightarrow> string \<Rightarrow> string \<Rightarrow> ShardMetricsManager \<Rightarrow>
     ((int64, uint64) gomap \<times> (int64, uint64) gomap) go" where
  "GetTableShardSizeAndKps city og on clusterList tableList databaseName tableName m =
     go_bind (GetTableShardList city clusterList tableList databaseName tableName) (\<lambda>tableShardList.
       Inr (fold (\<lambda>(_, gm). fold (\<lambda>node. fold (\<lambda>shardId. fold (add_partition databaseName tableName shardId)
              (shard_partitions city node shardId)) tableShardList) (on (gm_nodeShardInfo gm))) (og m) ([], [])))"

definition IsNodeAvailable :: "cityhash \<Rightarrow> ShardMetricsManager \<Rightarrow> string \<Rightarrow> uint32 \<Rightarrow> bool" where
  "IsNodeAvailable city m groupName nodeId =
     (case map_of m groupName of
        None \<Rightarrow> False
      | Some gm \<Rightarrow> (case gm_nodeInfo gm (GetNodeHash city groupName nodeId) of Some v \<Rightarrow> nb_IsAvailable v | None \<Rightarrow> False))"

definition GetNodeMetricValue ::
  "cityhash \<Rightarrow> ((string \<times> ShardInfo) list \<Rightarrow> (string \<times> ShardInfo) list) \<Rightarrow> ShardMetricsManager \<Rightarrow> string \<Rightarrow> uint32 \<Rightarrow> string \<Rightarrow> rat" where
  "GetNodeMetricValue city order m groupName nodeId metricName =
     (case map_of m groupName of
        None \<Rightarrow> 0
      | Some gm \<Rightarrow>
          (case map_of (gm_nodeShardInfo gm) (GetNodeHash city groupName nodeId) of
             None \<Rightarrow> 0
           | Some shards \<Rightarrow>
               fold (\<lambda>(_, s) acc. case si_Metrics s metricName of None \<Rightarrow> acc | Some v \<Rightarrow> fl (acc + v)) (order shards) 0))"

definition GetNodeShardInfo ::
  "cityhash \<Rightarrow> ShardMetricsManager \<Rightarrow> string \<Rightarrow> uint32 \<Rightarrow> NodeBasicInfo \<times> (string, ShardInfo) gomap" where
  "GetNodeShardInfo city m groupName nodeId =
     (let gm = (case map_of m groupName of None \<Rightarrow> zero_GroupShardMetrics | Some gm \<Rightarrow> gm);
          nodeHash = GetNodeHash city groupName nodeId
      in (case gm_nodeInfo gm nodeHash of None \<Rightarrow> zero_NodeBasicInfo | Some b \<Rightarrow> b,
          case map_of (gm_nodeShardInfo gm) nodeHash of None \<Rightarrow> [] | Some s \<Rightarrow> s))"

text \<open>All cached shards, in the order of the nested ranges.\<close>

definition cached_shards ::
  "((string \<times> GroupShardMetrics) list \<Rightarrow> (string \<times> GroupShardMetrics) list) \<Rightarrow>
     ((uint64 \<times> (string, ShardInfo) gomap) list \<Rightarrow> (uint64 \<times> (string, ShardInfo) gomap) list) \<Rightarrow>
     ((string \<times> ShardInfo) list \<Rightarrow> (string \<times> ShardInfo) list) \<Rightarrow> ShardMetricsManager \<Rightarrow> ShardInfo list" where
  "cached_shards og on os m =
     concat (map (\<lambda>(_, gm). concat (map (\<lambda>(_, ss). map snd (os ss)) (on (gm_nodeShardInfo gm)))) (og m))"

definition getShardMetricsFromCacheById where
  "getShardMetricsFromCacheById og on os m shardId =
     (case find (\<lambda>s. si_ShardId s = shardId) (cached_shards og on os m) of None \<Rightarrow> zero_ShardInfo | Some s \<Rightarrow> s)"

definition GetSpecShardNum where
  "GetSpecShardNum og on os m shardId shardRole =
     (of_nat (length (filter (\<lambda>s. si_ShardId s = shardId \<and> si_Role s = shardRole) (cached_shards og on os m))) :: uint32)"

fun checkShardExist :: "uint32 \<Rightarrow> ShardInfo list \<Rightarrow> bool" where
  "checkShardExist shardId [] = False"
| "checkShardExist shardId (s # ss) = (si_ShardId s = shardId \<or> checkShardExist shardId ss)"

section \<open>The shards of a table\<close>

lemma getShardId_returns: "\<exists>s. getShardId h n = Inr s"
proof -
  have "n \<noteq> 0 \<Longrightarrow> (ucast n :: int64) \<noteq> 0" by (metis sint_ucast32 sint_0 uint_0_iff)
  then show ?thesis by (simp add: getShardId_def go_rem64_def)
qed

lemma table_shards_spec:
  assumes "distinct acc"
  shows "\<exists>ss. table_shards city db tb n ps acc = Inr ss \<and> distinct ss \<and>
    set ss = set acc \<union> {s. \<exists>p\<in>set ps. GetShardIdByShardNumber city (NewPartition db tb p) n = Inr s}"
  using assms
proof (induction ps arbitrary: acc)
  case (Cons p ps)
  obtain s where s: "GetShardIdByShardNumber city (NewPartition db tb p) n = Inr s"
    using getShardId_returns by (auto simp: GetShardIdByShardNumber_def)
  let ?acc = "if s \<in> set acc then acc else acc @ [s]"
  have "distinct ?acc" using Cons.prems by simp
  from Cons.IH [OF this] show ?case using s by (auto split: if_splits)
qed simp

text \<open>The shard list of a table is the list, without repetition, of the shards its partitions belong to.\<close>

theorem GetTableShardList_shards:
  assumes "GetPartitionNumAndDc tables db tb = (n, dc)"
  shows "\<exists>ss. GetTableShardList city clusters tables db tb = Inr ss \<and> distinct ss \<and>
    set ss = {s. \<exists>i < unat n. GetShardIdByShardNumber city (NewPartition db tb (of_nat i)) (GetShardNum clusters dc) = Inr s}"
proof -
  obtain ss where "table_shards city db tb (GetShardNum clusters dc) (map of_nat [0..<unat n]) [] = Inr ss" "distinct ss"
    and ss: "set ss = {s. \<exists>p\<in>set (map of_nat [0..<unat n]). GetShardIdByShardNumber city (NewPartition db tb p) (GetShardNum clusters dc) = Inr s}"
    using table_shards_spec [of "[]" city db tb "GetShardNum clusters dc" "map of_nat [0..<unat n]"] by auto
  moreover have "set ss = {s. \<exists>i < unat n. GetShardIdByShardNumber city (NewPartition db tb (of_nat i)) (GetShardNum clusters dc) = Inr s}"
    unfolding ss by (simp add: Bex_def)
  ultimately show ?thesis using assms by (simp add: GetTableShardList_def)
qed

definition example_tables :: "Table list" where
  "example_tables = [\<lparr>tb_Name = ''t'', tb_DatabaseName = ''db'', tb_PartitionNumber = 4, tb_DcName = ''dc''\<rparr>]"

theorem GetTableShardList_shards_witness:
  "\<exists>ss. GetTableShardList (\<lambda>s n seed. seed) [] example_tables ''db'' ''t'' = Inr ss \<and> distinct ss \<and>
    set ss = {s. \<exists>i < unat (4 :: uint32). GetShardIdByShardNumber (\<lambda>s n seed. seed) (NewPartition ''db'' ''t'' (of_nat i))
      (GetShardNum [] ''dc'') = Inr s}"
  by (rule GetTableShardList_shards) (simp add: example_tables_def)

section \<open>The cache after a synchronisation\<close>

lemma GetNodeShardInfo_merge:
  "GetNodeShardInfo city (merge_result city r m) g n =
     (if pr_groupName r = g \<and> GetNodeHash city g (pr_nodeId r) = GetNodeHash city g n
      then (pr_basicInfo r, pr_shardMetrics r) else GetNodeShardInfo city m g n)"
  by (auto simp: GetNodeShardInfo_def merge_result_def Let_def update_conv' zero_GroupShardMetrics_def split: option.splits)

definition results_for :: "cityhash \<Rightarrow> string \<Rightarrow> uint32 \<Rightarrow> ShardPullNodeMetricsResult option list \<Rightarrow> ShardPullNodeMetricsResult list" where
  "results_for city g n rs =
     filter (\<lambda>r. pr_groupName r = g \<and> GetNodeHash city g (pr_nodeId r) = GetNodeHash city g n) (List.map_filter id rs)"

text \<open>After a synchronisation the cache answers for a node with the last result that arrived for it, and
  with what it held before if every pull of the node timed out, as long as no other node of the group has
  the same hash.\<close>

theorem syncShardMetrics_last:
  "GetNodeShardInfo city (syncShardMetrics city rs m) g n =
     (case last_opt (results_for city g n rs) of
        None \<Rightarrow> GetNodeShardInfo city m g n
      | Some r \<Rightarrow> (pr_basicInfo r, pr_shardMetrics r))"
proof (induction city rs m rule: syncShardMetrics.induct)
  case (3 city r rs m)
  then show ?case
    by (auto simp: GetNodeShardInfo_merge results_for_def map_filter_simps split: option.split)
qed (simp_all add: results_for_def map_filter_simps)

section \<open>Sums over the cache\<close>

definition get0 :: "('k, uint64) gomap \<Rightarrow> 'k \<Rightarrow> uint64" where
  "get0 m k = (case map_of m k of None \<Rightarrow> 0 | Some x \<Rightarrow> x)"

lemma get0_add_at: "get0 (add_at k v m) k' = get0 m k' + (if k = k' then v else 0)"
  by (simp add: get0_def add_at_def update_conv')

text \<open>What one partition adds to the size and to the reads of its shard.\<close>

definition size_of :: "string \<Rightarrow> string \<Rightarrow> ShardPartitionInfo \<Rightarrow> uint64" where
  "size_of db tb p = (if pi_DatabaseName p = db \<and> pi_TableName p = tb \<and> pi_Role p = ''leader'' then pi_Size p else 0)"

definition kps_of :: "string \<Rightarrow> string \<Rightarrow> ShardPartitionInfo \<Rightarrow> uint64" where
  "kps_of db tb p = (if pi_DatabaseName p = db \<and> pi_TableName p = tb then pi_ReadKps p else 0)"

lemma get0_add_partition:
  "get0 (fst (add_partition db tb s p sk)) s' = get0 (fst sk) s' + (if s = s' then size_of db tb p else 0)"
  "get0 (snd (add_partition db tb s p sk)) s' = get0 (snd sk) s' + (if s = s' then kps_of db tb p else 0)"
  by (simp_all add: add_partition_def size_of_def kps_of_def get0_add_at)

text \<open>A fold of steps that each add to an observation adds the sum.\<close>

lemma fold_adds:
  assumes "\<And>x s. obs (f x s) = obs s + (w x :: uint64)"
  shows "obs (fold f xs s) = obs s + sum_list (map w xs)"
  by (induction xs arbitrary: s) (simp_all add: assms add.assoc)

lemma sum_list_if_one:
  "distinct ss \<Longrightarrow> sum_list (map (\<lambda>s. if s = s' then (v :: uint64) else 0) ss) = (if s' \<in> set ss then v else 0)"
  by (induction ss) auto

definition shard_total :: "(ShardPartitionInfo \<Rightarrow> uint64) \<Rightarrow> cityhash \<Rightarrow> ShardMetricsManager \<Rightarrow> int64 \<Rightarrow> uint64" where
  "shard_total w city m s =
     (\<Sum>(_, gm) \<leftarrow> m. \<Sum>node \<leftarrow> gm_nodeShardInfo gm. \<Sum>p \<leftarrow> shard_partitions city node s. w p)"

lemma sum_list_order:
  assumes "is_order order"
  shows "sum_list (map (f :: 'a \<Rightarrow> uint64) (order xs)) = sum_list (map f xs)"
  using is_orderD(1) [OF assms, of xs] by (simp add: sum_mset_sum_list [symmetric])

lemma fold_cache:
  assumes "is_order og" and "is_order on" and "distinct ss"
    and step: "\<And>s p sk. obs (add_partition db tb s p sk) = obs sk + (if s = s' then w p else 0)"
  shows "obs (fold (\<lambda>(_, gm). fold (\<lambda>node. fold (\<lambda>s. fold (add_partition db tb s) (shard_partitions city node s)) ss)
      (on (gm_nodeShardInfo gm))) (og m) sk) = obs sk + (if s' \<in> set ss then shard_total w city m s' else 0)"
proof -
  have 1: "obs (fold (add_partition db tb s) ps sk) = obs sk + (if s = s' then sum_list (map w ps) else 0)" for s ps sk
  proof -
    have "obs (fold (add_partition db tb s) ps sk) = obs sk + (\<Sum>p\<leftarrow>ps. if s = s' then w p else 0)"
      by (rule fold_adds) (rule step)
    then show ?thesis by (cases "s = s'") simp_all
  qed
  have 2: "obs (fold (\<lambda>s. fold (add_partition db tb s) (shard_partitions city node s)) ss sk) =
      obs sk + (if s' \<in> set ss then sum_list (map w (shard_partitions city node s')) else 0)" for node sk
  proof -
    have "obs (fold (\<lambda>s. fold (add_partition db tb s) (shard_partitions city node s)) ss sk) =
      obs sk + (\<Sum>s\<leftarrow>ss. if s = s' then sum_list (map w (shard_partitions city node s)) else 0)"
      by (rule fold_adds) (rule 1)
    also have "(\<Sum>s\<leftarrow>ss. if s = s' then sum_list (map w (shard_partitions city node s)) else 0) =
      (\<Sum>s\<leftarrow>ss. if s = s' then sum_list (map w (shard_partitions city node s')) else 0)"
      by (intro arg_cong [where f = sum_list] map_cong) auto
    finally show ?thesis using assms(3) by (simp add: sum_list_if_one)
  qed
  let ?v = "\<lambda>node. if s' \<in> set ss then sum_list (map w (shard_partitions city node s')) else 0"
  have 3: "obs ((case x of (_, gm) \<Rightarrow> fold (\<lambda>node. fold (\<lambda>s. fold (add_partition db tb s) (shard_partitions city node s)) ss)
      (on (gm_nodeShardInfo gm))) sk) = obs sk + (\<Sum>node\<leftarrow>gm_nodeShardInfo (snd x). ?v node)" for x sk
  proof -
    have "obs (fold (\<lambda>node. fold (\<lambda>s. fold (add_partition db tb s) (shard_partitions city node s)) ss)
      (on (gm_nodeShardInfo (snd x))) sk) = obs sk + (\<Sum>node\<leftarrow>on (gm_nodeShardInfo (snd x)). ?v node)"
      by (rule fold_adds) (rule 2)
    then show ?thesis by (simp only: case_prod_beta sum_list_order [OF assms(2)])
  qed
  have "obs (fold (\<lambda>(_, gm). fold (\<lambda>node. fold (\<lambda>s. fold (add_partition db tb s) (shard_partitions city node s)) ss)
      (on (gm_nodeShardInfo gm))) (og m) sk) = obs sk + (\<Sum>x\<leftarrow>og m. \<Sum>node\<leftarrow>gm_nodeShardInfo (snd x). ?v node)"
    by (rule fold_adds) (rule 3)
  then show ?thesis
    unfolding sum_list_order [OF assms(1)] by (cases "s' \<in> set ss") (simp_all add: shard_total_def case_prod_unfold)
qed

text \<open>C17. The size and the reads that are reported for a shard of a table are the sums over all cached partitions
  of the table in that shard, the sizes over the leaders only. They do not depend on the order of the
  cache's maps.\<close>

theorem GetTableShardSizeAndKps_sums:
  assumes "is_order og" and "is_order on"
    and "GetTableShardList city clusters tables db tb = Inr ss"
  shows "\<exists>sizes kps. GetTableShardSizeAndKps city og on clusters tables db tb m = Inr (sizes, kps) \<and>
    (\<forall>s. get0 sizes s = (if s \<in> set ss then shard_total (size_of db tb) city m s else 0) \<and>
         get0 kps s = (if s \<in> set ss then shard_total (kps_of db tb) city m s else 0))"
proof -
  have d: "distinct ss"
    using table_shards_spec [of "[]"] assms(3)
    by (auto simp: GetTableShardList_def split: prod.splits) (metis Inr_inject distinct.simps(1))
  define r where "r = fold (\<lambda>(_, gm). fold (\<lambda>node. fold (\<lambda>s. fold (add_partition db tb s) (shard_partitions city node s)) ss)
      (on (gm_nodeShardInfo gm))) (og m) ([], [])"
  have "get0 (fst r) s = (if s \<in> set ss then shard_total (size_of db tb) city m s else 0)" for s
    unfolding r_def by (subst fold_cache [OF assms(1,2) d, where obs = "\<lambda>sk. get0 (fst sk) s"])
      (rule get0_add_partition, simp add: get0_def)
  moreover have "get0 (snd r) s = (if s \<in> set ss then shard_total (kps_of db tb) city m s else 0)" for s
    unfolding r_def by (subst fold_cache [OF assms(1,2) d, where obs = "\<lambda>sk. get0 (snd sk) s"])
      (rule get0_add_partition, simp add: get0_def)
  moreover have "GetTableShardSizeAndKps city og on clusters tables db tb m = Inr (fst r, snd r)"
    using assms(3) by (simp add: GetTableShardSizeAndKps_def r_def)
  ultimately show ?thesis by blast
qed

definition example_clusters :: "Cluster list" where
  "example_clusters = [\<lparr>cl_Name = ''laser'', cl_ShardTotal = 2, cl_Dcs = []\<rparr>]"

definition example_metrics :: ShardMetricsManager where
  "example_metrics = [(''g'', \<lparr>gm_nodeInfo = Map.empty, gm_nodeShardInfo = [(7, [(''7'', zero_ShardInfo\<lparr>si_Partitions :=
     [\<lparr>pi_SeqNo = 1, pi_PartitionId = 0, pi_Hash = 0, pi_DatabaseName = ''db'', pi_TableName = ''t'', pi_Role = ''leader'',
       pi_BaseVersion = [], pi_Size = 10, pi_ReadKps = 3, pi_WriteKps = 0, pi_ReadBytes = 0, pi_WriteBytes = 0\<rparr>]\<rparr>)])]\<rparr>)]"

theorem GetTableShardSizeAndKps_sums_witness:
  "\<exists>sizes kps. GetTableShardSizeAndKps (\<lambda>s n seed. seed) rev rev example_clusters example_tables ''db'' ''t'' example_metrics = Inr (sizes, kps) \<and>
    get0 sizes 1 = 10 \<and> get0 kps 1 = 3 \<and> get0 kps 5 = 0"
proof -
  have "GetTableShardList (\<lambda>s n seed. seed) example_clusters example_tables ''db'' ''t'' = Inr [0, 1]" by code_simp
  moreover have "shard_total (size_of ''db'' ''t'') (\<lambda>s n seed. seed) example_metrics 1 = 10"
    "shard_total (kps_of ''db'' ''t'') (\<lambda>s n seed. seed) example_metrics 1 = 3" by code_simp+
  ultimately show ?thesis
    using GetTableShardSizeAndKps_sums [OF is_order_rev is_order_rev, of "\<lambda>s n seed. seed" example_clusters example_tables "''db''" "''t''"
        "[0, 1]" example_metrics] by fastforce
qed

end
