(* ===== verification/Laser_ShardStatus.thy ===== *)
theory Laser_ShardStatus
  imports Laser_Metrics
begin

text \<open>
  The state of the shards on the nodes, from \<^verbatim>\<open>src/control/service/shard_status.go\<close>: the set of nodes that
  is watched, the periodic reading of the metrics cache, and the comparison of each follower with its
  leader. The ticker and the goroutine of \<open>start\<close> are not modelled; a step is one \<open>syncShardList\<close>.
\<close>

record ShardStatus =
  st_ShardId :: uint32
  st_GroupName :: string
  st_NodeId :: uint32
  st_Role :: ShardRole
  st_SeqNo :: uint64
  st_BaseVersionHash :: uint64
  st_ServiceState :: ShardServiceState
  st_ShardHash :: string
  st_NoDiff :: bool
  st_HasLeader :: bool

record NodeHostInfo =
  nh_GroupName :: string
  nh_NodeId :: uint32
  nh_Host :: string
  nh_Port :: uint16

record ShardRelation =
  rel_Leader :: string
  rel_Follower :: "string list"

record ShardStatusManager =
  ssm_shards :: "(string, ShardStatus) gomap"
  ssm_shardRelations :: "(uint32, ShardRelation) gomap"
  ssm_nodes :: "(uint64, NodeHostInfo) gomap"

definition NewShardStatusManager :: ShardStatusManager where
  "NewShardStatusManager = \<lparr>ssm_shards = [], ssm_shardRelations = [], ssm_nodes = []\<rparr>"

definition getNodeHash :: "cityhash \<Rightarrow> NodeHostInfo \<Rightarrow> uint64" where
  "getNodeHash city node = GetNodeHash city (nh_GroupName node) (nh_NodeId node)"

definition SetNodes :: "cityhash \<Rightarrow> NodeHostInfo list \<Rightarrow> ShardStatusManager \<Rightarrow> ShardStatusManager" where
  "SetNodes city nodes m = m\<lparr>ssm_nodes := fold (\<lambda>node. AList.update (getNodeHash city node) node) nodes []\<rparr>"

definition AddNodes :: "cityhash \<Rightarrow> NodeHostInfo list \<Rightarrow> ShardStatusManager \<Rightarrow> ShardStatusManager" where
  "AddNodes city nodes m = m\<lparr>ssm_nodes := fold (\<lambda>node. AList.update (getNodeHash city node) node) nodes (ssm_nodes m)\<rparr>"

definition DeleteNodes :: "cityhash \<Rightarrow> NodeHostInfo list \<Rightarrow> ShardStatusManager \<Rightarrow> ShardStatusManager" where
  "DeleteNodes city nodes m = m\<lparr>ssm_nodes := fold (\<lambda>node. AList.delete (getNodeHash city node)) nodes (ssm_nodes m)\<rparr>"

section \<open>Comparing a follower with its leader\<close>

text \<open>The difference is one of unsigned numbers, whose absolute value is itself. The rate is a quotient by
  \<open>SeqNo + 1\<close>; if that wraps to zero, the quotient is infinite or not a number, and the comparison
  with the rate fails.\<close>

definition diff_small :: "uint64 \<Rightarrow> uint64 \<Rightarrow> bool" where
  "diff_small seqNo leaderSeqNo =
     (let diffValue = float_of_uint (seqNo - leaderSeqNo);
          divisor = float_of_uint (seqNo + 1)
      in (divisor \<noteq> 0 \<and> fl_mult (fl_div diffValue divisor) 100 \<le> 3) \<or> diffValue < 1000)"

definition compare_follower :: "ShardStatus \<Rightarrow> ShardStatus \<Rightarrow> ShardStatus" where
  "compare_follower leader s =
     s\<lparr>st_NoDiff := (st_BaseVersionHash s \<noteq> st_BaseVersionHash leader \<or> diff_small (st_SeqNo s) (st_SeqNo leader)),
       st_HasLeader := True\<rparr>"

definition zero_ShardStatus :: ShardStatus where
  "zero_ShardStatus = \<lparr>st_ShardId = 0, st_GroupName = [], st_NodeId = 0, st_Role = 0, st_SeqNo = 0, st_BaseVersionHash = 0,
     st_ServiceState = 0, st_ShardHash = [], st_NoDiff = False, st_HasLeader = False\<rparr>"

definition collected :: "(string, ShardStatus) gomap \<Rightarrow> string \<Rightarrow> ShardStatus" where
  "collected coll h = (case map_of coll h of None \<Rightarrow> zero_ShardStatus | Some s \<Rightarrow> s)"

definition compare_relation :: "ShardRelation \<Rightarrow> (string, ShardStatus) gomap \<Rightarrow> (string, ShardStatus) gomap" where
  "compare_relation rel coll =
     (case map_of coll (rel_Leader rel) of
        None \<Rightarrow> fold (\<lambda>h c. AList.update h ((collected c h)\<lparr>st_HasLeader := False\<rparr>) c) (rel_Follower rel) coll
      | Some leader \<Rightarrow> fold (\<lambda>h c. AList.update h (compare_follower leader (collected c h)) c) (rel_Follower rel) coll)"

section \<open>One round\<close>

type_synonym ShardNodeGroup = "(uint32, ShardStatus) gomap"

record status_orders =
  o_nodes :: "(uint64 \<times> ShardNodeGroup) list \<Rightarrow> (uint64 \<times> ShardNodeGroup) list"
  o_group :: "ShardNodeGroup \<Rightarrow> ShardNodeGroup"
  o_vector :: "(uint32 \<times> ShardStatus list) list \<Rightarrow> (uint32 \<times> ShardStatus list) list"
  o_relations :: "(uint32 \<times> ShardRelation) list \<Rightarrow> (uint32 \<times> ShardRelation) list"
  o_hosts :: "(uint64 \<times> NodeHostInfo) list \<Rightarrow> (uint64 \<times> NodeHostInfo) list"
  o_infos :: "(string \<times> ShardInfo) list \<Rightarrow> (string \<times> ShardInfo) list"

definition add_to_relation :: "ShardStatus \<Rightarrow> ShardRelation \<Rightarrow> ShardRelation" where
  "add_to_relation s rel =
     (if st_Role s = Leader then rel\<lparr>rel_Leader := st_ShardHash s\<rparr>
      else rel\<lparr>rel_Follower := rel_Follower rel @ [st_ShardHash s]\<rparr>)"

definition shard_relation :: "ShardStatus list \<Rightarrow> ShardRelation" where
  "shard_relation shardList = fold add_to_relation shardList \<lparr>rel_Leader = [], rel_Follower = []\<rparr>"

definition listed :: "status_orders \<Rightarrow> (uint64, ShardNodeGroup) gomap \<Rightarrow> (uint32 \<times> ShardStatus) list" where
  "listed od shards = concat (map (\<lambda>(_, g). o_group od g) (o_nodes od shards))"

definition processShards :: "status_orders \<Rightarrow> (uint64, ShardNodeGroup) gomap \<Rightarrow> ShardStatusManager \<Rightarrow> ShardStatusManager" where
  "processShards od shards m =
     (let shardVector = append_all (listed od shards) [];
          shardCollections = fold (\<lambda>(_, s). AList.update (st_ShardHash s) s) (listed od shards) [];
          shardRelations = fold (\<lambda>(i, ss). AList.update i (shard_relation ss)) (o_vector od shardVector) []
      in m\<lparr>ssm_shardRelations := shardRelations,
           ssm_shards := fold (\<lambda>(_, rel). compare_relation rel) (o_relations od shardRelations) shardCollections\<rparr>)"

definition status_of_info :: "NodeBasicInfo \<Rightarrow> string \<Rightarrow> ShardInfo \<Rightarrow> ShardStatus" where
  "status_of_info b shardHash info =
     \<lparr>st_ShardId = si_ShardId info, st_GroupName = nb_GroupName b, st_NodeId = nb_NodeId b, st_Role = si_Role info,
      st_SeqNo = si_SeqNo info, st_BaseVersionHash = si_BaseVersionHash info, st_ServiceState = si_ServiceState info,
      st_ShardHash = shardHash, st_NoDiff = False, st_HasLeader = False\<rparr>"

definition node_shards :: "cityhash \<Rightarrow> status_orders \<Rightarrow> ShardMetricsManager \<Rightarrow> NodeHostInfo \<Rightarrow> ShardNodeGroup" where
  "node_shards city od metrics node =
     (let (b, infos) = GetNodeShardInfo city metrics (nh_GroupName node) (nh_NodeId node)
      in fold (\<lambda>(h, info). AList.update (si_ShardId info) (status_of_info b h info)) (o_infos od infos) [])"

definition syncShardList :: "cityhash \<Rightarrow> status_orders \<Rightarrow> ShardMetricsManager \<Rightarrow> ShardStatusManager \<Rightarrow> ShardStatusManager" where
  "syncShardList city od metrics m =
     processShards od (fold (\<lambda>(h, node). AList.update h (node_shards city od metrics node)) (o_hosts od (ssm_nodes m)) []) m"

definition GetShardStatus :: "ShardStatusManager \<Rightarrow> (string, ShardStatus) gomap \<times> (uint32, ShardRelation) gomap" where
  "GetShardStatus m = (ssm_shards m, ssm_shardRelations m)"

section \<open>How far a follower may lag\<close>

lemma unat64_less: "unat (x :: uint64) < 18446744073709551616"
  by (rule order.strict_trans2 [OF unsigned_less]) simp

text \<open>A follower that is ahead of its leader by less than a thousand is close; one that is behind is not,
  however little it is behind.\<close>

lemma diff_small_ahead:
  assumes "s - leader < 1000"
  shows "diff_small s leader"
proof -
  have "unat (s - leader) < 1000" using assms by (simp add: word_less_nat_alt)
  then show ?thesis by (simp add: diff_small_def float_of_uint_def fl_small Let_def del: of_nat_unat)
qed

lemma unat_minus_wrap: "s < (l :: uint64) \<Longrightarrow> unat (s - l) = 18446744073709551616 + unat s - unat l"
  by (simp add: unat_sub_if_size word_less_nat_alt word_size)

lemma fl_behind:
  assumes "1024 \<le> d" and "0 < q" and "q \<le> d"
  shows "\<not> fl d < 1000" and "\<not> fl (fl (fl d / fl q) * 100) \<le> 3"
proof -
  have d: "0 < d" using assms by simp
  have "exp2 10 \<le> fl d" by (rule fl_ge_exp2) (use assms(1) in \<open>simp add: exp2_def\<close>)
  then show "\<not> fl d < 1000" by (simp add: exp2_def)
  have "fl q \<le> 2 * q" "0 < fl q" using fl_double [OF assms(2)] fl_half [OF assms(2)] assms(2) by auto
  moreover have "d / 2 < fl d" using fl_half [OF d] .
  ultimately have "fl q \<le> 4 * fl d" using assms(3) by linarith
  then have "exp2 (- 2) \<le> fl d / fl q" using \<open>0 < fl q\<close> by (simp add: exp2_def field_simps)
  then have "exp2 (- 2) \<le> fl (fl d / fl q)" by (rule fl_ge_exp2)
  then have "exp2 4 \<le> fl (fl d / fl q) * 100" by (simp add: exp2_def)
  then have "exp2 4 \<le> fl (fl (fl d / fl q) * 100)" by (rule fl_ge_exp2)
  then show "\<not> fl (fl (fl d / fl q) * 100) \<le> 3" by (simp add: exp2_def)
qed

lemma diff_small_behind:
  assumes "s < leader" and "unat leader - unat s \<le> 18446744073709550592"
  shows "\<not> diff_small s leader"
proof -
  let ?d = "unat (s - leader)" and ?q = "unat (s + 1)"
  have lt: "unat s < unat leader" using assms(1) by (simp add: word_less_nat_alt)
  have d: "?d = 18446744073709551616 + unat s - unat leader" using assms(1) by (rule unat_minus_wrap)
  have q: "?q = unat s + 1" using lt unat64_less [of leader] by (simp add: unat_plus_if')
  have "1024 \<le> ?d" using assms(2) lt unat64_less [of leader] d by linarith
  moreover have "?q \<le> ?d" using lt unat64_less [of leader] d q by linarith
  ultimately have "of_nat 1024 \<le> (of_nat ?d :: rat)" "0 < (of_nat ?q :: rat)" "of_nat ?q \<le> (of_nat ?d :: rat)"
    using q by (simp_all only: of_nat_le_iff of_nat_0_less_iff zero_less_Suc add_gr_0 zero_less_one simp_thms)
  then have "1024 \<le> (of_nat ?d :: rat)" "0 < (of_nat ?q :: rat)" "of_nat ?q \<le> (of_nat ?d :: rat)"
    by (simp_all only: of_nat_numeral)
  from fl_behind [OF this] show ?thesis
    by (simp add: diff_small_def float_of_uint_def fl_mult_def fl_div_def Let_def del: of_nat_unat)
qed

section \<open>The result of a round\<close>

definition orders_ok :: "status_orders \<Rightarrow> bool" where
  "orders_ok od \<longleftrightarrow> is_order (o_nodes od) \<and> is_order (o_group od) \<and> is_order (o_vector od) \<and>
     is_order (o_relations od) \<and> is_order (o_hosts od) \<and> is_order (o_infos od)"

lemma listed_mset:
  assumes "orders_ok od"
  shows "mset (listed od shards) = mset (concat (map snd shards))"
proof -
  have "mset (concat (map (\<lambda>(_, g). o_group od g) gs)) = mset (concat (map snd gs))" for gs :: "(uint64 \<times> ShardNodeGroup) list"
    using assms by (induction gs) (auto simp: orders_ok_def is_order_def)
  moreover have "mset (concat (map snd (o_nodes od shards))) = mset (concat (map snd shards))"
    using assms by (simp add: orders_ok_def is_order_def mset_concat sum_mset_sum_list [symmetric])
  ultimately show ?thesis by (simp add: listed_def)
qed

text \<open>Comparing twice is comparing once, so the order of the followers does not matter.\<close>

lemma fold_collected:
  assumes "\<And>s. g (g s) = g s"
  shows "map_of (fold (\<lambda>h c. AList.update h (g (collected c h)) c) hs coll) h =
    (if h \<in> set hs then Some (g (collected coll h)) else map_of coll h)"
  by (induction hs arbitrary: coll) (auto simp: collected_def update_conv' assms)

lemma compare_relation_lookup:
  "map_of (compare_relation rel coll) h =
     (if h \<in> set (rel_Follower rel) then
        Some (case map_of coll (rel_Leader rel) of
                None \<Rightarrow> (collected coll h)\<lparr>st_HasLeader := False\<rparr>
              | Some leader \<Rightarrow> compare_follower leader (collected coll h))
      else map_of coll h)"
proof -
  have "compare_follower leader (compare_follower leader s) = compare_follower leader s" for leader s
    by (simp add: compare_follower_def)
  then show ?thesis by (auto simp: compare_relation_def fold_collected split: option.split)
qed

lemma compare_others:
  "(\<forall>ir\<in>set rs. h \<notin> set (rel_Follower (snd ir))) \<Longrightarrow>
     map_of (fold (\<lambda>(_, rel). compare_relation rel) rs coll) h = map_of coll h"
  by (induction rs arbitrary: coll) (auto simp: compare_relation_lookup)

lemma shard_relation_fields:
  "rel_Follower (fold add_to_relation ss r) = rel_Follower r @ map st_ShardHash (filter (\<lambda>s. st_Role s \<noteq> Leader) ss)"
  "rel_Leader (fold add_to_relation ss r) =
     (case last_opt (filter (\<lambda>s. st_Role s = Leader) ss) of None \<Rightarrow> rel_Leader r | Some l \<Rightarrow> st_ShardHash l)"
  by (induction ss arbitrary: r) (auto simp: add_to_relation_def split: option.split)

lemma fold_update_lookup:
  "distinct (map k xs) \<Longrightarrow> x \<in> set xs \<Longrightarrow> map_of (fold (\<lambda>x. AList.update (k x) (v x)) xs m) (k x) = Some (v x)"
proof (induction xs arbitrary: m)
  case (Cons y ys)
  have "k z \<notin> k ` set ys \<Longrightarrow> map_of (fold (\<lambda>x. AList.update (k x) (v x)) ys m) (k z) = map_of m (k z)" for z m
    by (induction ys arbitrary: m) (auto simp: update_conv')
  with Cons show ?case by (auto simp: update_conv')
qed simp

lemma fold_update_keys:
  "set (map fst (fold (\<lambda>x. AList.update (k x) (v x)) xs m)) = set (map fst m) \<union> k ` set xs"
  "distinct (map fst m) \<Longrightarrow> distinct (map fst (fold (\<lambda>x. AList.update (k x) (v x)) xs m))"
  by (induction xs arbitrary: m) (auto simp: dom_update distinct_update)

lemma processShards_relation:
  assumes od: "orders_ok od" and "(i, s) \<in> set (listed od shards)"
  shows "map_of (ssm_shardRelations (processShards od shards m)) i = Some (shard_relation (values_at i (listed od shards)))"
proof -
  let ?vec = "append_all (listed od shards) []"
  have d: "distinct (map fst (o_vector od ?vec))"
    using od distinct_append_all [of "[]"] by (simp add: orders_ok_def is_orderD)
  have "values_at i (listed od shards) \<noteq> []"
    using assms(2) by (force simp: values_at_eq_Nil)
  then have "(i, values_at i (listed od shards)) \<in> set ?vec"
    by (simp add: map_of_append_all map_of_SomeD)
  then have "(i, values_at i (listed od shards)) \<in> set (o_vector od ?vec)"
    using od by (simp add: orders_ok_def is_orderD)
  from fold_update_lookup [OF d this, where v = "\<lambda>iss. shard_relation (snd iss)" and m = "[]"] show ?thesis
    by (simp add: processShards_def Let_def case_prod_unfold)
qed

lemma processShards_relations:
  assumes "orders_ok od" and "(i, rel) \<in> set (ssm_shardRelations (processShards od shards m))"
  shows "\<exists>s. (i, s) \<in> set (listed od shards)"
    and "distinct (map fst (ssm_shardRelations (processShards od shards m)))"
proof -
  let ?rels = "fold (\<lambda>(i, ss). AList.update i (shard_relation ss)) (o_vector od (append_all (listed od shards) [])) []"
  have "set (map fst ?rels) = fst ` set (o_vector od (append_all (listed od shards) []))"
    by (simp only: case_prod_unfold fold_update_keys(1)) simp
  also have "\<dots> = dom (map_of (append_all (listed od shards) []))"
    using assms(1) by (simp add: orders_ok_def is_orderD dom_map_of_conv_image_fst)
  also have "\<dots> = fst ` set (listed od shards)" by (simp add: dom_append_all)
  finally show "\<exists>s. (i, s) \<in> set (listed od shards)"
    using assms(2) by (force simp: processShards_def Let_def)
  show "distinct (map fst (ssm_shardRelations (processShards od shards m)))"
    using fold_update_keys(2) [of "[]" fst "\<lambda>iss. shard_relation (snd iss)"] by (simp add: processShards_def Let_def case_prod_unfold)
qed

text \<open>The shards that the nodes report, each with the id it is reported under.\<close>

definition reported :: "(uint64, ShardNodeGroup) gomap \<Rightarrow> (uint32 \<times> ShardStatus) list" where
  "reported shards = concat (map snd shards)"

lemma reported_listed:
  assumes "orders_ok od"
  shows "set (listed od shards) = set (reported shards)"
    "distinct (map f (listed od shards)) = distinct (map f (reported shards))"
proof -
  have eq: "mset (listed od shards) = mset (reported shards)"
    using listed_mset [OF assms] by (simp add: reported_def)
  then show "set (listed od shards) = set (reported shards)" by (metis set_mset_mset)
  from eq show "distinct (map f (listed od shards)) = distinct (map f (reported shards))"
    by (metis mset_eq_imp_distinct_iff mset_map)
qed

lemma last_opt_unique: "x \<in> set xs \<Longrightarrow> \<forall>y\<in>set xs. y = x \<Longrightarrow> last_opt xs = Some x"
  by (metis empty_iff last_in_set last_opt_def list.set(1))

lemma values_at_set: "v \<in> set (values_at k kvs) \<longleftrightarrow> (k, v) \<in> set kvs"
proof (induction kvs)
  case (Cons kv kvs)
  obtain k' v' where "kv = (k', v')" by (cases kv)
  with Cons show ?case by simp
qed simp

lemma followers_of:
  assumes "map_of (ssm_shardRelations (processShards od shards m)) i = Some rel" and "orders_ok od"
  shows "set (rel_Follower rel) = {st_ShardHash s |s. (i, s) \<in> set (reported shards) \<and> st_Role s \<noteq> Leader}"
proof -
  obtain s where "(i, s) \<in> set (listed od shards)"
    using processShards_relations(1) [OF assms(2) map_of_SomeD [OF assms(1)]] by blast
  then have "rel = shard_relation (values_at i (listed od shards))"
    using processShards_relation [OF assms(2), of i s shards m] assms(1) by simp
  then show ?thesis
    using reported_listed(1) [OF assms(2), of shards]
    by (simp add: shard_relation_def shard_relation_fields values_at_set image_def Collect_conj_eq conj_commute) blast
qed

text \<open>The entry of a follower is changed once, when its relation is compared.\<close>

lemma compare_relations_lookup:
  assumes "(i, rel) \<in> set rs" and "distinct (map fst rs)" and "h \<in> set (rel_Follower rel)"
    and "\<And>j r. (j, r) \<in> set rs \<Longrightarrow> j \<noteq> i \<Longrightarrow> h \<notin> set (rel_Follower r) \<and> rel_Leader rel \<notin> set (rel_Follower r)"
    and "map_of coll (rel_Leader rel) = Some l" and "map_of coll h = Some f"
  shows "map_of (fold (\<lambda>(_, rel). compare_relation rel) rs coll) h = Some (compare_follower l f)"
proof -
  obtain rs1 rs2 where rs: "rs = rs1 @ (i, rel) # rs2" using assms(1) by (meson split_list)
  have others: "h \<notin> set (rel_Follower (snd jr)) \<and> rel_Leader rel \<notin> set (rel_Follower (snd jr))" if "jr \<in> set rs1 \<union> set rs2" for jr
  proof -
    have "i \<notin> fst ` (set rs1 \<union> set rs2)" using assms(2) by (simp add: rs image_Un)
    then have "fst jr \<noteq> i" using that by blast
    moreover have "(fst jr, snd jr) \<in> set rs" using that by (auto simp: rs)
    ultimately show ?thesis using assms(4) by blast
  qed
  have o: "\<forall>jr\<in>set rs1. h \<notin> set (rel_Follower (snd jr))" "\<forall>jr\<in>set rs1. rel_Leader rel \<notin> set (rel_Follower (snd jr))"
      "\<forall>jr\<in>set rs2. h \<notin> set (rel_Follower (snd jr))"
    using others by blast+
  let ?c = "fold (\<lambda>(_, rel). compare_relation rel) rs1 coll"
  have c: "map_of ?c h = Some f" "map_of ?c (rel_Leader rel) = Some l"
    using compare_others [OF o(1), of coll] compare_others [OF o(2), of coll] assms(5,6) by (simp_all only:)
  have "map_of (fold (\<lambda>(_, rel). compare_relation rel) rs coll) h = map_of (compare_relation rel ?c) h"
    using compare_others [OF o(3), of "compare_relation rel ?c"] by (simp only: rs fold_append fold_simps o_apply prod.case)
  also have "\<dots> = Some (compare_follower l f)"
    using c assms(3) by (simp add: compare_relation_lookup collected_def)
  finally show ?thesis .
qed

lemma hash_inj:
  assumes "distinct (map (\<lambda>(i, s). st_ShardHash s) xs)" and "(j, s) \<in> set xs" and "(j', s') \<in> set xs"
    and "st_ShardHash s = st_ShardHash s'"
  shows "j = j'" "s = s'"
proof -
  have "inj_on (\<lambda>(i, s). st_ShardHash s) (set xs)" using assms(1) by (simp add: distinct_map)
  then have "(j, s) = (j', s')" by (rule inj_onD [OF _ _ assms(2,3)]) (simp add: assms(4))
  then show "j = j'" "s = s'" by simp_all
qed

lemma processShards_leader:
  assumes "orders_ok od" and "(i, l) \<in> set (reported shards)" and "st_Role l = Leader"
    and "\<forall>s. (i, s) \<in> set (reported shards) \<and> st_Role s = Leader \<longrightarrow> s = l"
  obtains rel where "map_of (ssm_shardRelations (processShards od shards m)) i = Some rel" and "rel_Leader rel = st_ShardHash l"
proof
  let ?rel = "shard_relation (values_at i (listed od shards))"
  have L: "set (listed od shards) = set (reported shards)" using reported_listed(1) [OF assms(1)] .
  show "map_of (ssm_shardRelations (processShards od shards m)) i = Some ?rel"
    by (rule processShards_relation [OF assms(1)]) (use assms(2) L in simp)
  have "last_opt (filter (\<lambda>s. st_Role s = Leader) (values_at i (listed od shards))) = Some l"
  proof (rule last_opt_unique)
    show "l \<in> set (filter (\<lambda>s. st_Role s = Leader) (values_at i (listed od shards)))"
      using assms(2,3) L by (simp add: values_at_set)
    have "(i, s) \<in> set (reported shards) \<and> st_Role s = Leader"
      if "s \<in> set (filter (\<lambda>s. st_Role s = Leader) (values_at i (listed od shards)))" for s
      using that L by (simp add: values_at_set)
    with assms(4) show "\<forall>s\<in>set (filter (\<lambda>s. st_Role s = Leader) (values_at i (listed od shards))). s = l" by blast
  qed
  then show "rel_Leader ?rel = st_ShardHash l" by (simp add: shard_relation_def shard_relation_fields)
qed

lemma follower_compared:
  assumes od: "orders_ok od"
    and dist: "distinct (map (\<lambda>(i, s). st_ShardHash s) (reported shards))"
    and f: "(i, f) \<in> set (reported shards)" "st_Role f \<noteq> Leader"
    and l: "(i, l) \<in> set (reported shards)" "st_Role l = Leader"
    and only: "\<forall>s. (i, s) \<in> set (reported shards) \<and> st_Role s = Leader \<longrightarrow> s = l"
  shows "map_of (ssm_shards (processShards od shards m)) (st_ShardHash f) = Some (compare_follower l f)"
proof -
  let ?rels = "ssm_shardRelations (processShards od shards m)"
  let ?coll = "fold (\<lambda>(_, s). AList.update (st_ShardHash s) s) (listed od shards) []"
  obtain rel where rel: "map_of ?rels i = Some rel" and leader: "rel_Leader rel = st_ShardHash l"
    using processShards_leader [OF od l only] .
  have d: "distinct (map fst ?rels)" by (rule processShards_relations(2) [OF od map_of_SomeD [OF rel]])
  have dL: "distinct (map (\<lambda>(i, s). st_ShardHash s) (listed od shards))"
    using reported_listed(2) [OF od] dist by blast
  have coll: "map_of ?coll (st_ShardHash s) = Some s" if "(j, s) \<in> set (reported shards)" for j s
    using fold_update_lookup [OF dL, of "(j, s)" snd "[]"] that reported_listed(1) [OF od, of shards] by (simp add: case_prod_unfold)
  have "map_of (fold (\<lambda>(_, rel). compare_relation rel) (o_relations od ?rels) ?coll) (st_ShardHash f) = Some (compare_follower l f)"
  proof (rule compare_relations_lookup)
    show "(i, rel) \<in> set (o_relations od ?rels)" "distinct (map fst (o_relations od ?rels))"
      using od d map_of_SomeD [OF rel] by (simp_all add: orders_ok_def is_orderD)
    show "st_ShardHash f \<in> set (rel_Follower rel)" using followers_of [OF rel od] f by blast
    show "map_of ?coll (rel_Leader rel) = Some l" "map_of ?coll (st_ShardHash f) = Some f" using coll f l leader by simp_all
    fix j r assume "(j, r) \<in> set (o_relations od ?rels)" and j: "j \<noteq> i"
    then have "map_of ?rels j = Some r" using od d by (simp add: orders_ok_def is_orderD)
    from followers_of [OF this od] show "st_ShardHash f \<notin> set (rel_Follower r) \<and> rel_Leader rel \<notin> set (rel_Follower r)"
      using hash_inj(1) [OF dist] f l j unfolding leader by blast
  qed
  then show ?thesis by (simp add: processShards_def Let_def)
qed

text \<open>C16. One round compares every follower with the leader of its shard: if the nodes report exactly one leader
  of a shard, and no two shards with one hash, then afterwards each follower of the shard says that it has
  a leader, and whether its data are close to the leader's. The orders of the maps do not matter.\<close>

theorem processShards_follower:
  assumes "orders_ok od"
    and "distinct (map (\<lambda>(i, s). st_ShardHash s) (reported shards))"
    and "(i, f) \<in> set (reported shards)" and "st_Role f \<noteq> Leader"
    and "(i, l) \<in> set (reported shards)" and "st_Role l = Leader"
    and "\<forall>s. (i, s) \<in> set (reported shards) \<and> st_Role s = Leader \<longrightarrow> s = l"
  shows "map_of (ssm_shards (processShards od shards m)) (st_ShardHash f) = Some (compare_follower l f)"
  by (rule follower_compared [OF assms])

definition plain_orders :: status_orders where
  "plain_orders = \<lparr>o_nodes = (\<lambda>x. x), o_group = (\<lambda>x. x), o_vector = rev, o_relations = rev, o_hosts = (\<lambda>x. x), o_infos = (\<lambda>x. x)\<rparr>"

lemma plain_orders_ok: "orders_ok plain_orders"
  by (simp add: orders_ok_def plain_orders_def is_order_id is_order_rev)

definition example_leader :: ShardStatus where
  "example_leader = zero_ShardStatus\<lparr>st_ShardId := 3, st_Role := Leader, st_SeqNo := 5000000, st_BaseVersionHash := 9, st_ShardHash := ''a''\<rparr>"

definition example_follower :: ShardStatus where
  "example_follower = zero_ShardStatus\<lparr>st_ShardId := 3, st_Role := Follower, st_SeqNo := 4999999, st_BaseVersionHash := 9, st_ShardHash := ''b''\<rparr>"

definition example_shards :: "(uint64, ShardNodeGroup) gomap" where
  "example_shards = [(1, [(3, example_leader)]), (2, [(3, example_follower)])]"

lemma example_shards_facts:
  "distinct (map (\<lambda>(i, s). st_ShardHash s) (reported example_shards))"
  "(3, example_follower) \<in> set (reported example_shards)" "st_Role example_follower \<noteq> Leader"
  "(3, example_leader) \<in> set (reported example_shards)" "st_Role example_leader = Leader"
  "\<forall>s. (3, s) \<in> set (reported example_shards) \<and> st_Role s = Leader \<longrightarrow> s = example_leader"
  by (auto simp: reported_def example_shards_def example_leader_def example_follower_def zero_ShardStatus_def)

theorem processShards_follower_witness:
  "map_of (ssm_shards (processShards plain_orders example_shards NewShardStatusManager)) (st_ShardHash example_follower) =
     Some (compare_follower example_leader example_follower)"
  by (rule processShards_follower [OF plain_orders_ok example_shards_facts])

text \<open>C36. A follower that lags behind its leader is never reported as synchronised, however small the lag: the
  difference of the sequence numbers is taken without sign. A follower with another base version than its
  leader always is.\<close>

theorem lagging_follower_differs:
  assumes "orders_ok od"
    and "distinct (map (\<lambda>(i, s). st_ShardHash s) (reported shards))"
    and "(i, f) \<in> set (reported shards)" and "st_Role f \<noteq> Leader"
    and "(i, l) \<in> set (reported shards)" and "st_Role l = Leader"
    and "\<forall>s. (i, s) \<in> set (reported shards) \<and> st_Role s = Leader \<longrightarrow> s = l"
    and "st_SeqNo f < st_SeqNo l" and "unat (st_SeqNo l) - unat (st_SeqNo f) \<le> 18446744073709550592"
  shows "\<exists>s. map_of (ssm_shards (processShards od shards m)) (st_ShardHash f) = Some s \<and>
    (st_NoDiff s \<longleftrightarrow> st_BaseVersionHash f \<noteq> st_BaseVersionHash l)"
  using follower_compared [OF assms(1-7)] diff_small_behind [OF assms(8,9)] by (simp add: compare_follower_def)

theorem lagging_follower_differs_witness:
  "\<exists>s. map_of (ssm_shards (processShards plain_orders example_shards NewShardStatusManager)) (st_ShardHash example_follower) = Some s \<and>
    (st_NoDiff s \<longleftrightarrow> st_BaseVersionHash example_follower \<noteq> st_BaseVersionHash example_leader)"
  by (rule lagging_follower_differs [OF plain_orders_ok example_shards_facts])
    (simp_all add: example_leader_def example_follower_def zero_ShardStatus_def)

end
