(* ===== verification/Laser_Shards.thy ===== *)
theory Laser_Shards
  imports Laser_ShardStatus "HOL-Library.List_Lexorder" "HOL-Library.Char_ord"
begin

text \<open>
  The assignment of the shards of a cluster to its nodes, from \<^verbatim>\<open>src/control/service/shard_manager.go\<close>, and
  the form in which the nodes' shards are stored, from \<^verbatim>\<open>src/control/service/node_manager.go\<close>.

  The rows that the code loads from its database are arguments. The decoding of a JSON text into a
  \<open>ShardsStruct\<close> and the coding of the version data are arguments as well, \<open>None\<close> standing for a decoding
  error. The pointers to the nodes are kept in one map only, so that a node is a value in it.
  The store of the versions is not modelled: the call of \<open>init\<close>, the only way to it, is commented out.
\<close>

section \<open>Data\<close>

type_synonym ShardState = uint32

abbreviation LeaderStatus :: ShardState where "LeaderStatus \<equiv> 1"
abbreviation FollowerStatus :: ShardState where "FollowerStatus \<equiv> 3"

abbreviation NodeInactive :: uint16 where "NodeInactive \<equiv> 0"
abbreviation NodeActive :: uint16 where "NodeActive \<equiv> 1"

record Shard =
  sh_GroupName :: string
  sh_NodeId :: uint32
  sh_ShardId :: uint32
  sh_Role :: ShardRole
  sh_State :: ShardState

record NodeInfo =
  ni_GroupName :: string
  ni_NodeId :: uint32
  ni_Host :: string
  ni_Port :: uint16
  ni_Weight :: uint32
  ni_Master :: bool
  ni_Active :: uint16
  ni_Shards :: "Shard list"
  ni_IsEdgeNode :: bool

record GroupInfo =
  gp_Id :: uint32
  gp_Name :: string
  gp_DcName :: string
  gp_Alias :: string
  gp_Nodes :: "NodeInfo list"

record control_ClusterInfo =
  ci_Name :: string
  ci_ShardTotal :: uint32
  ci_Dcs :: "Dc list"
  ci_Groups :: "GroupInfo list"

record ShardsListStruct =
  sl_Table :: string
  sl_Shards :: string

record NodeVersionData =
  nv_LeaderShardList :: "uint32 list"
  nv_FollowerShardList :: "uint32 list"
  nv_NodeId :: uint32
  nv_IsEdgeNode :: bool

record GroupVersionData =
  gv_GroupName :: string
  gv_Dc :: string
  gv_Nodes :: "NodeVersionData list"

record DataCenterData =
  dd_Name :: string
  dd_ShardNumber :: uint32

record ShardVersionData =
  vd_ClusterName :: string
  vd_ShardNumber :: uint32
  vd_Dcs :: "DataCenterData list"
  vd_Groups :: "GroupVersionData list"

record ShardManager =
  sm_clusterName :: string
  sm_shardTotal :: uint32
  sm_groups :: "(string, (uint32, NodeInfo) gomap) gomap"
  sm_dcs :: "Dc list"
  sm_groupToDc :: "string \<rightharpoonup> string"
  sm_statusManager :: ShardStatusManager

record ShardList =
  sl_Relations :: "(uint32, ShardRelation) gomap"
  sl_ShardStatus :: "(string, ShardStatus) gomap"
  sl_Groups :: "(string, (uint32, string list) gomap) gomap"

datatype control_status = StatusOk | ClusterNotExist | StatusWithError | OtherCluster | OtherShardNumber

section \<open>The stored form of a node's shards\<close>

text \<open>\<open>strings.TrimSpace\<close>: the white space of Unicode, as the bytes of its coding.\<close>

definition space_codes :: "string list" where
  "space_codes =
     [[CHR 0x09], [CHR 0x0A], [CHR 0x0B], [CHR 0x0C], [CHR 0x0D], [CHR 0x20],
      [CHR 0xC2, CHR 0x85], [CHR 0xC2, CHR 0xA0], [CHR 0xE1, CHR 0x9A, CHR 0x80]] @
     map (\<lambda>c. [CHR 0xE2, CHR 0x80, c])
       [CHR 0x80, CHR 0x81, CHR 0x82, CHR 0x83, CHR 0x84, CHR 0x85, CHR 0x86, CHR 0x87, CHR 0x88, CHR 0x89, CHR 0x8A,
        CHR 0xA8, CHR 0xA9, CHR 0xAF] @
     [[CHR 0xE2, CHR 0x81, CHR 0x9F], [CHR 0xE3, CHR 0x80, CHR 0x80]]"

fun trim_left :: "nat \<Rightarrow> string list \<Rightarrow> string \<Rightarrow> string" where
  "trim_left 0 codes s = s"
| "trim_left (Suc n) codes s =
     (case find (\<lambda>p. take (length p) s = p) codes of
        None \<Rightarrow> s
      | Some p \<Rightarrow> trim_left n codes (drop (length p) s))"

definition TrimSpace :: "string \<Rightarrow> string" where
  "TrimSpace s =
     (let t = trim_left (length s) space_codes s
      in rev (trim_left (length t) (map rev space_codes) (rev t)))"

definition add_unique :: "string \<Rightarrow> string list \<Rightarrow> string list" where
  "add_unique shardId uniqueShards =
     (if shardId \<in> set uniqueShards then uniqueShards else uniqueShards @ [shardId])"

definition extractUniqueShards :: "(string \<Rightarrow> ShardsListStruct list option) \<Rightarrow> string \<Rightarrow> string list" where
  "extractUniqueShards unmarshal s =
     (case unmarshal s of
        None \<Rightarrow> if s = [] then [] else Split (CHR '','') s
      | Some shardsList \<Rightarrow>
          fold (\<lambda>shardList uniqueShards.
              if sl_Shards shardList = [] then uniqueShards
              else fold add_unique (Split (CHR '','') (sl_Shards shardList)) uniqueShards)
            shardsList [])"

definition parse_shard :: "Node \<Rightarrow> ShardRole \<Rightarrow> ShardState \<Rightarrow> string \<Rightarrow> Shard list" where
  "parse_shard node role state shardId =
     (case ParseUint 32 (TrimSpace shardId) of
        Value n \<Rightarrow> [\<lparr>sh_GroupName = nd_GroupName node, sh_NodeId = nd_NodeId node, sh_ShardId = of_nat n,
                     sh_Role = role, sh_State = state\<rparr>]
      | _ \<Rightarrow> [])"

definition shardStrListToSlice :: "(string \<Rightarrow> ShardsListStruct list option) \<Rightarrow> Node \<Rightarrow> Shard list go" where
  "shardStrListToSlice unmarshal node =
     (case nd_LeaderShardList node of
        None \<Rightarrow> Inl NilDereference
      | Some leaders \<Rightarrow>
          let shards = concat (map (parse_shard node Leader LeaderStatus) (extractUniqueShards unmarshal leaders))
          in (case nd_FollowerShardList node of
                None \<Rightarrow> Inl NilDereference
              | Some followers \<Rightarrow> Inr (shards @
                  concat (map (parse_shard node Follower FollowerStatus) (extractUniqueShards unmarshal followers)))))"

definition shardSliceToStrList :: "Shard list \<Rightarrow> string \<times> string" where
  "shardSliceToStrList shards =
     (Join (CHR '','') (map (\<lambda>s. FormatUint (unat (sh_ShardId s))) (filter (\<lambda>s. sh_Role s = Leader) shards)),
      Join (CHR '','') (map (\<lambda>s. FormatUint (unat (sh_ShardId s))) (filter (\<lambda>s. sh_Role s = Follower) shards)))"

section \<open>The description of the cluster\<close>

definition node_info :: "(string \<Rightarrow> ShardsListStruct list option) \<Rightarrow> string \<Rightarrow> Node \<Rightarrow> NodeInfo go" where
  "node_info unmarshal groupName node =
     go_bind (shardStrListToSlice unmarshal node) (\<lambda>shards.
       Inr \<lparr>ni_GroupName = groupName, ni_NodeId = nd_NodeId node, ni_Host = nd_Host node, ni_Port = nd_Port node,
            ni_Weight = nd_Weight node, ni_Master = nd_Master node, ni_Active = nd_Active node, ni_Shards = shards,
            ni_IsEdgeNode = nd_IsEdgeNode node\<rparr>)"

fun node_infos :: "(string \<Rightarrow> ShardsListStruct list option) \<Rightarrow> string \<Rightarrow> Node list \<Rightarrow> NodeInfo list go" where
  "node_infos unmarshal groupName [] = Inr []"
| "node_infos unmarshal groupName (node # nodes) =
     go_bind (node_info unmarshal groupName node) (\<lambda>ni.
       go_bind (node_infos unmarshal groupName nodes) (\<lambda>nis. Inr (ni # nis)))"

fun group_infos :: "(string \<Rightarrow> ShardsListStruct list option) \<Rightarrow> Group list \<Rightarrow> GroupInfo list go" where
  "group_infos unmarshal [] = Inr []"
| "group_infos unmarshal (grp # groups) =
     go_bind (node_infos unmarshal (gr_Name grp) (gr_Nodes grp)) (\<lambda>nodes.
       go_bind (group_infos unmarshal groups) (\<lambda>gs.
         Inr (\<lparr>gp_Id = gr_Id grp, gp_Name = gr_Name grp, gp_DcName = gr_DcName grp, gp_Alias = gr_Alias grp,
               gp_Nodes = nodes\<rparr> # gs)))"

definition GetClusterInfo ::
  "(string \<Rightarrow> ShardsListStruct list option) \<Rightarrow> Cluster list \<Rightarrow> Dc list \<Rightarrow> Group list \<Rightarrow> (control_status \<times> control_ClusterInfo) go" where
  "GetClusterInfo unmarshal clusters dcs groups =
     (case clusters of
        [] \<Rightarrow> Inr (ClusterNotExist, \<lparr>ci_Name = [], ci_ShardTotal = 0, ci_Dcs = [], ci_Groups = []\<rparr>)
      | c # _ \<Rightarrow> go_bind (group_infos unmarshal groups) (\<lambda>gs.
          Inr (StatusOk, \<lparr>ci_Name = cl_Name c, ci_ShardTotal = cl_ShardTotal c, ci_Dcs = dcs, ci_Groups = gs\<rparr>)))"

definition host_info :: "string \<Rightarrow> NodeInfo \<Rightarrow> NodeHostInfo" where
  "host_info groupName node =
     \<lparr>nh_GroupName = groupName, nh_NodeId = ni_NodeId node, nh_Host = ni_Host node, nh_Port = ni_Port node\<rparr>"

definition kept_info :: "string \<Rightarrow> NodeInfo \<Rightarrow> NodeInfo" where
  "kept_info groupName node = node\<lparr>ni_GroupName := groupName, ni_Host := [], ni_Port := 0\<rparr>"

definition group_nodes :: "GroupInfo \<Rightarrow> (uint32, NodeInfo) gomap" where
  "group_nodes grp = fold (\<lambda>node. AList.update (ni_NodeId node) (kept_info (gp_Name grp) node)) (gp_Nodes grp) []"

definition UpdateClusterInfo :: "cityhash \<Rightarrow> control_ClusterInfo \<Rightarrow> ShardManager \<Rightarrow> ShardManager" where
  "UpdateClusterInfo city info m =
     m\<lparr>sm_clusterName := ci_Name info, sm_shardTotal := ci_ShardTotal info,
       sm_groups := fold (\<lambda>grp. AList.update (gp_Name grp) (group_nodes grp)) (ci_Groups info) [],
       sm_groupToDc := fold (\<lambda>grp f. f(gp_Name grp \<mapsto> gp_DcName grp)) (ci_Groups info) Map.empty,
       sm_dcs := ci_Dcs info,
       sm_statusManager := SetNodes city
         (concat (map (\<lambda>grp. map (host_info (gp_Name grp)) (gp_Nodes grp)) (ci_Groups info))) (sm_statusManager m)\<rparr>"

definition GetShardModel :: "cityhash \<Rightarrow> control_ClusterInfo \<Rightarrow> ShardManager" where
  "GetShardModel city info =
     UpdateClusterInfo city info
       \<lparr>sm_clusterName = ci_Name info, sm_shardTotal = ci_ShardTotal info, sm_groups = [], sm_dcs = ci_Dcs info,
        sm_groupToDc = Map.empty, sm_statusManager = NewShardStatusManager\<rparr>"

definition NodeManager_UpdateClusterInfo ::
  "(string \<Rightarrow> ShardsListStruct list option) \<Rightarrow> cityhash \<Rightarrow> Cluster list \<Rightarrow> Dc list \<Rightarrow> Group list \<Rightarrow> ShardManager \<Rightarrow>
   (control_status \<times> ShardManager) go" where
  "NodeManager_UpdateClusterInfo unmarshal city clusters dcs groups m =
     go_bind (GetClusterInfo unmarshal clusters dcs groups) (\<lambda>(status, cluster). Inr (status, UpdateClusterInfo city cluster m))"

section \<open>How many shards a node gets\<close>

text \<open>The quotient by a total weight of zero is not a number; what its conversion to an integer gives is left
  open by the language, and is the argument \<open>nan\<close>.\<close>

definition totalWeight :: "NodeInfo list \<Rightarrow> rat" where
  "totalWeight nodes = fold (\<lambda>node t. fl (t + float_of_uint (ni_Weight node))) nodes 0"

definition node_number :: "uint32 \<Rightarrow> uint32 \<Rightarrow> rat \<Rightarrow> NodeInfo \<Rightarrow> uint32" where
  "node_number nan shardTotal weights node =
     (if weights = 0 then nan
      else let rate = fl_div (float_of_uint (ni_Weight node)) weights
           in word_of_int \<lceil>fl_mult (float_of_uint shardTotal) rate\<rceil>)"

definition number_at :: "(int32, uint32) gomap \<Rightarrow> int32 \<Rightarrow> uint32" where
  "number_at numbers k = (case map_of numbers k of None \<Rightarrow> 0 | Some n \<Rightarrow> n)"

definition shardNumber :: "uint32 \<Rightarrow> uint32 \<Rightarrow> NodeInfo list \<Rightarrow> (int32, uint32) gomap" where
  "shardNumber nan shardTotal nodes =
     (let weights = totalWeight nodes;
          (numbers, remainNumber, lastNodeId) =
            fold (\<lambda>node (numbers, remainNumber, lastNodeId).
                let number = node_number nan shardTotal weights node
                in (AList.update (ni_NodeId node) number numbers, remainNumber - number, ni_NodeId node))
              nodes ([], shardTotal, - 1)
      in if 0 < sint remainNumber \<and> 0 \<le> sint lastNodeId
         then AList.update lastNodeId (number_at numbers lastNodeId + remainNumber) numbers
         else numbers)"

section \<open>Assigning the shards\<close>

definition move_number :: "(int32, uint32) gomap \<Rightarrow> NodeInfo \<Rightarrow> int" where
  "move_number shardNumbers node = int (length (ni_Shards node)) - uint (number_at shardNumbers (ni_NodeId node))"

fun trim_nodes :: "(int32, uint32) gomap \<Rightarrow> NodeInfo list \<Rightarrow> uint32 list \<Rightarrow> uint32 set \<Rightarrow> NodeInfo list \<times> uint32 list \<times> uint32 set" where
  "trim_nodes shardNumbers [] remainShards assignShards = ([], remainShards, assignShards)"
| "trim_nodes shardNumbers (node # nodes) remainShards assignShards =
     (let moveNumber = move_number shardNumbers node
      in if moveNumber \<le> 0 then
           (case trim_nodes shardNumbers nodes remainShards assignShards of (ns, r, a) \<Rightarrow> (node # ns, r, a))
         else
           let kept = take (length (ni_Shards node) - nat moveNumber) (ni_Shards node)
           in case trim_nodes shardNumbers nodes (remainShards @ map sh_ShardId kept)
                     (assignShards \<union> sh_ShardId ` set kept) of
                (ns, r, a) \<Rightarrow> (node\<lparr>ni_Shards := kept\<rparr> # ns, r, a))"

definition new_shard :: "NodeInfo \<Rightarrow> uint32 \<Rightarrow> Shard" where
  "new_shard node shardId =
     \<lparr>sh_GroupName = ni_GroupName node, sh_NodeId = ni_NodeId node, sh_ShardId = shardId,
      sh_Role = (if ni_Master node then Leader else Follower), sh_State = 0\<rparr>"

fun fill_nodes :: "(int32, uint32) gomap \<Rightarrow> NodeInfo list \<Rightarrow> uint32 list \<Rightarrow> NodeInfo list" where
  "fill_nodes shardNumbers [] remainShards = []"
| "fill_nodes shardNumbers (node # nodes) remainShards =
     (let moveNumber = move_number shardNumbers node
      in if 0 \<le> moveNumber \<or> remainShards = [] then node # fill_nodes shardNumbers nodes remainShards
         else
           let k = (if int (length remainShards) < - moveNumber then length remainShards else nat (- moveNumber))
           in node\<lparr>ni_Shards := ni_Shards node @ map (new_shard node) (take k remainShards)\<rparr> #
                fill_nodes shardNumbers nodes (drop k remainShards))"

definition all_shards :: "uint32 \<Rightarrow> uint32 list" where
  "all_shards shardTotal = map of_nat [0..<unat shardTotal]"

definition assignShardByRole :: "uint32 \<Rightarrow> uint32 \<Rightarrow> NodeInfo list \<Rightarrow> NodeInfo list" where
  "assignShardByRole nan shardTotal nodes =
     (let shardNumbers = shardNumber nan shardTotal nodes;
          (nodes, remainShards, assignShards) = trim_nodes shardNumbers nodes [] {};
          remainShards = remainShards @ filter (\<lambda>shardId. shardId \<notin> assignShards) (all_shards shardTotal)
      in fill_nodes shardNumbers nodes remainShards)"

definition assign_group :: "uint32 \<Rightarrow> uint32 \<Rightarrow> (uint32 \<times> NodeInfo) list \<Rightarrow> (uint32, NodeInfo) gomap \<Rightarrow> (uint32, NodeInfo) gomap" where
  "assign_group nan shardTotal ranged nodes =
     (let leaderNodes = filter ni_Master (map snd ranged);
          followerNodes = filter (\<lambda>node. \<not> ni_Master node) (map snd ranged);
          store = fold (\<lambda>node. AList.update (ni_NodeId node) node);
          nodes = (if leaderNodes = [] then nodes else store (assignShardByRole nan shardTotal leaderNodes) nodes)
      in if followerNodes = [] then nodes else store (assignShardByRole nan shardTotal followerNodes) nodes)"

definition AssignShards ::
  "((string \<times> (uint32, NodeInfo) gomap) list \<Rightarrow> (string \<times> (uint32, NodeInfo) gomap) list) \<Rightarrow>
   ((uint32 \<times> NodeInfo) list \<Rightarrow> (uint32 \<times> NodeInfo) list) \<Rightarrow> uint32 \<Rightarrow> ShardManager \<Rightarrow> ShardManager" where
  "AssignShards og on nan m =
     m\<lparr>sm_groups := fold (\<lambda>(name, nodes). AList.update name (assign_group nan (sm_shardTotal m) (on nodes) nodes))
         (og (sm_groups m)) (sm_groups m)\<rparr>"

section \<open>Versions of the assignment\<close>

definition node_version :: "NodeInfo \<Rightarrow> NodeVersionData" where
  "node_version node =
     \<lparr>nv_LeaderShardList = map sh_ShardId (filter (\<lambda>s. sh_Role s = Leader) (ni_Shards node)),
      nv_FollowerShardList = map sh_ShardId (filter (\<lambda>s. sh_Role s \<noteq> Leader) (ni_Shards node)),
      nv_NodeId = ni_NodeId node, nv_IsEdgeNode = ni_IsEdgeNode node\<rparr>"

definition group_version :: "ShardManager \<Rightarrow> string \<Rightarrow> GroupVersionData" where
  "group_version m groupName =
     (let groupNodes = the (map_of (sm_groups m) groupName);
          nodes = map (\<lambda>nodeId. the (map_of groupNodes nodeId)) (sort (map fst groupNodes))
      in \<lparr>gv_GroupName = groupName,
          gv_Dc = (case sm_groupToDc m groupName of None \<Rightarrow> ''default'' | Some dc \<Rightarrow> dc),
          gv_Nodes = map node_version (filter (\<lambda>node. ni_GroupName node = groupName \<and> ni_Active node \<noteq> NodeInactive) nodes)\<rparr>)"

definition convertNodeShardsToVersionData :: "ShardManager \<Rightarrow> ShardVersionData" where
  "convertNodeShardsToVersionData m =
     \<lparr>vd_ClusterName = sm_clusterName m, vd_ShardNumber = sm_shardTotal m,
      vd_Dcs = map (\<lambda>dc. \<lparr>dd_Name = dc_Name dc, dd_ShardNumber = dc_ShardNumber dc\<rparr>) (sm_dcs m),
      vd_Groups = map (group_version m) (sort (map fst (sm_groups m)))\<rparr>"

definition GetCurrentVersionData :: "(ShardVersionData \<Rightarrow> string) \<Rightarrow> ShardManager \<Rightarrow> string" where
  "GetCurrentVersionData marshal m = marshal (convertNodeShardsToVersionData m)"

definition version_shards :: "string \<Rightarrow> NodeVersionData \<Rightarrow> Shard list" where
  "version_shards groupName node =
     map (\<lambda>i. \<lparr>sh_GroupName = groupName, sh_NodeId = nv_NodeId node, sh_ShardId = i, sh_Role = Leader, sh_State = 0\<rparr>)
       (nv_LeaderShardList node) @
     map (\<lambda>i. \<lparr>sh_GroupName = groupName, sh_NodeId = nv_NodeId node, sh_ShardId = i, sh_Role = Follower, sh_State = 0\<rparr>)
       (nv_FollowerShardList node)"

definition load_node :: "string \<Rightarrow> NodeVersionData \<Rightarrow> (uint32, NodeInfo) gomap \<Rightarrow> (uint32, NodeInfo) gomap" where
  "load_node groupName node nodes =
     (case map_of nodes (nv_NodeId node) of
        None \<Rightarrow> nodes
      | Some ni \<Rightarrow> AList.update (nv_NodeId node) (ni\<lparr>ni_Shards := ni_Shards ni @ version_shards groupName node\<rparr>) nodes)"

definition load_group ::
  "GroupVersionData \<Rightarrow> (string, (uint32, NodeInfo) gomap) gomap \<Rightarrow> (string, (uint32, NodeInfo) gomap) gomap" where
  "load_group grp groups =
     (case map_of groups (gv_GroupName grp) of
        None \<Rightarrow> groups
      | Some nodes \<Rightarrow> AList.update (gv_GroupName grp) (fold (load_node (gv_GroupName grp)) (gv_Nodes grp) nodes) groups)"

definition convertVersionToNodeShards ::
  "(string \<Rightarrow> ShardVersionData option) \<Rightarrow> string \<Rightarrow> ShardManager \<Rightarrow> control_status \<times> ShardManager" where
  "convertVersionToNodeShards unmarshal versionData m =
     (case unmarshal versionData of
        None \<Rightarrow> (StatusWithError, m)
      | Some v \<Rightarrow>
          if vd_ClusterName v \<noteq> sm_clusterName m then (OtherCluster, m)
          else if vd_ShardNumber v \<noteq> sm_shardTotal m then (OtherShardNumber, m)
          else
            let cleared = map (\<lambda>(name, nodes). (name, map (\<lambda>(i, node). (i, node\<lparr>ni_Shards := []\<rparr>)) nodes)) (sm_groups m)
            in (StatusOk, m\<lparr>sm_groups := fold load_group (vd_Groups v) cleared\<rparr>))"

section \<open>What is shown of the assignment\<close>

definition group_dto ::
  "cityhash \<Rightarrow> ((uint32 \<times> NodeInfo) list \<Rightarrow> (uint32 \<times> NodeInfo) list) \<Rightarrow> string \<Rightarrow> (uint32, NodeInfo) gomap \<Rightarrow>
   (uint32, string list) gomap" where
  "group_dto city on groupName groupNodes =
     fold (\<lambda>(_, node) grp.
         if ni_GroupName node \<noteq> groupName then grp
         else AList.update (ni_NodeId node)
                (map (\<lambda>s. GetShardHash city (GetNodeHash city groupName (ni_NodeId node)) (sh_ShardId s)) (ni_Shards node)) grp)
       (on groupNodes) []"

definition convertToDto ::
  "cityhash \<Rightarrow> ((string \<times> (uint32, NodeInfo) gomap) list \<Rightarrow> (string \<times> (uint32, NodeInfo) gomap) list) \<Rightarrow>
   ((uint32 \<times> NodeInfo) list \<Rightarrow> (uint32 \<times> NodeInfo) list) \<Rightarrow> ShardManager \<Rightarrow> (string, (uint32, string list) gomap) gomap" where
  "convertToDto city og on m =
     fold (\<lambda>(groupName, groupNodes). AList.update groupName (group_dto city on groupName groupNodes)) (og (sm_groups m)) []"

definition GetShards ::
  "cityhash \<Rightarrow> ((string \<times> (uint32, NodeInfo) gomap) list \<Rightarrow> (string \<times> (uint32, NodeInfo) gomap) list) \<Rightarrow>
   ((uint32 \<times> NodeInfo) list \<Rightarrow> (uint32 \<times> NodeInfo) list) \<Rightarrow> ShardManager \<Rightarrow> ShardList" where
  "GetShards city og on m =
     (let (shards, relations) = GetShardStatus (sm_statusManager m)
      in \<lparr>sl_Relations = relations, sl_ShardStatus = shards, sl_Groups = convertToDto city og on m\<rparr>)"

section \<open>The numbers cover the shards\<close>

lemma fl_le_exp2:
  assumes "0 \<le> x" "x \<le> exp2 k"
  shows "fl x \<le> exp2 k"
proof (cases "x = 0")
  case True
  then show ?thesis using less_imp_le [OF exp2_pos] by (simp add: fl_def)
next
  case False
  then have x: "0 < x" using assms(1) by simp
  show ?thesis
  proof (cases "x = exp2 k")
    case True
    have "\<not> lead x < k"
    proof
      assume "lead x < k"
      then have "exp2 (lead x + 1) \<le> exp2 k" by (simp add: exp2_le_iff)
      with lead_bounds(2) [OF x] True show False by (simp add: exp2_Suc)
    qed
    moreover have "lead x \<le> k" using lead_bounds(1) [OF x] True by (simp add: exp2_le_iff)
    ultimately have k: "lead x = k" by simp
    have u: "exp2 (k - 52) \<noteq> 0" using exp2_pos [of "k - 52"] by linarith
    have "x / exp2 (k - 52) = of_int 4503599627370496"
      using True exp2_52 [of k] u by (simp add: nonzero_divide_eq_eq)
    then show ?thesis
      using fl_pos [OF x] round_even_of_int [of 4503599627370496] exp2_52 [of k] k by simp
  next
    case False
    then have "exp2 (lead x) < exp2 k" using lead_bounds(1) [OF x] assms(2) by simp
    then have "exp2 (lead x + 1) \<le> exp2 k" by (simp add: exp2_less_iff exp2_le_iff)
    then show ?thesis using fl_bounds(2) [OF x] by (simp add: exp2_Suc)
  qed
qed

lemma fl_nonneg: "0 \<le> x \<Longrightarrow> 0 \<le> fl x"
  using fl_bounds(1) [of x] exp2_pos [of "lead x"] by (cases "x = 0") (simp add: fl_def, linarith)

lemma unat32_less: "unat (x :: uint32) < 4294967296"
  by (rule order.strict_trans2 [OF unsigned_less]) simp

lemma float_of_uint32: "float_of_uint (x :: uint32) = of_nat (unat x)"
  unfolding float_of_uint_def by (rule fl_small) (use unat32_less [of x] in simp)

definition sum_of_weights :: "NodeInfo list \<Rightarrow> nat" where
  "sum_of_weights nodes = sum_list (map (\<lambda>node. unat (ni_Weight node)) nodes)"

lemma sum_of_weights_less: "sum_of_weights nodes \<le> length nodes * 4294967295"
proof (induction nodes)
  case (Cons n ns)
  then show ?case using unat32_less [of "ni_Weight n"] by (simp add: sum_of_weights_def)
qed (simp add: sum_of_weights_def)

lemma weights_fold:
  "k + sum_of_weights nodes < 9007199254740992 \<Longrightarrow>
   fold (\<lambda>node t. fl (t + float_of_uint (ni_Weight node))) nodes (of_nat k) = of_nat (k + sum_of_weights nodes)"
proof (induction nodes arbitrary: k)
  case (Cons n ns)
  have "fl (of_nat k + of_nat (unat (ni_Weight n))) = of_nat (k + unat (ni_Weight n))"
    using fl_small [of "k + unat (ni_Weight n)"] Cons.prems by (simp add: sum_of_weights_def)
  moreover have "k + unat (ni_Weight n) + sum_of_weights ns < 9007199254740992"
    using Cons.prems by (simp add: sum_of_weights_def)
  ultimately show ?case
    using Cons.IH [of "k + unat (ni_Weight n)"] by (simp add: float_of_uint32 sum_of_weights_def add.assoc)
qed (simp add: sum_of_weights_def)

lemma totalWeight_sum: "length nodes \<le> 2097152 \<Longrightarrow> totalWeight nodes = of_nat (sum_of_weights nodes)"
  using weights_fold [of 0 nodes] sum_of_weights_less [of nodes] by (simp add: totalWeight_def)

lemma node_number_bound:
  assumes "length nodes \<le> 2097152" "node \<in> set nodes" "unat shards < 2147483648" "unat nan \<le> 2147483648"
  shows "unat (node_number nan shards (totalWeight nodes) node) \<le> 2147483648"
proof (cases "totalWeight nodes = 0")
  case True
  then show ?thesis using assms(4) by (simp add: node_number_def)
next
  case False
  let ?w = "of_nat (unat (ni_Weight node)) :: rat" and ?t = "totalWeight nodes"
  have "unat (ni_Weight node) \<le> sum_of_weights nodes"
    unfolding sum_of_weights_def using assms(2) by (intro member_le_sum_list) auto
  then have w: "?w \<le> ?t" "0 < ?t" using False assms(1) by (simp_all add: totalWeight_sum del: of_nat_unat)
  define rate where "rate = fl_div ?w ?t"
  have "0 \<le> ?w / ?t" "?w / ?t \<le> exp2 0" using w by (simp_all add: exp2_def del: of_nat_unat)
  then have rate: "0 \<le> rate" "rate \<le> 1"
    using fl_nonneg fl_le_exp2 [of "?w / ?t" 0] by (simp_all add: rate_def fl_div_def exp2_def)
  define x where "x = fl_mult (of_nat (unat shards)) rate"
  have "of_nat (unat shards) * rate \<le> of_nat (unat shards)" using rate by (simp add: mult_left_le del: of_nat_unat)
  also have "\<dots> \<le> (of_nat 2147483648 :: rat)" using assms(3) by (simp only: of_nat_le_iff)
  finally have "of_nat (unat shards) * rate \<le> exp2 31" by (simp add: exp2_def)
  then have "x \<le> exp2 31" "0 \<le> x"
    using rate fl_le_exp2 fl_nonneg by (simp_all add: x_def fl_mult_def del: of_nat_unat)
  then have "0 \<le> \<lceil>x\<rceil>" "\<lceil>x\<rceil> \<le> 2147483648" by (simp_all add: exp2_def ceiling_le_iff less_le_trans)
  then have "uint (word_of_int \<lceil>x\<rceil> :: uint32) \<le> 2147483648" by (simp add: uint_word_of_int)
  then have "unat (word_of_int \<lceil>x\<rceil> :: uint32) \<le> 2147483648"
    unfolding uint_nat by linarith
  with False show ?thesis by (simp add: node_number_def x_def rate_def float_of_uint32 Let_def)
qed

lemma sint32: "sint (w :: uint32) = (if unat w < 2147483648 then int (unat w) else int (unat w) - 4294967296)"
proof -
  define n where "n = int (unat w)"
  have n: "0 \<le> n" "n < 4294967296" using unat32_less [of w] by (simp_all add: n_def del: of_nat_unat)
  have "sint w = (n + 2147483648) mod 4294967296 - 2147483648"
    using int_word_sint [of "uint w", where 'a = 32] by (simp add: n_def)
  moreover have "(n + 2147483648) mod 4294967296 = n - 2147483648" if "2147483648 \<le> n"
    using mod_add_self2 [of "n - 2147483648" 4294967296] mod_pos_pos_trivial [of "n - 2147483648" 4294967296] that n by (simp add: add.commute)
  moreover have "(n + 2147483648) mod 4294967296 = n + 2147483648" if "n < 2147483648"
    using that n by simp
  moreover have "n < 2147483648 \<longleftrightarrow> unat w < 2147483648" by (simp add: n_def del: of_nat_unat)
  ultimately show ?thesis unfolding n_def [symmetric] by auto
qed

lemma numbers_fold:
  fixes num :: "NodeInfo \<Rightarrow> uint32"
  assumes "distinct (map ni_NodeId nodes)" "fst ` set acc \<inter> ni_NodeId ` set nodes = {}"
  shows "fold (\<lambda>node (numbers, r, l). (AList.update (ni_NodeId node) (num node) numbers, r - num node, ni_NodeId node)) nodes (acc, r, l) =
    (acc @ map (\<lambda>node. (ni_NodeId node, num node)) nodes, r - of_nat (sum_list (map (\<lambda>node. unat (num node)) nodes)),
     if nodes = [] then l else ni_NodeId (last nodes))"
  using assms
proof (induction nodes arbitrary: acc r l)
  case (Cons n ns)
  have "AList.update (ni_NodeId n) (num n) acc = acc @ [(ni_NodeId n, num n)]"
    using Cons.prems(2) by (induction acc) auto
  moreover have "fst ` set (acc @ [(ni_NodeId n, num n)]) \<inter> ni_NodeId ` set ns = {}"
    using Cons.prems by auto
  ultimately show ?case using Cons.IH [of "acc @ [(ni_NodeId n, num n)]"] Cons.prems(1)
    by (simp add: diff_diff_add)
qed simp

definition number_of :: "(int32, uint32) gomap \<Rightarrow> NodeInfo \<Rightarrow> nat" where
  "number_of numbers node = unat (number_at numbers (ni_NodeId node))"

lemma number_of_table:
  "distinct (map ni_NodeId nodes) \<Longrightarrow> node \<in> set nodes \<Longrightarrow>
   number_at (map (\<lambda>node. (ni_NodeId node, num node)) nodes) (ni_NodeId node) = num node"
  by (induction nodes) (auto simp: number_at_def rev_image_eqI)

lemma remain_positive:
  fixes shards :: uint32
  assumes "unat shards < 2147483648"
  shows "S < unat shards \<Longrightarrow> 0 < sint (shards - of_nat S)"
    and "0 < sint (shards - of_nat S) \<Longrightarrow> unat shards \<le> S + unat (shards - of_nat S)"
    and "0 < sint (shards - of_nat S) \<Longrightarrow> unat (shards - of_nat S) < 2147483648"
proof -
  have eq: "unat (shards - of_nat S) = unat shards - S" if "S \<le> unat shards"
  proof -
    have "shards - of_nat S = of_nat (unat shards - S)" using that by (simp add: of_nat_diff)
    moreover have "unat shards - S < 4294967296" using assms by simp
    ultimately show ?thesis by (simp add: unat_of_nat)
  qed
  then show "S < unat shards \<Longrightarrow> 0 < sint (shards - of_nat S)"
    using assms by (subst sint32) (auto simp del: of_nat_unat)
  show "unat shards \<le> S + unat (shards - of_nat S)" using eq by (cases "S \<le> unat shards") auto
  show "0 < sint (shards - of_nat S) \<Longrightarrow> unat (shards - of_nat S) < 2147483648"
    using unat32_less [of "shards - of_nat S"] by (auto simp: sint32 split: if_splits)
qed

lemma shardNumber_eq:
  assumes "distinct (map ni_NodeId nodes)" "nodes \<noteq> []"
  shows "shardNumber nan shards nodes =
    (let num = node_number nan shards (totalWeight nodes);
         table = map (\<lambda>node. (ni_NodeId node, num node)) nodes;
         r = shards - of_nat (sum_list (map (\<lambda>node. unat (num node)) nodes));
         l = ni_NodeId (last nodes)
     in if 0 < sint r \<and> 0 \<le> sint l then AList.update l (number_at table l + r) table else table)"
  using numbers_fold [OF assms(1), of "[]" "node_number nan shards (totalWeight nodes)" shards "- 1"] assms(2)
  by (simp add: shardNumber_def Let_def)

lemma sum_last_changed:
  fixes f g :: "'a \<Rightarrow> nat"
  assumes "xs \<noteq> []" "\<forall>x \<in> set xs. f x \<le> g x" "f (last xs) + d \<le> g (last xs)"
  shows "sum_list (map f xs) + d \<le> sum_list (map g xs)"
proof -
  obtain ys y where xs: "xs = ys @ [y]" using assms(1) by (metis rev_exhaust)
  have "sum_list (map f ys) \<le> sum_list (map g ys)" using assms(2) xs by (intro sum_list_mono) simp
  with assms(3) xs show ?thesis by simp
qed

lemma shardNumber_covers:
  assumes "distinct (map ni_NodeId nodes)" "nodes \<noteq> []" "length nodes \<le> 2097152"
    and "unat shards < 2147483648" "unat nan \<le> 2147483648" "unat (ni_NodeId (last nodes)) < 2147483648"
  shows "unat shards \<le> sum_list (map (number_of (shardNumber nan shards nodes)) nodes)"
proof -
  define num where "num = node_number nan shards (totalWeight nodes)"
  define table where "table = map (\<lambda>node. (ni_NodeId node, num node)) nodes"
  define S where "S = sum_list (map (\<lambda>node. unat (num node)) nodes)"
  define r where "r = shards - of_nat S"
  let ?l = "ni_NodeId (last nodes)"
  have at: "number_at table (ni_NodeId n) = num n" if "n \<in> set nodes" for n
    using number_of_table [OF assms(1) that] by (simp add: table_def)
  then have table: "sum_list (map (number_of table) nodes) = S"
    unfolding S_def by (intro arg_cong [where f = sum_list] map_cong) (auto simp: number_of_def)
  have l: "0 \<le> sint ?l" using assms(6) by (simp add: sint32)
  have eq: "shardNumber nan shards nodes = (if 0 < sint r then AList.update ?l (num (last nodes) + r) table else table)"
    using shardNumber_eq [OF assms(1,2), of nan shards] l at [of "last nodes"] assms(2)
    by (simp add: Let_def num_def table_def S_def r_def)
  show ?thesis
  proof (cases "0 < sint r")
    case False
    then have "unat shards \<le> S" using remain_positive(1) [OF assms(4), of S] r_def by (meson not_le)
    with False eq table show ?thesis by simp
  next
    case True
    have r: "unat shards \<le> S + unat r" "unat r < 2147483648"
      using remain_positive(2,3) [OF assms(4), of S] True by (simp_all add: r_def)
    have "unat (num (last nodes)) \<le> 2147483648"
      unfolding num_def using assms(2-5) by (intro node_number_bound) simp_all
    then have add: "unat (num (last nodes) + r) = unat (num (last nodes)) + unat r"
      using r(2) by (subst unat_plus_if') simp
    define new where "new = AList.update ?l (num (last nodes) + r) table"
    have new: "number_at new k = (if k = ?l then num (last nodes) + r else number_at table k)" for k
      by (simp add: new_def number_at_def update_conv')
    have last: "number_at table ?l = num (last nodes)" using at [of "last nodes"] assms(2) by simp
    have "sum_list (map (number_of table) nodes) + unat r \<le> sum_list (map (number_of new) nodes)"
      using assms(2) by (intro sum_last_changed) (auto simp: number_of_def new add last)
    with r(1) table True eq show ?thesis by (simp add: new_def)
  qed
qed

section \<open>A fresh assignment\<close>

definition ids_of :: "NodeInfo list \<Rightarrow> uint32 list" where
  "ids_of nodes = concat (map (\<lambda>node. map sh_ShardId (ni_Shards node)) nodes)"

definition own_shards :: "NodeInfo \<Rightarrow> bool" where
  "own_shards node \<longleftrightarrow> (\<forall>s \<in> set (ni_Shards node). sh_GroupName s = ni_GroupName node \<and> sh_NodeId s = ni_NodeId node \<and>
     sh_Role s = (if ni_Master node then Leader else Follower))"

lemma trim_nodes_empty:
  "\<forall>node \<in> set nodes. ni_Shards node = [] \<Longrightarrow> trim_nodes numbers nodes r a = (nodes, r, a)"
  by (induction nodes arbitrary: r a) (auto simp: move_number_def)

lemma fill_nodes_empty:
  "\<forall>node \<in> set nodes. ni_Shards node = [] \<Longrightarrow>
   ids_of (fill_nodes numbers nodes r) = take (sum_list (map (number_of numbers) nodes)) r \<and>
   list_all own_shards (fill_nodes numbers nodes r) \<and>
   map (\<lambda>node. node\<lparr>ni_Shards := []\<rparr>) (fill_nodes numbers nodes r) = nodes"
proof (induction nodes arbitrary: r)
  case (Cons n ns)
  let ?k = "number_of numbers n"
  define k where "k = (if int (length r) < - move_number numbers n then length r else nat (- move_number numbers n))"
  have move: "move_number numbers n = - int ?k"
    using Cons.prems by (simp add: move_number_def number_of_def)
  then have k: "take k r = take ?k r" "drop k r = drop ?k r" by (auto simp: k_def)
  show ?case
  proof (cases "?k = 0 \<or> r = []")
    case True
    then have "fill_nodes numbers (n # ns) r = n # fill_nodes numbers ns r" using move by (auto simp: Let_def)
    with Cons.IH [of r] Cons.prems True show ?thesis by (auto simp: ids_of_def own_shards_def)
  next
    case False
    then have "fill_nodes numbers (n # ns) r =
        n\<lparr>ni_Shards := map (new_shard n) (take ?k r)\<rparr> # fill_nodes numbers ns (drop ?k r)"
      using move k Cons.prems by (simp add: Let_def k_def)
    moreover have "own_shards (n\<lparr>ni_Shards := map (new_shard n) (take ?k r)\<rparr>)"
      by (auto simp: own_shards_def new_shard_def)
    moreover have "map sh_ShardId (map (new_shard n) xs) = xs" for xs
      by (induction xs) (simp_all add: new_shard_def)
    ultimately show ?thesis
      using Cons.IH [of "drop ?k r"] Cons.prems by (simp add: ids_of_def take_add)
  qed
qed (simp add: ids_of_def)

definition roomy :: "uint32 \<Rightarrow> uint32 \<Rightarrow> NodeInfo list \<Rightarrow> bool" where
  "roomy nan shards nodes \<longleftrightarrow> unat shards < 2147483648 \<and> unat nan \<le> 2147483648 \<and> length nodes \<le> 2097152 \<and>
     distinct (map ni_NodeId nodes) \<and> (\<forall>node \<in> set nodes. ni_Shards node = [] \<and> unat (ni_NodeId node) < 2147483648)"

lemma assign_fresh:
  assumes "roomy nan shards nodes" "nodes \<noteq> []"
  shows "ids_of (assignShardByRole nan shards nodes) = all_shards shards"
    "list_all own_shards (assignShardByRole nan shards nodes)"
    "map (\<lambda>node. node\<lparr>ni_Shards := []\<rparr>) (assignShardByRole nan shards nodes) = nodes"
proof -
  have empty: "\<forall>node \<in> set nodes. ni_Shards node = []" using assms(1) by (simp add: roomy_def)
  have "length (all_shards shards) \<le> sum_list (map (number_of (shardNumber nan shards nodes)) nodes)"
    using shardNumber_covers [of nodes shards nan] assms by (simp add: roomy_def all_shards_def)
  moreover have "assignShardByRole nan shards nodes = fill_nodes (shardNumber nan shards nodes) nodes (all_shards shards)"
    using trim_nodes_empty [OF empty] by (simp add: assignShardByRole_def)
  ultimately show "ids_of (assignShardByRole nan shards nodes) = all_shards shards"
    "list_all own_shards (assignShardByRole nan shards nodes)"
    "map (\<lambda>node. node\<lparr>ni_Shards := []\<rparr>) (assignShardByRole nan shards nodes) = nodes"
    using fill_nodes_empty [OF empty, of "shardNumber nan shards nodes" "all_shards shards"] by simp_all
qed

lemma assign_fresh_field:
  assumes "roomy nan shards nodes" "nodes \<noteq> []" "\<And>node. f (node\<lparr>ni_Shards := []\<rparr>) = f node"
  shows "map f (assignShardByRole nan shards nodes) = map f nodes"
proof -
  have "map f nodes = map f (map (\<lambda>node. node\<lparr>ni_Shards := []\<rparr>) (assignShardByRole nan shards nodes))"
    by (simp only: assign_fresh(3) [OF assms(1,2)])
  then show ?thesis using assms(3) by (simp add: comp_def)
qed

text \<open>Writing the nodes back under their identifiers.\<close>

abbreviation (input) store_nodes :: "NodeInfo list \<Rightarrow> (uint32, NodeInfo) gomap \<Rightarrow> (uint32, NodeInfo) gomap" where
  "store_nodes \<equiv> fold (\<lambda>node. AList.update (ni_NodeId node) node)"

definition keyed :: "(uint32, NodeInfo) gomap \<Rightarrow> bool" where
  "keyed nodes \<longleftrightarrow> distinct (map fst nodes) \<and> (\<forall>(k, node) \<in> set nodes. ni_NodeId node = k)"

lemma map_of_store_nodes:
  "distinct (map ni_NodeId ns) \<Longrightarrow>
   map_of (store_nodes ns nodes) k = (case find (\<lambda>node. ni_NodeId node = k) ns of None \<Rightarrow> map_of nodes k | Some node \<Rightarrow> Some node)"
proof (induction ns arbitrary: nodes)
  case (Cons n ns)
  have "find (\<lambda>node. ni_NodeId node = ni_NodeId n) ns = None"
    using Cons.prems by (simp add: find_None_iff) (metis image_eqI)
  with Cons show ?case by (auto simp: update_conv' split: option.splits)
qed simp

lemma in_updated: "x \<in> set (AList.update k v al) \<Longrightarrow> x = (k, v) \<or> x \<in> set al"
  by (induction al) (auto split: if_splits)

lemma keyed_store_nodes: "keyed nodes \<Longrightarrow> keyed (store_nodes ns nodes)"
proof (induction ns arbitrary: nodes)
  case (Cons n ns)
  have "keyed (AList.update (ni_NodeId n) n nodes)"
    using Cons.prems by (fastforce simp: keyed_def distinct_update dest: in_updated)
  with Cons.IH show ?case by simp
qed simp

lemma keyed_mem: "keyed nodes \<Longrightarrow> node \<in> snd ` set nodes \<longleftrightarrow> map_of nodes (ni_NodeId node) = Some node"
  by (force simp: keyed_def)

lemma keyed_distinct: "keyed nodes \<Longrightarrow> distinct (map (ni_NodeId \<circ> snd) nodes)"
proof -
  assume k: "keyed nodes"
  then have "map (ni_NodeId \<circ> snd) nodes = map fst nodes" by (auto simp: keyed_def)
  then show ?thesis using k unfolding keyed_def by (simp only:)
qed

lemma find_unique:
  "distinct (map f xs) \<Longrightarrow> find (\<lambda>x. f x = k) xs = Some y \<longleftrightarrow> y \<in> set xs \<and> f y = k"
  by (induction xs) (auto simp: rev_image_eqI)

lemma set_store_nodes:
  assumes "keyed nodes" "distinct (map ni_NodeId ns)"
  shows "snd ` set (store_nodes ns nodes) = set ns \<union> {node \<in> snd ` set nodes. ni_NodeId node \<notin> ni_NodeId ` set ns}"
proof -
  have "node \<in> snd ` set (store_nodes ns nodes) \<longleftrightarrow>
      node \<in> set ns \<or> node \<in> snd ` set nodes \<and> ni_NodeId node \<notin> ni_NodeId ` set ns" for node
  proof (cases "find (\<lambda>x. ni_NodeId x = ni_NodeId node) ns")
    case None
    then have "ni_NodeId node \<notin> ni_NodeId ` set ns" by (auto simp: find_None_iff)
    moreover from this have "node \<notin> set ns" by auto
    ultimately show ?thesis
      using None keyed_mem [OF keyed_store_nodes [OF assms(1)]] keyed_mem [OF assms(1)]
      by (simp add: map_of_store_nodes [OF assms(2)])
  next
    case (Some m)
    then have m: "m \<in> set ns" "ni_NodeId m = ni_NodeId node" using find_unique [OF assms(2)] by auto
    then have "ni_NodeId node \<in> ni_NodeId ` set ns" by (metis image_eqI)
    moreover have "node \<in> set ns \<longleftrightarrow> m = node"
      using m find_unique [OF assms(2), of "ni_NodeId node" node] Some by auto
    ultimately show ?thesis
      using Some keyed_mem [OF keyed_store_nodes [OF assms(1)]] by (simp add: map_of_store_nodes [OF assms(2)])
  qed
  then show ?thesis by blast
qed

definition of_role :: "bool \<Rightarrow> NodeInfo list \<Rightarrow> NodeInfo list" where
  "of_role b nodes = filter (\<lambda>node. ni_Master node = b) nodes"

definition covered :: "uint32 \<Rightarrow> NodeInfo list \<Rightarrow> bool" where
  "covered shards nodes \<longleftrightarrow> nodes = [] \<or> mset (ids_of nodes) = mset (all_shards shards)"

lemma ids_of_perm: "mset xs = mset ys \<Longrightarrow> mset (ids_of xs) = mset (ids_of ys)"
proof -
  have ids: "mset (ids_of zs) = sum_mset (image_mset (\<lambda>node. mset (map sh_ShardId (ni_Shards node))) (mset zs))" for zs
    by (induction zs) (simp_all add: ids_of_def)
  assume "mset xs = mset ys"
  then show ?thesis by (simp only: ids)
qed

definition reassigned :: "uint32 \<Rightarrow> uint32 \<Rightarrow> (uint32 \<times> NodeInfo) list \<Rightarrow> bool \<Rightarrow> NodeInfo list" where
  "reassigned nan shards ranged b =
     (let nodes = of_role b (map snd ranged) in if nodes = [] then [] else assignShardByRole nan shards nodes)"

lemma assign_group_eq:
  "assign_group nan shards ranged nodes =
     store_nodes (reassigned nan shards ranged False) (store_nodes (reassigned nan shards ranged True) nodes)"
  by (simp add: assign_group_def reassigned_def of_role_def Let_def)

lemma roomy_of_role:
  assumes "roomy nan shards nodes"
  shows "roomy nan shards (of_role b nodes)"
proof -
  have "distinct (map ni_NodeId (of_role b nodes))"
    using assms unfolding of_role_def by (intro distinct_map_filter) (simp add: roomy_def)
  moreover have "length (of_role b nodes) \<le> 2097152"
    using assms unfolding of_role_def roomy_def by (meson le_trans length_filter_le)
  moreover have "set (of_role b nodes) \<subseteq> set nodes" by (auto simp: of_role_def)
  ultimately show ?thesis using assms unfolding roomy_def by blast
qed

lemma roomy_perm:
  assumes "mset xs = mset ys" "roomy nan shards ys"
  shows "roomy nan shards xs"
  using assms mset_eq_length [OF assms(1)] mset_eq_setD [OF assms(1)]
    mset_eq_imp_distinct_iff [of "map ni_NodeId xs" "map ni_NodeId ys"]
  by (simp add: roomy_def)

lemma roomy_order: "is_order on \<Longrightarrow> roomy nan shards (map snd nodes) \<Longrightarrow> roomy nan shards (map snd (on nodes))"
  by (rule roomy_perm) (simp_all add: is_orderD)

lemma reassigned_facts:
  assumes "roomy nan shards (map snd ranged)"
  shows "map ni_NodeId (reassigned nan shards ranged b) = map ni_NodeId (of_role b (map snd ranged))"
    and "distinct (map ni_NodeId (reassigned nan shards ranged b))"
    and "node \<in> set (reassigned nan shards ranged b) \<Longrightarrow> ni_Master node = b"
    and "covered shards (reassigned nan shards ranged b)"
    and "list_all own_shards (reassigned nan shards ranged b)"
proof -
  let ?new = "reassigned nan shards ranged b" and ?part = "of_role b (map snd ranged)"
  note part = roomy_of_role [OF assms, of b]
  have fields: "map f ?new = map f ?part" if "\<And>node. f (node\<lparr>ni_Shards := []\<rparr>) = f node" for f :: "NodeInfo \<Rightarrow> 'x"
    using assign_fresh_field [OF part, of f] that by (simp add: reassigned_def Let_def)
  show ids: "map ni_NodeId ?new = map ni_NodeId ?part" by (rule fields) simp
  then show "distinct (map ni_NodeId ?new)" using part by (simp add: roomy_def)
  have "set (map ni_Master ?new) = set (map ni_Master ?part)" using fields [of ni_Master] by simp
  then show "ni_Master node = b" if "node \<in> set ?new" using that by (auto simp: of_role_def)
  show "covered shards ?new" "list_all own_shards ?new"
    using assign_fresh(1,2) [OF part] by (simp_all add: reassigned_def covered_def Let_def)
qed

lemma assign_group_nodes:
  assumes "keyed nodes" "is_order on" "roomy nan shards (map snd nodes)"
  shows "snd ` set (assign_group nan shards (on nodes) nodes) =
    set (reassigned nan shards (on nodes) True) \<union> set (reassigned nan shards (on nodes) False)"
proof -
  let ?new = "reassigned nan shards (on nodes)"
  note on = roomy_order [OF assms(2,3)]
  note facts = reassigned_facts [OF on]
  have ids: "ni_NodeId ` set (?new b) = ni_NodeId ` {node \<in> snd ` set nodes. ni_Master node = b}" for b
    using arg_cong [OF facts(1) [of b], of set] is_orderD(2) [OF assms(2), of nodes] by (auto simp: of_role_def)
  have same: "m = n" if "m \<in> snd ` set nodes" "n \<in> snd ` set nodes" "ni_NodeId m = ni_NodeId n" for m n
    using that keyed_mem [OF assms(1)] by (metis option.inject)
  have apart: "ni_NodeId x \<notin> ni_NodeId ` set (?new False)" if "x \<in> set (?new True)" for x
  proof
    assume "ni_NodeId x \<in> ni_NodeId ` set (?new False)"
    moreover have "ni_NodeId x \<in> ni_NodeId ` set (?new True)" using that by blast
    ultimately obtain m n where "m \<in> snd ` set nodes" "ni_Master m" "n \<in> snd ` set nodes" "\<not> ni_Master n"
      "ni_NodeId x = ni_NodeId m" "ni_NodeId x = ni_NodeId n"
      unfolding ids by (elim imageE CollectE conjE) blast
    then show False using same [of m n] by simp
  qed
  have all: "ni_NodeId x \<in> ni_NodeId ` set (?new True) \<or> ni_NodeId x \<in> ni_NodeId ` set (?new False)"
    if "x \<in> snd ` set nodes" for x
    using that unfolding ids by blast
  show ?thesis
    unfolding assign_group_eq set_store_nodes [OF keyed_store_nodes [OF assms(1)] facts(2)] set_store_nodes [OF assms(1) facts(2)]
    using apart all by blast
qed

lemma assign_group_fresh:
  assumes "keyed nodes" "is_order on" "roomy nan shards (map snd nodes)"
  shows "keyed (assign_group nan shards (on nodes) nodes)"
    and "covered shards (of_role b (map snd (assign_group nan shards (on nodes) nodes)))"
    and "list_all own_shards (map snd (assign_group nan shards (on nodes) nodes))"
proof -
  let ?new = "reassigned nan shards (on nodes)" and ?res = "assign_group nan shards (on nodes) nodes"
  note on = roomy_order [OF assms(2,3)]
  note facts = reassigned_facts [OF on] and all = assign_group_nodes [OF assms]
  show K: "keyed ?res" unfolding assign_group_eq by (intro keyed_store_nodes assms(1))
  have "set (of_role b (map snd ?res)) = set (?new b)"
    using facts(3) all by (cases b) (auto simp: of_role_def)
  moreover have "distinct (of_role b (map snd ?res))"
    using keyed_distinct [OF K] unfolding of_role_def by (intro distinct_filter) (auto simp: distinct_map dest: inj_on_imageI2)
  moreover have "distinct (?new b)" using facts(2) by (simp add: distinct_map)
  ultimately have perm: "mset (of_role b (map snd ?res)) = mset (?new b)" by (metis set_eq_iff_mset_eq_distinct)
  then have "of_role b (map snd ?res) = [] \<longleftrightarrow> ?new b = []" by (metis mset_zero_iff)
  then show "covered shards (of_role b (map snd ?res))"
    using facts(4) [of b] ids_of_perm [OF perm] by (simp add: covered_def)
  show "list_all own_shards (map snd ?res)" using all facts(5) by (auto simp: list_all_iff)
qed

lemma map_of_fold_update:
  "distinct (map fst xs) \<Longrightarrow>
   map_of (fold (\<lambda>(k, v). AList.update k (f k v)) xs al) k =
     (case map_of xs k of None \<Rightarrow> map_of al k | Some v \<Rightarrow> Some (f k v))"
proof (induction xs arbitrary: al)
  case (Cons x xs)
  then have "map_of xs (fst x) = None" by (simp add: map_of_eq_None_iff)
  with Cons show ?case by (cases x) (auto simp: update_conv' split: option.splits)
qed simp

lemma distinct_fold_update:
  "distinct (map fst al) \<Longrightarrow> distinct (map fst (fold (\<lambda>x. AList.update (g x) (h x)) xs al))"
  by (induction xs arbitrary: al) (simp_all add: distinct_update)

lemma in_fold_update:
  "e \<in> set (fold (\<lambda>x. AList.update (g x) (h x)) xs al) \<Longrightarrow> e \<in> set al \<or> (\<exists>x \<in> set xs. e = (g x, h x))"
proof (induction xs arbitrary: al)
  case (Cons x xs)
  then show ?case using in_updated [of e "g x" "h x" al] by fastforce
qed simp

lemma length_fold_update: "length (fold (\<lambda>x. AList.update (g x) (h x)) xs al) \<le> length al + length xs"
proof (induction xs arbitrary: al)
  case (Cons x xs)
  have "length (AList.update (g x) (h x) al) \<le> length al + 1" by (induction al) auto
  with Cons.IH [of "AList.update (g x) (h x) al"] show ?case by simp
qed simp

lemma group_nodes_facts:
  "keyed (group_nodes g)" "snd ` set (group_nodes g) \<subseteq> kept_info (gp_Name g) ` set (gp_Nodes g)"
  "length (group_nodes g) \<le> length (gp_Nodes g)"
proof -
  have "group_nodes g = store_nodes (map (kept_info (gp_Name g)) (gp_Nodes g)) []"
    by (simp add: group_nodes_def fold_map comp_def kept_info_def)
  then show "keyed (group_nodes g)" using keyed_store_nodes [of "[]"] by (simp add: keyed_def)
  show "snd ` set (group_nodes g) \<subseteq> kept_info (gp_Name g) ` set (gp_Nodes g)"
    unfolding group_nodes_def by (auto dest: in_fold_update)
  show "length (group_nodes g) \<le> length (gp_Nodes g)"
    unfolding group_nodes_def using length_fold_update [of _ _ _ "[]"] by simp
qed

lemma UpdateClusterInfo_groups:
  assumes "(name, nodes) \<in> set (sm_groups (UpdateClusterInfo city info m))"
  shows "\<exists>g \<in> set (ci_Groups info). name = gp_Name g \<and> nodes = group_nodes g"
  using assms by (auto simp: UpdateClusterInfo_def dest: in_fold_update)

lemma UpdateClusterInfo_distinct: "distinct (map fst (sm_groups (UpdateClusterInfo city info m)))"
  by (simp add: UpdateClusterInfo_def distinct_fold_update)

lemma AssignShards_groups:
  assumes "is_order og" "distinct (map fst (sm_groups m))"
    and "(name, nodes') \<in> set (sm_groups (AssignShards og on nan m))"
  shows "\<exists>nodes. (name, nodes) \<in> set (sm_groups m) \<and> nodes' = assign_group nan (sm_shardTotal m) (on nodes) nodes"
proof -
  let ?gs = "fold (\<lambda>(k, v). AList.update k (assign_group nan (sm_shardTotal m) (on v) v)) (og (sm_groups m)) (sm_groups m)"
  have "distinct (map fst ?gs)"
    using distinct_fold_update [OF assms(2), of fst "\<lambda>x. assign_group nan (sm_shardTotal m) (on (snd x)) (snd x)" "og (sm_groups m)"]
    by (simp add: case_prod_unfold)
  then have "map_of ?gs name = Some nodes'" using assms(3) by (simp add: AssignShards_def)
  moreover have "distinct (map fst (og (sm_groups m)))" using assms(1,2) by (simp add: is_orderD)
  ultimately show ?thesis
    using map_of_order [OF assms(1,2)] map_of_SomeD [of "sm_groups m" name]
    by (auto simp: map_of_fold_update split: option.splits)
qed

text \<open>C10. The first assignment of a cluster whose nodes hold no shards gives, in each group, every shard of
  the cluster to exactly one of the masters and to exactly one of the other nodes, if there are any, whatever the
  weights of the nodes; every shard is stored with its node, and with the role of its node. That holds in every
  order in which the maps of the groups and nodes are ranged over.\<close>

theorem AssignShards_fresh:
  assumes "is_order og" "is_order on" "unat (ci_ShardTotal info) < 2147483648" "unat nan \<le> 2147483648"
    and "\<forall>g \<in> set (ci_Groups info). length (gp_Nodes g) \<le> 2097152 \<and>
      (\<forall>node \<in> set (gp_Nodes g). ni_Shards node = [] \<and> unat (ni_NodeId node) < 2147483648)"
    and "(name, nodes) \<in> set (sm_groups (AssignShards og on nan (UpdateClusterInfo city info m)))"
  shows "covered (ci_ShardTotal info) (of_role b (map snd nodes)) \<and> list_all own_shards (map snd nodes)"
proof -
  let ?m = "UpdateClusterInfo city info m"
  have shards: "sm_shardTotal ?m = ci_ShardTotal info" by (simp add: UpdateClusterInfo_def)
  obtain nodes0 where nodes0: "(name, nodes0) \<in> set (sm_groups ?m)"
    "nodes = assign_group nan (ci_ShardTotal info) (on nodes0) nodes0"
    using AssignShards_groups [OF assms(1) UpdateClusterInfo_distinct assms(6)] shards by auto
  obtain g where g: "g \<in> set (ci_Groups info)" "nodes0 = group_nodes g"
    using UpdateClusterInfo_groups [OF nodes0(1)] by blast
  have "\<forall>node \<in> snd ` set nodes0. ni_Shards node = [] \<and> unat (ni_NodeId node) < 2147483648"
    using group_nodes_facts(2) [of g] g assms(5) by (fastforce simp: kept_info_def)
  moreover have "length nodes0 \<le> 2097152" using group_nodes_facts(3) [of g] g assms(5) le_trans by auto
  ultimately have "roomy nan (ci_ShardTotal info) (map snd nodes0)"
    using keyed_distinct [OF group_nodes_facts(1) [of g]] assms(3,4) by (simp add: roomy_def g(2))
  with group_nodes_facts(1) [of g] g(2) have "keyed nodes0" "roomy nan (ci_ShardTotal info) (map snd nodes0)" by simp_all
  from assign_group_fresh(2,3) [OF this(1) assms(2) this(2)] nodes0(2) show ?thesis by simp
qed

definition example_node :: "uint32 \<Rightarrow> bool \<Rightarrow> uint32 \<Rightarrow> uint32 list \<Rightarrow> NodeInfo" where
  "example_node i master w ids =
     (let n = \<lparr>ni_GroupName = ''g'', ni_NodeId = i, ni_Host = ''h'', ni_Port = 8080, ni_Weight = w, ni_Master = master,
                ni_Active = NodeActive, ni_Shards = [], ni_IsEdgeNode = False\<rparr>
      in n\<lparr>ni_Shards := map (new_shard n) ids\<rparr>)"

definition example_cluster_info :: "uint32 \<Rightarrow> NodeInfo list \<Rightarrow> control_ClusterInfo" where
  "example_cluster_info shards nodes =
     \<lparr>ci_Name = ''c'', ci_ShardTotal = shards, ci_Dcs = [],
      ci_Groups = [\<lparr>gp_Id = 1, gp_Name = ''g'', gp_DcName = ''dc'', gp_Alias = [], gp_Nodes = nodes\<rparr>]\<rparr>"

definition fresh_cluster :: control_ClusterInfo where
  "fresh_cluster = example_cluster_info 7 [example_node 1 True 2 [], example_node 2 True 1 [], example_node 3 False 5 []]"

theorem AssignShards_fresh_witness:
  "\<exists>nodes. (''g'', nodes) \<in> set (sm_groups (AssignShards rev rev 0 (GetShardModel (\<lambda>s n seed. seed) fresh_cluster))) \<and>
     covered 7 (of_role True (map snd nodes))"
proof -
  obtain nodes where "(''g'', nodes) \<in> set (sm_groups (AssignShards rev rev 0 (GetShardModel (\<lambda>s n seed. seed) fresh_cluster)))"
    by (auto simp: AssignShards_def GetShardModel_def UpdateClusterInfo_def fresh_cluster_def example_cluster_info_def)
  moreover from this have "covered (ci_ShardTotal fresh_cluster) (of_role True (map snd nodes))"
    unfolding GetShardModel_def
    by (intro AssignShards_fresh [THEN conjunct1, of rev rev _ 0])
      (auto simp: is_order_rev fresh_cluster_def example_cluster_info_def example_node_def)
  ultimately show ?thesis by (auto simp: fresh_cluster_def example_cluster_info_def)
qed




section \<open>The stored form is read back\<close>

lemma trim_left_keep:
  assumes "c \<notin> hd ` set codes" "[] \<notin> set codes"
  shows "trim_left n codes (c # s) = c # s"
proof (cases n)
  case (Suc k)
  have "take (length p) (c # s) \<noteq> p" if "p \<in> set codes" for p
  proof
    assume eq: "take (length p) (c # s) = p"
    have "p \<noteq> []" using that assms(2) by auto
    then have "hd p = c" using eq by (metis hd_take length_greater_0_conv list.sel(1))
    with that assms(1) show False by auto
  qed
  then have "find (\<lambda>p. take (length p) (c # s) = p) codes = None" by (auto simp: find_None_iff)
  with Suc show ?thesis by simp
qed simp

lemma digit_not_space:
  "digit_val c = Some d \<Longrightarrow> c \<notin> hd ` set space_codes" "digit_val c = Some d \<Longrightarrow> c \<notin> hd ` set (map rev space_codes)"
  "[] \<notin> set space_codes"
proof -
  have "list_all (\<lambda>p. digit_val (hd p) = None \<and> digit_val (hd (rev p)) = None \<and> p \<noteq> []) space_codes" by code_simp
  then show "digit_val c = Some d \<Longrightarrow> c \<notin> hd ` set space_codes" "[] \<notin> set space_codes"
    "digit_val c = Some d \<Longrightarrow> c \<notin> hd ` set (map rev space_codes)"
    by (auto simp: list_all_iff)
qed

lemma FormatUint_all_digits: "FormatUint n \<noteq> []" "c \<in> set (FormatUint n) \<Longrightarrow> \<exists>d. digit_val c = Some d"
proof -
  obtain ds where ds: "map digit_val (FormatUint n) = map Some ds" using FormatUint_decimal by blast
  show "FormatUint n \<noteq> []" by (subst FormatUint.simps) simp
  assume "c \<in> set (FormatUint n)"
  then have "digit_val c \<in> set (map Some ds)" unfolding ds [symmetric] by simp
  then show "\<exists>d. digit_val c = Some d" by auto
qed

lemma TrimSpace_digits:
  assumes "s \<noteq> []" "\<And>c. c \<in> set s \<Longrightarrow> \<exists>d. digit_val c = Some d"
  shows "TrimSpace s = s"
proof -
  obtain c t where s: "s = c # t" using assms(1) by (cases s) auto
  then have l: "trim_left n space_codes s = s" for n
    using assms(2) [of c] digit_not_space trim_left_keep [of c space_codes] by auto
  obtain c' t' where r: "rev s = c' # t'" using assms(1) by (cases "rev s") auto
  then have "c' \<in> set s" by (metis list.set_intros(1) set_rev)
  moreover have "[] \<notin> set (map rev space_codes)" using digit_not_space(3) by auto
  ultimately have "trim_left n (map rev space_codes) (rev s) = rev s" for n
    using assms(2) [of c'] digit_not_space trim_left_keep [of c' "map rev space_codes"] r by auto
  with l show ?thesis by (simp add: TrimSpace_def)
qed

text \<open>\<open>encoding/json\<close> decodes an object only into a struct: it refuses a list of numbers without brackets.\<close>

definition refuses_lists :: "(string \<Rightarrow> ShardsListStruct list option) \<Rightarrow> bool" where
  "refuses_lists unmarshal \<longleftrightarrow> (\<forall>ns. unmarshal (Join (CHR '','') (map FormatUint ns)) = None)"

lemma comma_free: "CHR '','' \<notin> set (FormatUint n)"
proof
  assume "CHR '','' \<in> set (FormatUint n)"
  from FormatUint_all_digits(2) [OF this] show False by (auto simp: digit_val_def)
qed

lemma extract_joined:
  assumes "refuses_lists unmarshal"
  shows "extractUniqueShards unmarshal (Join (CHR '','') (map FormatUint ns)) = map FormatUint ns"
proof (cases "ns = []")
  case True
  then show ?thesis using assms [unfolded refuses_lists_def, rule_format, of "[]"] by (simp add: extractUniqueShards_def)
next
  case False
  then obtain n ns' where ns: "ns = n # ns'" by (cases ns) auto
  then have "Join (CHR '','') (map FormatUint ns) \<noteq> []"
    using FormatUint_all_digits(1) by (cases ns') auto
  moreover have "Split (CHR '','') (Join (CHR '','') (map FormatUint ns)) = map FormatUint ns"
    using False comma_free by (intro Split_Join) auto
  ultimately show ?thesis using assms by (simp add: extractUniqueShards_def refuses_lists_def)
qed

definition as_stored :: "Node \<Rightarrow> ShardRole \<Rightarrow> ShardState \<Rightarrow> uint32 \<Rightarrow> Shard" where
  "as_stored node role state i =
     \<lparr>sh_GroupName = nd_GroupName node, sh_NodeId = nd_NodeId node, sh_ShardId = i, sh_Role = role, sh_State = state\<rparr>"

lemma parse_formatted: "parse_shard node role state (FormatUint (unat i)) = [as_stored node role state i]"
proof -
  have "ParseUint 32 (FormatUint (unat i)) = Value (unat i)"
    using unat32_less [of i] by (intro ParseUint_FormatUint) simp
  then show ?thesis
    using TrimSpace_digits [OF FormatUint_all_digits] by (simp add: parse_shard_def as_stored_def)
qed

lemma parse_all:
  assumes "refuses_lists unmarshal"
  shows "concat (map (parse_shard node role state)
      (extractUniqueShards unmarshal (Join (CHR '','') (map (\<lambda>s. FormatUint (unat (sh_ShardId s))) shards)))) =
    map (\<lambda>s. as_stored node role state (sh_ShardId s)) shards"
proof -
  have "map (\<lambda>s. FormatUint (unat (sh_ShardId s))) shards = map FormatUint (map (\<lambda>s. unat (sh_ShardId s)) shards)" by simp
  then have "extractUniqueShards unmarshal (Join (CHR '','') (map (\<lambda>s. FormatUint (unat (sh_ShardId s))) shards)) =
      map (\<lambda>s. FormatUint (unat (sh_ShardId s))) shards"
    using extract_joined [OF assms] by metis
  then show ?thesis by (simp add: comp_def parse_formatted)
qed

text \<open>C27. The two lists of numbers that \<open>shardSliceToStrList\<close> writes for the shards of a node are read by
  \<open>shardStrListToSlice\<close> as the same shards: all those with the role of a leader, and after them all those
  with the role of a follower, in their order, none lost and none twice as often.\<close>

theorem shardStrList_round_trip:
  assumes "refuses_lists unmarshal" and "shardSliceToStrList shards = (leaders, followers)"
  shows "shardStrListToSlice unmarshal (node\<lparr>nd_LeaderShardList := Some leaders, nd_FollowerShardList := Some followers\<rparr>) =
    Inr (map (\<lambda>s. as_stored node Leader LeaderStatus (sh_ShardId s)) (filter (\<lambda>s. sh_Role s = Leader) shards) @
         map (\<lambda>s. as_stored node Follower FollowerStatus (sh_ShardId s)) (filter (\<lambda>s. sh_Role s = Follower) shards))"
proof -
  have "as_stored (node\<lparr>nd_LeaderShardList := x, nd_FollowerShardList := y\<rparr>) = as_stored node" for x y
    by (intro ext) (simp add: as_stored_def)
  then show ?thesis
    using assms(2) by (auto simp: shardStrListToSlice_def shardSliceToStrList_def parse_all [OF assms(1)])
qed

definition example_row :: Node where
  "example_row = \<lparr>nd_NodeId = 3, nd_Active = NodeActive, nd_Host = ''h'', nd_Port = 8080, nd_Weight = 1, nd_Master = True,
     nd_IsEdgeNode = False, nd_GroupName = ''g'', nd_LeaderShardList = None, nd_FollowerShardList = None\<rparr>"

theorem shardStrList_round_trip_witness:
  "shardStrListToSlice (\<lambda>s. None) (example_row\<lparr>nd_LeaderShardList := Some ''12,5'', nd_FollowerShardList := Some []\<rparr>) =
     Inr [as_stored example_row Leader LeaderStatus 12, as_stored example_row Leader LeaderStatus 5]"
proof -
  let ?shards = "[as_stored example_row Leader 0 12, as_stored example_row Leader 0 5]"
  have "shardSliceToStrList ?shards = (''12,5'', [])"
    by (simp add: shardSliceToStrList_def as_stored_def) code_simp
  then show ?thesis
    using shardStrList_round_trip [of "\<lambda>s. None" ?shards "''12,5''" "[]" example_row]
    by (simp add: refuses_lists_def) (simp add: as_stored_def)
qed

section \<open>A version is loaded back\<close>

text \<open>Changing the value of a key in place.\<close>

definition adjust :: "'k \<Rightarrow> ('v \<Rightarrow> 'v) \<Rightarrow> ('k, 'v) gomap \<Rightarrow> ('k, 'v) gomap" where
  "adjust k f al = map (\<lambda>(i, v). (i, if i = k then f v else v)) al"

lemma fst_adjust [simp]: "map fst (adjust k f al) = map fst al"
  by (simp add: adjust_def comp_def case_prod_unfold)

lemma adjust_other: "k \<notin> fst ` set al \<Longrightarrow> adjust k f al = al"
  unfolding adjust_def by (induction al) auto

lemma adjust_update:
  "distinct (map fst al) \<Longrightarrow> map_of al k = Some v \<Longrightarrow> AList.update k (f v) al = adjust k f al"
proof (induction al)
  case (Cons e al)
  then show ?case
    using adjust_other [of k al f] by (cases e) (auto simp: adjust_def split: if_splits)
qed simp

lemma fold_adjust:
  "distinct (map key xs) \<Longrightarrow>
   fold (\<lambda>x. adjust (key x) (f x)) xs al =
     map (\<lambda>(k, v). (k, case find (\<lambda>x. key x = k) xs of None \<Rightarrow> v | Some x \<Rightarrow> f x v)) al"
proof (induction xs arbitrary: al)
  case Nil
  then show ?case by (simp add: case_prod_unfold)
next
  case (Cons x xs)
  have "find (\<lambda>y. key y = key x) xs = None"
    using Cons.prems by (simp add: find_None_iff) (metis image_eqI)
  with Cons show ?case by (auto simp: adjust_def case_prod_unfold split: option.splits)
qed

lemma adjust_case:
  "distinct (map fst al) \<Longrightarrow> (case map_of al k of None \<Rightarrow> al | Some v \<Rightarrow> AList.update k (f v) al) = adjust k f al"
proof (cases "map_of al k")
  case None
  then have "k \<notin> fst ` set al" by (simp add: map_of_eq_None_iff)
  with None show ?thesis using adjust_other [of k al f] by simp
next
  case (Some v)
  moreover assume "distinct (map fst al)"
  ultimately show ?thesis using adjust_update [of al k v f] by simp
qed

lemma load_node_adjust:
  "distinct (map fst nodes) \<Longrightarrow>
   load_node name v nodes = adjust (nv_NodeId v) (\<lambda>node. node\<lparr>ni_Shards := ni_Shards node @ version_shards name v\<rparr>) nodes"
  unfolding load_node_def by (rule adjust_case)

lemma load_nodes_adjust:
  "distinct (map fst nodes) \<Longrightarrow> fold (load_node name) vs nodes =
     fold (\<lambda>v. adjust (nv_NodeId v) (\<lambda>node. node\<lparr>ni_Shards := ni_Shards node @ version_shards name v\<rparr>)) vs nodes"
  by (induction vs arbitrary: nodes) (simp_all add: load_node_adjust)

lemma load_group_adjust:
  "distinct (map fst groups) \<Longrightarrow>
   load_group g groups = adjust (gv_GroupName g) (fold (load_node (gv_GroupName g)) (gv_Nodes g)) groups"
  unfolding load_group_def by (rule adjust_case)

lemma load_groups_adjust:
  "distinct (map fst groups) \<Longrightarrow> fold load_group gs groups =
     fold (\<lambda>g. adjust (gv_GroupName g) (fold (load_node (gv_GroupName g)) (gv_Nodes g))) gs groups"
  by (induction gs arbitrary: groups) (simp_all add: load_group_adjust)

definition managed :: "ShardManager \<Rightarrow> bool" where
  "managed m \<longleftrightarrow> distinct (map fst (sm_groups m)) \<and>
     (\<forall>(name, nodes) \<in> set (sm_groups m). keyed nodes \<and> (\<forall>(i, node) \<in> set nodes. ni_GroupName node = name))"

lemma group_nodes_named: "(i, node) \<in> set (group_nodes g) \<Longrightarrow> ni_GroupName node = gp_Name g"
proof -
  assume "(i, node) \<in> set (group_nodes g)"
  then have "node \<in> snd ` set (group_nodes g)" by force
  then obtain n where "node = kept_info (gp_Name g) n" using group_nodes_facts(2) [of g] by blast
  then show ?thesis by (simp add: kept_info_def)
qed

lemma UpdateClusterInfo_managed: "managed (UpdateClusterInfo city info m)"
  unfolding managed_def
proof (intro conjI ballI UpdateClusterInfo_distinct)
  fix e assume e: "e \<in> set (sm_groups (UpdateClusterInfo city info m))"
  obtain name nodes where e': "e = (name, nodes)" by (cases e)
  obtain g where "name = gp_Name g" "nodes = group_nodes g"
    using UpdateClusterInfo_groups [OF e [unfolded e']] by blast
  then show "case e of (name, nodes) \<Rightarrow> keyed nodes \<and> (\<forall>(i, node) \<in> set nodes. ni_GroupName node = name)"
    using group_nodes_facts(1) [of g] group_nodes_named [of _ _ g] e' by auto
qed

definition reloaded :: "string \<Rightarrow> NodeInfo \<Rightarrow> Shard list" where
  "reloaded name node = (if ni_Active node = NodeInactive then [] else version_shards name (node_version node))"

lemma find_version:
  assumes "keyed nodes" "(i, node) \<in> set nodes" "distinct ids" "set ids = fst ` set nodes"
  shows "find (\<lambda>v. nv_NodeId v = i) (map node_version (filter P (map (\<lambda>k. the (map_of nodes k)) ids))) =
    (if P node then Some (node_version node) else None)"
proof -
  have at: "map_of nodes i = Some node" "ni_NodeId node = i" using assms(1,2) by (auto simp: keyed_def)
  have id: "ni_NodeId (the (map_of nodes k)) = k" if "k \<in> set ids" for k
    using that assms(1,4) by (force simp: keyed_def)
  have "find (\<lambda>v. nv_NodeId v = i) (map node_version (filter P (map (\<lambda>k. the (map_of nodes k)) ks))) =
      (if i \<in> set ks \<and> P node then Some (node_version node) else None)"
    if "distinct ks" "set ks \<subseteq> set ids" for ks
    using that
  proof (induction ks)
    case (Cons k ks)
    then show ?case using id [of k] at by (auto simp: node_version_def)
  qed simp
  moreover have "i \<in> set ids" using assms(2,4) by force
  ultimately show ?thesis using assms(3) by simp
qed

lemma load_back:
  assumes "keyed nodes" "\<forall>(i, node) \<in> set nodes. ni_GroupName node = name" "map_of (sm_groups m) name = Some nodes"
  shows "fold (load_node name) (gv_Nodes (group_version m name)) (map (\<lambda>(i, node). (i, node\<lparr>ni_Shards := []\<rparr>)) nodes) =
    map (\<lambda>(i, node). (i, node\<lparr>ni_Shards := reloaded name node\<rparr>)) nodes"
proof -
  let ?P = "\<lambda>node. ni_GroupName node = name \<and> ni_Active node \<noteq> NodeInactive"
  let ?ids = "sort (map fst nodes)"
  let ?vs = "map node_version (filter ?P (map (\<lambda>k. the (map_of nodes k)) ?ids))"
  have ids: "distinct ?ids" "set ?ids = fst ` set nodes" using assms(1) by (simp_all add: keyed_def)
  have id: "ni_NodeId (the (map_of nodes k)) = k" if "k \<in> set ?ids" for k
    using that assms(1) by (force simp: keyed_def)
  have "map nv_NodeId (map node_version (map (\<lambda>k. the (map_of nodes k)) ?ids)) = ?ids"
    unfolding map_map by (rule map_idI) (use id in \<open>simp add: node_version_def\<close>)
  then have "distinct (map (nv_NodeId \<circ> node_version) (map (\<lambda>k. the (map_of nodes k)) ?ids))"
    using ids(1) by (simp add: comp_def)
  then have "distinct (map (nv_NodeId \<circ> node_version) (filter ?P (map (\<lambda>k. the (map_of nodes k)) ?ids)))"
    by (rule distinct_map_filter)
  then have d: "distinct (map nv_NodeId ?vs)" by simp
  have "distinct (map fst (map (\<lambda>(i, node). (i, node\<lparr>ni_Shards := []\<rparr>)) nodes))"
    using assms(1) by (simp add: keyed_def comp_def case_prod_unfold)
  then have "fold (load_node name) ?vs (map (\<lambda>(i, node). (i, node\<lparr>ni_Shards := []\<rparr>)) nodes) =
      map (\<lambda>(i, node). (i, case find (\<lambda>v. nv_NodeId v = i) ?vs of None \<Rightarrow> node
        | Some v \<Rightarrow> node\<lparr>ni_Shards := ni_Shards node @ version_shards name v\<rparr>))
        (map (\<lambda>(i, node). (i, node\<lparr>ni_Shards := []\<rparr>)) nodes)"
    by (simp only: load_nodes_adjust fold_adjust [OF d])
  also have "\<dots> = map (\<lambda>(i, node). (i, node\<lparr>ni_Shards := reloaded name node\<rparr>)) nodes"
    using find_version [OF assms(1) _ ids, of _ _ ?P] assms(2) by (auto simp: reloaded_def)
  finally show ?thesis using assms(3) by (simp add: group_version_def)
qed

lemma version_round_trip:
  assumes "managed m" "unmarshal (marshal (convertNodeShardsToVersionData m)) = Some (convertNodeShardsToVersionData m)"
  shows "convertVersionToNodeShards unmarshal (GetCurrentVersionData marshal m) m =
    (StatusOk, m\<lparr>sm_groups := map (\<lambda>(name, nodes). (name, map (\<lambda>(i, node). (i, node\<lparr>ni_Shards := reloaded name node\<rparr>)) nodes)) (sm_groups m)\<rparr>)"
proof -
  let ?names = "sort (map fst (sm_groups m))" and ?clear = "\<lambda>(name, nodes). (name, map (\<lambda>(i, node). (i, node\<lparr>ni_Shards := []\<rparr>)) nodes)"
  have "map gv_GroupName (map (group_version m) ?names) = ?names"
    unfolding map_map by (rule map_idI) (simp add: group_version_def Let_def)
  moreover have names: "distinct ?names" "distinct (map fst (map ?clear (sm_groups m)))"
    using assms(1) by (simp_all add: managed_def comp_def case_prod_unfold)
  ultimately have d: "distinct (map gv_GroupName (map (group_version m) ?names))" by (simp only:)
  have find: "find (\<lambda>g. gv_GroupName g = name) (map (group_version m) ns) = (if name \<in> set ns then Some (group_version m name) else None)" for name ns
    by (induction ns) (auto simp: group_version_def Let_def)
  have "fold load_group (map (group_version m) ?names) (map ?clear (sm_groups m)) =
      map (\<lambda>(name, nodes). (name, map (\<lambda>(i, node). (i, node\<lparr>ni_Shards := reloaded name node\<rparr>)) nodes)) (sm_groups m)"
    unfolding load_groups_adjust [OF names(2)] fold_adjust [OF d] map_map
  proof (rule map_cong [OF refl])
    fix e assume e: "e \<in> set (sm_groups m)"
    obtain name nodes where e': "e = (name, nodes)" by (cases e)
    with e assms(1) have "keyed nodes" "\<forall>(i, node) \<in> set nodes. ni_GroupName node = name" "map_of (sm_groups m) name = Some nodes"
      by (auto simp: managed_def)
    from load_back [OF this] have loaded: "fold (load_node name) (gv_Nodes (group_version m name)) (map (\<lambda>(i, node). (i, node\<lparr>ni_Shards := []\<rparr>)) nodes) =
        map (\<lambda>(i, node). (i, node\<lparr>ni_Shards := reloaded name node\<rparr>)) nodes" .
    have "name \<in> fst ` set (sm_groups m)" using e e' by force
    moreover have "gv_GroupName (group_version m name) = name" by (simp add: group_version_def Let_def)
    ultimately show "((\<lambda>(k, v). (k, case find (\<lambda>g. gv_GroupName g = k) (map (group_version m) ?names) of None \<Rightarrow> v
        | Some g \<Rightarrow> fold (load_node (gv_GroupName g)) (gv_Nodes g) v)) \<circ> ?clear) e =
      (case e of (name, nodes) \<Rightarrow> (name, map (\<lambda>(i, node). (i, node\<lparr>ni_Shards := reloaded name node\<rparr>)) nodes))"
      using loaded by (simp add: e' find)
  qed
  then show ?thesis
    using assms(2) by (simp add: convertVersionToNodeShards_def GetCurrentVersionData_def Let_def)
      (simp add: convertNodeShardsToVersionData_def)
qed

definition assigned :: "NodeInfo \<Rightarrow> (uint32 \<times> ShardRole) list" where
  "assigned node = map (\<lambda>s. (sh_ShardId s, sh_Role s)) (ni_Shards node)"

definition same_node :: "uint32 \<times> NodeInfo \<Rightarrow> uint32 \<times> NodeInfo \<Rightarrow> bool" where
  "same_node e e' \<longleftrightarrow> fst e' = fst e \<and> (snd e')\<lparr>ni_Shards := ni_Shards (snd e)\<rparr> = snd e \<and>
     mset (assigned (snd e')) = (if ni_Active (snd e) = NodeInactive then {#} else mset (assigned (snd e)))"

lemma assigned_version:
  "\<forall>s \<in> set (ni_Shards node). sh_Role s = Leader \<or> sh_Role s = Follower \<Longrightarrow>
   mset (map (\<lambda>s. (sh_ShardId s, sh_Role s)) (version_shards name (node_version node))) = mset (assigned node)"
proof -
  have "mset (map (\<lambda>i. (i, Leader)) (map sh_ShardId (filter (\<lambda>s. sh_Role s = Leader) ss))) +
      mset (map (\<lambda>i. (i, Follower)) (map sh_ShardId (filter (\<lambda>s. sh_Role s \<noteq> Leader) ss))) =
      mset (map (\<lambda>s. (sh_ShardId s, sh_Role s)) ss)"
    if "\<forall>s \<in> set ss. sh_Role s = Leader \<or> sh_Role s = Follower" for ss
    using that by (induction ss) auto
  moreover assume "\<forall>s \<in> set (ni_Shards node). sh_Role s = Leader \<or> sh_Role s = Follower"
  ultimately show ?thesis by (simp add: version_shards_def node_version_def assigned_def comp_def)
qed

text \<open>C28. The version that \<open>GetCurrentVersionData\<close> writes for the nodes of a cluster is loaded by
  \<open>convertVersionToNodeShards\<close> into the same groups with the same nodes: every active node holds the same
  shards with the same roles as before. A node that is not active loses its shards.\<close>

theorem version_data_round_trip:
  assumes "unmarshal (marshal (convertNodeShardsToVersionData m)) = Some (convertNodeShardsToVersionData m)"
    and "\<forall>g \<in> set (ci_Groups info). \<forall>node \<in> set (gp_Nodes g). \<forall>s \<in> set (ni_Shards node). sh_Role s = Leader \<or> sh_Role s = Follower"
    and "m = UpdateClusterInfo city info m0"
  shows "\<exists>groups. convertVersionToNodeShards unmarshal (GetCurrentVersionData marshal m) m = (StatusOk, m\<lparr>sm_groups := groups\<rparr>) \<and>
    list_all2 (\<lambda>(name, nodes) (name', nodes'). name' = name \<and> list_all2 same_node nodes nodes') (sm_groups m) groups"
proof -
  have m: "managed m" unfolding assms(3) by (rule UpdateClusterInfo_managed)
  let ?load = "\<lambda>(name, nodes). (name, map (\<lambda>(i, node). (i, node\<lparr>ni_Shards := reloaded name node\<rparr>)) nodes)"
  have "same_node (i, node) (i, node\<lparr>ni_Shards := reloaded name node\<rparr>)"
    if e: "(name, nodes) \<in> set (sm_groups m)" and i: "(i, node) \<in> set nodes" for name nodes i node
  proof -
    obtain g where "g \<in> set (ci_Groups info)" "nodes = group_nodes g"
      using UpdateClusterInfo_groups [OF e [unfolded assms(3)]] by blast
    then have "\<forall>s \<in> set (ni_Shards node). sh_Role s = Leader \<or> sh_Role s = Follower"
      using group_nodes_facts(2) [of g] i assms(2) by (fastforce simp: kept_info_def)
    from assigned_version [OF this, of name] show ?thesis by (simp add: same_node_def reloaded_def assigned_def)
  qed
  then have "list_all2 (\<lambda>(name, nodes) (name', nodes'). name' = name \<and> list_all2 same_node nodes nodes') (sm_groups m) (map ?load (sm_groups m))"
    by (simp add: list_all2_map2 list.rel_refl_strong case_prod_unfold) (auto intro!: list.rel_refl_strong)
  with version_round_trip [OF m, of unmarshal marshal] assms(1) show ?thesis by auto
qed

definition running_cluster :: control_ClusterInfo where
  "running_cluster = example_cluster_info 2 [example_node 1 True 1 [0, 1], example_node 2 False 1 [1]]"

theorem version_data_round_trip_witness:
  "\<exists>groups. let m = GetShardModel (\<lambda>s n seed. seed) running_cluster in
     convertVersionToNodeShards (\<lambda>s. Some (convertNodeShardsToVersionData m)) (GetCurrentVersionData (\<lambda>v. ''v'') m) m =
       (StatusOk, m\<lparr>sm_groups := groups\<rparr>) \<and>
     list_all2 (\<lambda>(name, nodes) (name', nodes'). name' = name \<and> list_all2 same_node nodes nodes') (sm_groups m) groups"
  unfolding Let_def
  by (rule version_data_round_trip [OF _ _ GetShardModel_def])
    (simp_all add: running_cluster_def example_cluster_info_def example_node_def new_shard_def Let_def)

end
