(* ===== verification/Laser_Validator.thy ===== *)
theory Laser_Validator
  imports Laser_Shards
begin

text \<open>
  The checks before a group becomes the master group, from \<^verbatim>\<open>src/control/service/config_validator.go\<close>: the
  shards that the nodes of the group serve against those of the cluster, and the shards that each node serves
  against those that are configured for it. The rows of the database, the metrics cache and the state of the shards are
  arguments. The comparison of the configuration in Consul with the generated one is not modelled.
\<close>

record CheckGroupReadyToBeMasterResult =
  ck_Ready :: bool
  ck_MssingShards :: "uint32 list"
  ck_ReduplicativeShards :: "uint32 list"
  ck_UnavailableShards :: "(uint32, uint32 list) gomap"
  ck_InconsistentNodes :: "uint32 list"

datatype check_status = CheckOk | CheckClusterNotExist | CheckGroupNotExist

record check_env =
  ce_order_shards :: "(string \<times> ShardStatus) list \<Rightarrow> (string \<times> ShardStatus) list"
  ce_order_missing :: "uint32 list \<Rightarrow> uint32 list"
  ce_order_infos :: "(string \<times> ShardInfo) list \<Rightarrow> (string \<times> ShardInfo) list"
  ck_unmarshal :: "string \<Rightarrow> ShardsListStruct list option"
  ck_city :: cityhash

section \<open>What a node serves\<close>

text \<open>The loop over the shards that a node serves: the configured shards that are left, and whether one is served that
  is not configured, or no longer among them.\<close>

fun compare_served :: "uint32 list \<Rightarrow> uint32 set \<Rightarrow> uint32 set \<times> bool" where
  "compare_served [] localShards = (localShards, False)"
| "compare_served (shardId # ids) localShards =
     (if shardId \<notin> localShards then (localShards, True) else compare_served ids (localShards - {shardId}))"

definition local_shards :: "string list \<Rightarrow> uint32 set" where
  "local_shards strs = (\<Union>s \<in> set strs. case ParseUint 32 s of Value n \<Rightarrow> {of_nat n} | _ \<Rightarrow> {})"

definition node_differs :: "check_env \<Rightarrow> ShardMetricsManager \<Rightarrow> string \<Rightarrow> Node \<Rightarrow> bool go" where
  "node_differs C metrics groupName node =
     (case (nd_LeaderShardList node, nd_FollowerShardList node) of
        (Some leaders, Some followers) \<Rightarrow>
          let leaderShardList = extractUniqueShards (ck_unmarshal C) leaders;
              followerShardList = extractUniqueShards (ck_unmarshal C) followers
          in if leaderShardList \<noteq> [] \<and> followerShardList \<noteq> [] then Inr True
             else
               let localShardList = (if leaderShardList \<noteq> [] then leaderShardList else followerShardList);
                   (_, shardInfos) = GetNodeShardInfo (ck_city C) metrics groupName (nd_NodeId node);
                   (left, inconsistent) = compare_served (map (\<lambda>(_, s). si_ShardId s) (ce_order_infos C shardInfos))
                     (local_shards localShardList)
               in Inr (left \<noteq> {} \<or> inconsistent)
      | _ \<Rightarrow> Inl NilDereference)"

fun differing_nodes :: "check_env \<Rightarrow> ShardMetricsManager \<Rightarrow> string \<Rightarrow> Node list \<Rightarrow> uint32 list go" where
  "differing_nodes C metrics groupName [] = Inr []"
| "differing_nodes C metrics groupName (node # nodes) =
     go_bind (node_differs C metrics groupName node) (\<lambda>d.
       go_bind (differing_nodes C metrics groupName nodes) (\<lambda>ids. Inr (if d then nd_NodeId node # ids else ids)))"

definition CheckGroupShardDifferenceBetweenLocalAndConsul ::
  "check_env \<Rightarrow> ShardMetricsManager \<Rightarrow> Group list \<Rightarrow> string \<Rightarrow> (uint32 list \<times> check_status) go" where
  "CheckGroupShardDifferenceBetweenLocalAndConsul C metrics groups groupName =
     (case groups of
        [g] \<Rightarrow> go_bind (differing_nodes C metrics groupName (gr_Nodes g)) (\<lambda>ids. Inr (ids, CheckOk))
      | _ \<Rightarrow> Inr ([], CheckGroupNotExist))"

text \<open>The strict comparison keeps leaders and followers apart; its lists are not the ones in JSON.\<close>

fun compare_roles :: "(ShardRole \<times> uint32) list \<Rightarrow> uint32 set \<Rightarrow> uint32 set \<Rightarrow> uint32 set \<times> uint32 set \<times> bool" where
  "compare_roles [] localLeaders localFollowers = (localLeaders, localFollowers, False)"
| "compare_roles ((role, shardId) # infos) localLeaders localFollowers =
     (if role = Leader then
        if shardId \<notin> localLeaders then (localLeaders, localFollowers, True)
        else compare_roles infos (localLeaders - {shardId}) localFollowers
      else if role = Follower then
        if shardId \<notin> localFollowers then (localLeaders, localFollowers, True)
        else compare_roles infos localLeaders (localFollowers - {shardId})
      else compare_roles infos localLeaders localFollowers)"

definition strict_node_differs :: "check_env \<Rightarrow> ShardMetricsManager \<Rightarrow> string \<Rightarrow> Node \<Rightarrow> bool go" where
  "strict_node_differs C metrics groupName node =
     (case (nd_LeaderShardList node, nd_FollowerShardList node) of
        (Some leaders, Some followers) \<Rightarrow>
          let (_, shardInfos) = GetNodeShardInfo (ck_city C) metrics groupName (nd_NodeId node);
              (leftLeaders, leftFollowers, inconsistent) =
                compare_roles (map (\<lambda>(_, s). (si_Role s, si_ShardId s)) (ce_order_infos C shardInfos))
                  (local_shards (Split (CHR '','') leaders)) (local_shards (Split (CHR '','') followers))
          in Inr (leftLeaders \<noteq> {} \<or> leftFollowers \<noteq> {} \<or> inconsistent)
      | _ \<Rightarrow> Inl NilDereference)"

fun strict_differing_nodes :: "check_env \<Rightarrow> ShardMetricsManager \<Rightarrow> string \<Rightarrow> Node list \<Rightarrow> uint32 list go" where
  "strict_differing_nodes C metrics groupName [] = Inr []"
| "strict_differing_nodes C metrics groupName (node # nodes) =
     go_bind (strict_node_differs C metrics groupName node) (\<lambda>d.
       go_bind (strict_differing_nodes C metrics groupName nodes) (\<lambda>ids. Inr (if d then nd_NodeId node # ids else ids)))"

definition StrictCheckGroupShardDifferenceBetweenLocalAndConsul ::
  "check_env \<Rightarrow> ShardMetricsManager \<Rightarrow> Group list \<Rightarrow> string \<Rightarrow> uint32 list go" where
  "StrictCheckGroupShardDifferenceBetweenLocalAndConsul C metrics groups groupName =
     (case groups of [g] \<Rightarrow> strict_differing_nodes C metrics groupName (gr_Nodes g) | _ \<Rightarrow> Inr [])"

section \<open>What a group serves\<close>

definition check_shard ::
  "ShardStatus \<Rightarrow> uint32 list \<times> uint32 list \<times> (uint32, uint32 list) gomap \<Rightarrow> uint32 list \<times> uint32 list \<times> (uint32, uint32 list) gomap" where
  "check_shard s st =
     (case st of (totalShards, reduplicative, unavailable) \<Rightarrow>
        let (totalShards, reduplicative) =
              (if st_ShardId s \<notin> set totalShards then (totalShards, reduplicative @ [st_ShardId s])
               else (filter (\<lambda>i. i \<noteq> st_ShardId s) totalShards, reduplicative))
        in (totalShards, reduplicative,
            if st_ServiceState s = Unavailable then append_at (st_NodeId s) (st_ShardId s) unavailable else unavailable))"

definition CheckGroupReadyToBeMaster ::
  "check_env \<Rightarrow> Cluster list \<Rightarrow> ShardMetricsManager \<Rightarrow> ShardManager \<Rightarrow> Group list \<Rightarrow> string \<Rightarrow>
   (CheckGroupReadyToBeMasterResult option \<times> check_status) go" where
  "CheckGroupReadyToBeMaster C clusters metrics m groups groupName =
     (case clusters of
        [] \<Rightarrow> Inr (None, CheckClusterNotExist)
      | c # _ \<Rightarrow>
          let (shards, _) = GetShardStatus (sm_statusManager m);
              (missing, reduplicative, unavailable) =
                fold (\<lambda>(_, s) st. if st_GroupName s = groupName then check_shard s st else st)
                  (ce_order_shards C shards) (all_shards (cl_ShardTotal c), [], [])
          in go_bind (CheckGroupShardDifferenceBetweenLocalAndConsul C metrics groups groupName) (\<lambda>(inconsistentNodes, status).
               if status \<noteq> CheckOk then Inr (None, status)
               else Inr (Some \<lparr>ck_Ready = (missing = [] \<and> reduplicative = [] \<and> unavailable = [] \<and> inconsistentNodes = []),
                               ck_MssingShards = ce_order_missing C missing, ck_ReduplicativeShards = reduplicative,
                               ck_UnavailableShards = unavailable, ck_InconsistentNodes = inconsistentNodes\<rparr>, CheckOk)))"

section \<open>When a group is ready\<close>

lemma compare_served_ok:
  "(\<exists>left. compare_served ids L = (left, False) \<and> left = {}) \<longleftrightarrow> distinct ids \<and> set ids = L"
  by (induction ids arbitrary: L) (auto split: if_splits)

definition statuses :: "ShardManager \<Rightarrow> string \<Rightarrow> ShardStatus list" where
  "statuses m groupName = filter (\<lambda>s. st_GroupName s = groupName) (map snd (ssm_shards (sm_statusManager m)))"

lemma fold_filter_snd:
  "fold (\<lambda>(_, s) st. if P s then f s st else st) xs st = fold f (filter P (map snd xs)) st"
  by (induction xs arbitrary: st) auto

lemma check_shards:
  "fold check_shard ss (T, R, U) = (T', R', U') \<Longrightarrow> distinct T \<Longrightarrow>
   (T' = [] \<and> R' = [] \<longleftrightarrow> R = [] \<and> mset (map st_ShardId ss) = mset T) \<and>
   (U' = [] \<longleftrightarrow> U = [] \<and> (\<forall>s \<in> set ss. st_ServiceState s \<noteq> Unavailable))"
proof (induction ss arbitrary: T R U)
  case (Cons s ss)
  let ?i = "st_ShardId s"
  define T1 where "T1 = (if ?i \<in> set T then filter (\<lambda>i. i \<noteq> ?i) T else T)"
  define R1 where "R1 = (if ?i \<in> set T then R else R @ [?i])"
  define U1 where "U1 = (if st_ServiceState s = Unavailable then append_at (st_NodeId s) ?i U else U)"
  have step: "check_shard s (T, R, U) = (T1, R1, U1)"
    by (simp add: check_shard_def T1_def R1_def U1_def)
  have "distinct T1" using Cons.prems(2) by (simp add: T1_def)
  note IH = Cons.IH [of T1 R1 U1, OF _ this]
  have "filter (\<lambda>i. i \<noteq> ?i) T = removeAll ?i T" by (induction T) auto
  then have rest: "mset (filter (\<lambda>i. i \<noteq> ?i) T) = mset T - {#?i#}"
    using distinct_remove1_removeAll [OF Cons.prems(2), of ?i] mset_remove1 [of ?i T] by simp
  have T: "R1 = [] \<and> mset (map st_ShardId ss) = mset T1 \<longleftrightarrow> R = [] \<and> mset (map st_ShardId (s # ss)) = mset T"
  proof (cases "?i \<in> set T")
    case True
    then have "add_mset ?i M = mset T \<longleftrightarrow> M = mset T - {#?i#}" for M
      by (metis add_mset_remove_trivial insert_DiffM set_mset_mset)
    then show ?thesis using True rest by (simp add: T1_def R1_def)
  next
    case False
    then have "add_mset ?i M \<noteq> mset T" for M by (metis set_mset_mset union_single_eq_member)
    then show ?thesis using False by (simp add: R1_def)
  qed
  have "append_at k v U \<noteq> []" for k v by (cases U) (auto simp: append_at_def split: prod.splits)
  then have "U1 = [] \<longleftrightarrow> U = [] \<and> st_ServiceState s \<noteq> Unavailable" by (auto simp: U1_def)
  moreover have "fold check_shard ss (T1, R1, U1) = (T', R', U')" using Cons.prems(1) step by simp
  note IH [OF this]
  ultimately show ?case using T by auto
qed auto

definition configured :: "check_env \<Rightarrow> Node \<Rightarrow> string list \<times> string list" where
  "configured C node = (extractUniqueShards (ck_unmarshal C) (the (nd_LeaderShardList node)),
     extractUniqueShards (ck_unmarshal C) (the (nd_FollowerShardList node)))"

definition serves :: "check_env \<Rightarrow> ShardMetricsManager \<Rightarrow> string \<Rightarrow> Node \<Rightarrow> bool" where
  "serves C metrics groupName node \<longleftrightarrow>
     (let (leaders, followers) = configured C node;
          served = map (\<lambda>(_, s). si_ShardId s) (snd (GetNodeShardInfo (ck_city C) metrics groupName (nd_NodeId node)))
      in (leaders = [] \<or> followers = []) \<and> distinct served \<and> set served = local_shards (leaders @ followers))"

lemma node_differs_serves:
  assumes "is_order (ce_order_infos C)" "nd_LeaderShardList node \<noteq> None" "nd_FollowerShardList node \<noteq> None"
  shows "node_differs C metrics groupName node = Inr (\<not> serves C metrics groupName node)"
proof -
  obtain l f where lf: "nd_LeaderShardList node = Some l" "nd_FollowerShardList node = Some f" using assms(2,3) by auto
  let ?l = "extractUniqueShards (ck_unmarshal C) l" and ?f = "extractUniqueShards (ck_unmarshal C) f"
  let ?infos = "snd (GetNodeShardInfo (ck_city C) metrics groupName (nd_NodeId node))"
  let ?ids = "map (\<lambda>(_, s). si_ShardId s) (ce_order_infos C ?infos)"
  have ids: "distinct ?ids = distinct (map (\<lambda>(_, s). si_ShardId s) ?infos)" "set ?ids = set (map (\<lambda>(_, s). si_ShardId s) ?infos)"
    using is_orderD [OF assms(1)] by simp_all
  obtain rest bad where cmp: "compare_served ?ids (local_shards (if ?l \<noteq> [] then ?l else ?f)) = (rest, bad)"
    by (cases "compare_served ?ids (local_shards (if ?l \<noteq> [] then ?l else ?f))")
  then have same: "\<not> (rest \<noteq> {} \<or> bad) \<longleftrightarrow>
      distinct ?ids \<and> set ?ids = local_shards (if ?l \<noteq> [] then ?l else ?f)"
    using compare_served_ok [of ?ids "local_shards (if ?l \<noteq> [] then ?l else ?f)"] by auto
  show ?thesis
  proof (cases "?l \<noteq> [] \<and> ?f \<noteq> []")
    case True
    then show ?thesis using lf by (simp add: node_differs_def serves_def configured_def)
  next
    case False
    then have "node_differs C metrics groupName node = Inr (rest \<noteq> {} \<or> bad)"
      using lf cmp by (simp add: node_differs_def case_prod_unfold Let_def) blast
    moreover have "local_shards (if ?l \<noteq> [] then ?l else ?f) = local_shards (?l @ ?f)" using False by auto
    ultimately show ?thesis using False same ids lf by (auto simp: serves_def configured_def)
  qed
qed

lemma differing_nodes_serves:
  assumes "is_order (ce_order_infos C)" "\<forall>node \<in> set nodes. nd_LeaderShardList node \<noteq> None \<and> nd_FollowerShardList node \<noteq> None"
  shows "differing_nodes C metrics groupName nodes =
    Inr (map nd_NodeId (filter (\<lambda>node. \<not> serves C metrics groupName node) nodes))"
  using assms(2) by (induction nodes) (simp_all add: node_differs_serves [OF assms(1)])

lemma distinct_all_shards: "distinct (all_shards n)"
proof -
  have "unat (of_nat x :: uint32) = x" if "x < unat n" for x
    using that unat32_less [of n] by (simp add: unat_of_nat)
  then have "inj_on (of_nat :: nat \<Rightarrow> uint32) {0..<unat n}" by (intro inj_onI) (metis atLeastLessThan_iff)
  then show ?thesis by (simp add: all_shards_def distinct_map)
qed

text \<open>C12. A group is reported as ready to be the master group exactly if its nodes serve every shard of the
  cluster once and none twice, all of them are available, and each node serves the shards that are
  configured for it, which are either all leaders or all followers.\<close>

theorem CheckGroupReadyToBeMaster_ready:
  assumes "is_order (ce_order_shards C)" "is_order (ce_order_infos C)" "clusters \<noteq> []"
    and "\<forall>node \<in> set (gr_Nodes g). nd_LeaderShardList node \<noteq> None \<and> nd_FollowerShardList node \<noteq> None"
  shows "\<exists>r. CheckGroupReadyToBeMaster C clusters metrics m [g] name = Inr (Some r, CheckOk) \<and>
    (ck_Ready r \<longleftrightarrow>
      mset (map st_ShardId (statuses m name)) = mset (all_shards (cl_ShardTotal (hd clusters))) \<and>
      (\<forall>s \<in> set (statuses m name). st_ServiceState s \<noteq> Unavailable) \<and>
      (\<forall>node \<in> set (gr_Nodes g). serves C metrics name node))"
proof -
  obtain c cs where c: "clusters = c # cs" using assms(3) by (cases clusters) auto
  let ?shards = "ssm_shards (sm_statusManager m)"
  let ?ss = "filter (\<lambda>s. st_GroupName s = name) (map snd (ce_order_shards C ?shards))"
  have perm: "mset ?ss = mset (statuses m name)"
    using is_orderD(1) [OF assms(1), of ?shards] by (simp add: statuses_def mset_filter)
  note distinct_all_shards
  moreover obtain T R U where st: "fold check_shard ?ss (all_shards (cl_ShardTotal c), [], []) = (T, R, U)"
    by (metis prod_cases3)
  ultimately have "(T = [] \<and> R = [] \<longleftrightarrow> mset (map st_ShardId ?ss) = mset (all_shards (cl_ShardTotal c))) \<and>
      (U = [] \<longleftrightarrow> (\<forall>s \<in> set ?ss. st_ServiceState s \<noteq> Unavailable))"
    using check_shards [OF st] by simp
  moreover have "mset (map st_ShardId ?ss) = mset (map st_ShardId (statuses m name))" "set ?ss = set (statuses m name)"
    using perm mset_eq_setD [OF perm] by simp_all
  ultimately have ready: "T = [] \<and> R = [] \<and> U = [] \<longleftrightarrow>
      mset (map st_ShardId (statuses m name)) = mset (all_shards (cl_ShardTotal c)) \<and>
      (\<forall>s \<in> set (statuses m name). st_ServiceState s \<noteq> Unavailable)" by metis
  have "map nd_NodeId (filter (\<lambda>node. \<not> serves C metrics name node) (gr_Nodes g)) = [] \<longleftrightarrow>
      (\<forall>node \<in> set (gr_Nodes g). serves C metrics name node)" by (auto simp: filter_empty_conv)
  with ready st show ?thesis
    by (simp add: CheckGroupReadyToBeMaster_def c GetShardStatus_def fold_filter_snd
        CheckGroupShardDifferenceBetweenLocalAndConsul_def differing_nodes_serves [OF assms(2,4)]) blast
qed

definition example_check :: check_env where
  "example_check = \<lparr>ce_order_shards = rev, ce_order_missing = rev, ce_order_infos = rev, ck_unmarshal = (\<lambda>s. None), ck_city = (\<lambda>s n seed. seed)\<rparr>"

definition serving :: "uint32 list \<Rightarrow> ShardMetricsManager" where
  "serving ids = [(''g'', \<lparr>gm_nodeInfo = Map.empty,
     gm_nodeShardInfo = [(3, map (\<lambda>i. (FormatUint (unat i), zero_ShardInfo\<lparr>si_ShardId := i\<rparr>)) ids)]\<rparr>)]"

definition example_group :: "string \<Rightarrow> Group" where
  "example_group leaders = \<lparr>gr_Id = 1, gr_Name = ''g'', gr_Alias = [], gr_DcName = [],
     gr_Nodes = [example_row\<lparr>nd_LeaderShardList := Some leaders, nd_FollowerShardList := Some []\<rparr>]\<rparr>"

definition reporting :: "uint32 list \<Rightarrow> ShardManager" where
  "reporting ids = (GetShardModel (\<lambda>s n seed. seed) fresh_cluster)\<lparr>sm_statusManager := NewShardStatusManager\<lparr>ssm_shards :=
     map (\<lambda>i. (FormatUint (unat i), zero_ShardStatus\<lparr>st_ShardId := i, st_GroupName := ''g'', st_ServiceState := Available\<rparr>)) ids\<rparr>\<rparr>"

lemma serving_ids: "map (\<lambda>(_, s). si_ShardId s) (snd (GetNodeShardInfo (\<lambda>s n seed. seed) (serving ids) ''g'' 3)) = ids"
  by (simp add: GetNodeShardInfo_def serving_def GetNodeHash_def hash_str_def Let_def comp_def)

lemma example_serves: "serves example_check (serving [1, 0]) ''g'' (example_row\<lparr>nd_LeaderShardList := Some ''0,1'', nd_FollowerShardList := Some []\<rparr>)"
proof -
  have "extractUniqueShards (\<lambda>s. None) ''0,1'' = [''0'', ''1'']" "ParseUint 32 ''0'' = Value 0" "ParseUint 32 ''1'' = Value 1"
    by (simp_all add: ParseUint_def digit_val_def extractUniqueShards_def)
  then show ?thesis
    using serving_ids [of "[1, 0]"]
    by (simp add: serves_def configured_def example_check_def example_row_def extractUniqueShards_def [of _ "[]"] local_shards_def)
qed

theorem CheckGroupReadyToBeMaster_ready_witness:
  "\<exists>r. CheckGroupReadyToBeMaster example_check [\<lparr>cl_Name = ''c'', cl_ShardTotal = 2, cl_Dcs = []\<rparr>] (serving [1, 0]) (reporting [0, 1])
      [example_group ''0,1''] ''g'' = Inr (Some r, CheckOk) \<and> ck_Ready r"
proof -
  have "map st_ShardId (statuses (reporting [0, 1]) ''g'') = [0, 1]" "all_shards 2 = [0, 1]"
    "\<forall>s \<in> set (statuses (reporting [0, 1]) ''g''). st_ServiceState s \<noteq> Unavailable"
    by (simp_all add: statuses_def reporting_def all_shards_def upt_rec)
  then show ?thesis
    using CheckGroupReadyToBeMaster_ready [of example_check "[\<lparr>cl_Name = ''c'', cl_ShardTotal = 2, cl_Dcs = []\<rparr>]"
        "example_group ''0,1''" "serving [1, 0]" "reporting [0, 1]" "''g''"] example_serves
    by (auto simp: example_check_def is_order_rev example_group_def)
qed

text \<open>A blank after a comma in the list of a node's shards is accepted where the list is read for the
  assignment, and makes the node differ from what it serves where it is checked: the node that serves the shards 0 and 1
  is then reported as inconsistent.\<close>

theorem blank_in_shard_list:
  "shardStrListToSlice (\<lambda>s. None) (example_row\<lparr>nd_LeaderShardList := Some ''0, 1'', nd_FollowerShardList := Some []\<rparr>) =
     Inr [as_stored example_row Leader LeaderStatus 0, as_stored example_row Leader LeaderStatus 1] \<and>
   CheckGroupShardDifferenceBetweenLocalAndConsul example_check (serving [0, 1]) [example_group ''0, 1''] ''g'' = Inr ([3], CheckOk)"
proof -
  have e: "extractUniqueShards (\<lambda>s. None) ''0, 1'' = [''0'', '' 1'']" "extractUniqueShards (\<lambda>s. None) [] = []" by code_simp+
  have t: "TrimSpace ''0'' = ''0''" "TrimSpace '' 1'' = ''1''" by code_simp+
  have p: "ParseUint 32 ''0'' = Value 0" "ParseUint 32 '' 1'' = SyntaxError" "ParseUint 32 ''1'' = Value 1"
    by (simp_all add: ParseUint_def digit_val_def)
  have "node_differs example_check (serving [0, 1]) ''g''
      (example_row\<lparr>nd_LeaderShardList := Some ''0, 1'', nd_FollowerShardList := Some []\<rparr>) = Inr True"
    using serving_ids [of "[0, 1]"] e p
    by (simp add: node_differs_serves example_check_def is_order_rev serves_def configured_def local_shards_def example_row_def)
  then show ?thesis
    using e p t by (simp add: shardStrListToSlice_def parse_shard_def as_stored_def example_row_def
        CheckGroupShardDifferenceBetweenLocalAndConsul_def example_group_def)
qed

section \<open>The strict comparison\<close>

definition with_role :: "ShardRole \<Rightarrow> (ShardRole \<times> uint32) list \<Rightarrow> uint32 list" where
  "with_role role infos = map snd (filter (\<lambda>(r, i). r = role) infos)"

lemma compare_roles_ok:
  "compare_roles infos L F = ({}, {}, False) \<longleftrightarrow>
     distinct (with_role Leader infos) \<and> set (with_role Leader infos) = L \<and>
     distinct (with_role Follower infos) \<and> set (with_role Follower infos) = F"
proof (induction infos L F rule: compare_roles.induct)
  case (2 role shardId infos L F)
  consider "role = Leader" | "role = Follower" | "role \<noteq> Leader" "role \<noteq> Follower" by blast
  then show ?case
  proof cases
    case 1
    then show ?thesis using 2(1) by (cases "shardId \<in> L") (auto simp: with_role_def)
  next
    case 2
    then show ?thesis using "2.IH"(2) by (cases "shardId \<in> F") (auto simp: with_role_def)
  next
    case 3
    then show ?thesis using "2.IH"(3) by (simp add: with_role_def)
  qed
qed (auto simp: with_role_def)

text \<open>The strict comparison finds no difference exactly if the node serves, as leaders and as followers, the shards that are
  configured as such, each once.\<close>

lemma strict_node_differs_iff:
  assumes "is_order (ce_order_infos C)" "nd_LeaderShardList node = Some l" "nd_FollowerShardList node = Some f"
    and "infos = map (\<lambda>(_, s). (si_Role s, si_ShardId s)) (snd (GetNodeShardInfo (ck_city C) metrics groupName (nd_NodeId node)))"
  shows "strict_node_differs C metrics groupName node = Inr False \<longleftrightarrow>
    distinct (with_role Leader infos) \<and> set (with_role Leader infos) = local_shards (Split (CHR '','') l) \<and>
    distinct (with_role Follower infos) \<and> set (with_role Follower infos) = local_shards (Split (CHR '','') f)"
proof -
  let ?infos = "snd (GetNodeShardInfo (ck_city C) metrics groupName (nd_NodeId node))"
  let ?ranged = "map (\<lambda>(_, s). (si_Role s, si_ShardId s)) (ce_order_infos C ?infos)"
  have perm: "mset (with_role r ?ranged) = mset (with_role r infos)" for r
    using is_orderD(1) [OF assms(1), of ?infos] by (simp add: with_role_def assms(4) mset_filter)
  have d: "distinct (with_role r ?ranged) = distinct (with_role r infos)" for r by (rule mset_eq_imp_distinct_iff [OF perm])
  have s: "set (with_role r ?ranged) = set (with_role r infos)" for r by (rule mset_eq_setD [OF perm])
  obtain a b c where c: "compare_roles ?ranged (local_shards (Split (CHR '','') l)) (local_shards (Split (CHR '','') f)) = (a, b, c)"
    by (rule prod_cases3)
  have "strict_node_differs C metrics groupName node = Inr (a \<noteq> {} \<or> b \<noteq> {} \<or> c)"
    using assms(2,3) c by (simp add: strict_node_differs_def case_prod_unfold Let_def)
  moreover have "(a, b, c) = ({}, {}, False) \<longleftrightarrow> \<not> (a \<noteq> {} \<or> b \<noteq> {} \<or> c)" by auto
  ultimately show ?thesis
    using compare_roles_ok [of ?ranged "local_shards (Split (CHR '','') l)" "local_shards (Split (CHR '','') f)"] unfolding c d s by simp
qed

end
