(* ===== verification/Laser_Assigner.thy ===== *)
theory Laser_Assigner
  imports Laser_Metrics
begin

text \<open>
  The distribution of the shards of a table over a number of lists, from
  \<^verbatim>\<open>src/control/service/table_shard_assigner.go\<close>: by number, and by a metric that is to be balanced.

  The lists are sorted by their sum with \<open>sort.Sort\<close>, and the pairs by their value; the order of entries
  with the same key is left open by that function, so both sorts are arguments (\<open>sorts_by\<close>). A sort of shard
  numbers has one result only. The three readings of the metrics cache that one request makes see the same cache.
\<close>

record AssignedShardList =
  as_MetricSum :: uint64
  as_ShardList :: "int64 list"

record AssignedResultEntry =
  re_SizeSum :: uint64
  re_KpsSum :: uint64
  re_ShardList :: "int64 list"

record AssignedTableShardResult =
  rs_TotalShardListInfo :: AssignedResultEntry
  rs_AssignedShardListInfos :: "AssignedResultEntry list"

type_synonym AssignType = uint32

abbreviation AssignByShardSize :: AssignType where "AssignByShardSize \<equiv> 1"
abbreviation AssignByShardKps :: AssignType where "AssignByShardKps \<equiv> 2"
abbreviation AssignByShardNum :: AssignType where "AssignByShardNum \<equiv> 3"

record AssignShardListParams =
  ap_DatabaseName :: string
  ap_TableName :: string
  ap_Type :: AssignType
  ap_AssignedListNum :: uint32

record assign_env =
  ae_city :: cityhash
  ae_clusters :: "Cluster list"
  ae_tables :: "Table list"
  ae_groups :: "(string \<times> GroupShardMetrics) list \<Rightarrow> (string \<times> GroupShardMetrics) list"
  ae_nodes :: "(uint64 \<times> (string, ShardInfo) gomap) list \<Rightarrow> (uint64 \<times> (string, ShardInfo) gomap) list"
  ae_pairs :: "(int64 \<times> uint64) list \<Rightarrow> (int64 \<times> uint64) list"
  ae_sortPairs :: "(int64 \<times> uint64) list \<Rightarrow> (int64 \<times> uint64) list"
  ae_sortLists :: "AssignedShardList list \<Rightarrow> AssignedShardList list"

datatype assign_status = AssignOk | AssignTableShardListNumTooLarge

definition empty_entry :: AssignedResultEntry where
  "empty_entry = \<lparr>re_SizeSum = 0, re_KpsSum = 0, re_ShardList = []\<rparr>"

definition empty_result :: AssignedTableShardResult where
  "empty_result = \<lparr>rs_TotalShardListInfo = empty_entry, rs_AssignedShardListInfos = []\<rparr>"

definition sort_shards :: "int64 list \<Rightarrow> int64 list" where
  "sort_shards = sort_key sint"

definition table_list :: "assign_env \<Rightarrow> AssignShardListParams \<Rightarrow> int64 list go" where
  "table_list E param = GetTableShardList (ae_city E) (ae_clusters E) (ae_tables E) (ap_DatabaseName param) (ap_TableName param)"

definition table_metrics ::
  "assign_env \<Rightarrow> ShardMetricsManager \<Rightarrow> AssignShardListParams \<Rightarrow> ((int64, uint64) gomap \<times> (int64, uint64) gomap) go" where
  "table_metrics E m param =
     GetTableShardSizeAndKps (ae_city E) (ae_groups E) (ae_nodes E) (ae_clusters E) (ae_tables E)
       (ap_DatabaseName param) (ap_TableName param) m"

section \<open>By number\<close>

definition add_shard :: "uint64 \<Rightarrow> uint64 \<Rightarrow> int64 \<Rightarrow> AssignedResultEntry \<Rightarrow> AssignedResultEntry" where
  "add_shard sz kp shardId e =
     e\<lparr>re_SizeSum := re_SizeSum e + sz, re_KpsSum := re_KpsSum e + kp, re_ShardList := re_ShardList e @ [shardId]\<rparr>"

fun num_loop ::
  "(int64, uint64) gomap \<Rightarrow> (int64, uint64) gomap \<Rightarrow> uint32 \<Rightarrow> int64 list \<Rightarrow> uint32 \<Rightarrow> AssignedResultEntry list \<Rightarrow>
   AssignedResultEntry \<Rightarrow> (AssignedResultEntry list \<times> AssignedResultEntry) go" where
  "num_loop sizes kps listNum [] cnt entries total_info = Inr (entries, total_info)"
| "num_loop sizes kps listNum (shardId # shards) cnt entries total_info =
     (if listNum = 0 then Inl DivideByZero
      else let i = unat (cnt mod listNum)
           in num_loop sizes kps listNum shards (cnt + 1)
                (entries[i := add_shard (get0 sizes shardId) (get0 kps shardId) shardId (entries ! i)])
                (total_info\<lparr>re_SizeSum := re_SizeSum total_info + get0 sizes shardId,
                            re_KpsSum := re_KpsSum total_info + get0 kps shardId\<rparr>))"

definition assignShardListByNum ::
  "assign_env \<Rightarrow> ShardMetricsManager \<Rightarrow> AssignShardListParams \<Rightarrow> AssignedTableShardResult go" where
  "assignShardListByNum E m param =
     go_bind (table_list E param) (\<lambda>totalShardList.
       go_bind (table_metrics E m param) (\<lambda>(sizes, kps).
         let totalShardList = sort_shards totalShardList in
         go_bind (num_loop sizes kps (ap_AssignedListNum param) totalShardList 0
             (replicate (unat (ap_AssignedListNum param)) empty_entry) empty_entry) (\<lambda>(entries, total_info).
           Inr \<lparr>rs_TotalShardListInfo = total_info\<lparr>re_ShardList := totalShardList\<rparr>, rs_AssignedShardListInfos = entries\<rparr>)))"

section \<open>By a metric\<close>

fun metric_loop ::
  "(AssignedShardList list \<Rightarrow> AssignedShardList list) \<Rightarrow> (int64 \<times> uint64) list \<Rightarrow> AssignedShardList list \<Rightarrow> AssignedShardList list go" where
  "metric_loop sortLists [] shardLists = Inr shardLists"
| "metric_loop sortLists ((k, v) # pairs) shardLists =
     (case sortLists shardLists of
        [] \<Rightarrow> Inl IndexOutOfRange
      | l # ls \<Rightarrow> metric_loop sortLists pairs
          (l\<lparr>as_MetricSum := as_MetricSum l + v, as_ShardList := as_ShardList l @ [k]\<rparr> # ls))"

definition assignShardListByMetric ::
  "assign_env \<Rightarrow> uint32 \<Rightarrow> (int64, uint64) gomap \<Rightarrow> AssignedShardList list go" where
  "assignShardListByMetric E listNum shardMetric =
     go_bind (metric_loop (ae_sortLists E) (ae_sortPairs E (ae_pairs E shardMetric))
         (replicate (unat listNum) \<lparr>as_MetricSum = 0, as_ShardList = []\<rparr>)) (\<lambda>shardLists.
       Inr (map (\<lambda>l. l\<lparr>as_ShardList := sort_shards (as_ShardList l)\<rparr>) shardLists))"

definition result_of :: "(AssignedShardList \<Rightarrow> AssignedResultEntry) \<Rightarrow> AssignedShardList list \<Rightarrow> AssignedTableShardResult" where
  "result_of entry shardLists =
     (let infos = map entry shardLists
      in \<lparr>rs_TotalShardListInfo =
            \<lparr>re_SizeSum = sum_list (map re_SizeSum infos), re_KpsSum = sum_list (map re_KpsSum infos),
             re_ShardList = sort_shards (concat (map as_ShardList shardLists))\<rparr>,
          rs_AssignedShardListInfos = infos\<rparr>)"

definition assignShardListBySize ::
  "assign_env \<Rightarrow> ShardMetricsManager \<Rightarrow> AssignShardListParams \<Rightarrow> AssignedTableShardResult go" where
  "assignShardListBySize E m param =
     go_bind (table_metrics E m param) (\<lambda>(sizes, kps).
       go_bind (assignShardListByMetric E (ap_AssignedListNum param) sizes) (\<lambda>shardLists.
         Inr (result_of (\<lambda>l. \<lparr>re_SizeSum = as_MetricSum l, re_KpsSum = sum_list (map (get0 kps) (as_ShardList l)),
                              re_ShardList = as_ShardList l\<rparr>) shardLists)))"

definition assignShardListByKps ::
  "assign_env \<Rightarrow> ShardMetricsManager \<Rightarrow> AssignShardListParams \<Rightarrow> AssignedTableShardResult go" where
  "assignShardListByKps E m param =
     go_bind (table_metrics E m param) (\<lambda>(sizes, kps).
       go_bind (assignShardListByMetric E (ap_AssignedListNum param) kps) (\<lambda>shardLists.
         Inr (result_of (\<lambda>l. \<lparr>re_SizeSum = sum_list (map (get0 sizes) (as_ShardList l)), re_KpsSum = as_MetricSum l,
                              re_ShardList = as_ShardList l\<rparr>) shardLists)))"

section \<open>A request\<close>

definition AssignTableShardList ::
  "assign_env \<Rightarrow> ShardMetricsManager \<Rightarrow> AssignShardListParams \<Rightarrow> (AssignedTableShardResult \<times> assign_status) go" where
  "AssignTableShardList E m param =
     go_bind (table_list E param) (\<lambda>tableShardList.
       if of_nat (length tableShardList) < ap_AssignedListNum param then Inr (empty_result, AssignTableShardListNumTooLarge)
       else go_bind
         (if ap_Type param = AssignByShardSize then assignShardListBySize E m param
          else if ap_Type param = AssignByShardKps then assignShardListByKps E m param
          else if ap_Type param = AssignByShardNum then assignShardListByNum E m param
          else Inr empty_result) (\<lambda>result. Inr (result, AssignOk)))"

section \<open>What a distribution promises\<close>

definition sorts_by :: "('a \<Rightarrow> int) \<Rightarrow> ('a list \<Rightarrow> 'a list) \<Rightarrow> bool" where
  "sorts_by key f \<longleftrightarrow> (\<forall>xs. mset (f xs) = mset xs \<and> sorted (map key (f xs)))"

definition env_ok :: "assign_env \<Rightarrow> bool" where
  "env_ok E \<longleftrightarrow> is_order (ae_groups E) \<and> is_order (ae_nodes E) \<and> is_order (ae_pairs E) \<and>
     sorts_by (\<lambda>(k, v). - uint v) (ae_sortPairs E) \<and> sorts_by (\<lambda>l. uint (as_MetricSum l)) (ae_sortLists E)"

definition entry_ok :: "(int64, uint64) gomap \<Rightarrow> (int64, uint64) gomap \<Rightarrow> AssignedResultEntry \<Rightarrow> bool" where
  "entry_ok sizes kps e \<longleftrightarrow> re_SizeSum e = sum_list (map (get0 sizes) (re_ShardList e)) \<and>
     re_KpsSum e = sum_list (map (get0 kps) (re_ShardList e))"

definition lists_of :: "AssignedTableShardResult \<Rightarrow> int64 list list" where
  "lists_of r = map re_ShardList (rs_AssignedShardListInfos r)"

text \<open>The contract of the three ways to distribute: every shard that is to be distributed is in one list, the sums
  of an entry are those of its list, and the sums of the total those of the entries.\<close>

locale shard_distribution =
  fixes run :: "assign_env \<Rightarrow> ShardMetricsManager \<Rightarrow> AssignShardListParams \<Rightarrow> AssignedTableShardResult go"
    and shards :: "int64 list \<Rightarrow> (int64, uint64) gomap \<Rightarrow> (int64, uint64) gomap \<Rightarrow> int64 list"
  assumes run_returns: "env_ok E \<Longrightarrow> ap_AssignedListNum param \<noteq> 0 \<Longrightarrow> table_list E param = Inr ss \<Longrightarrow>
      table_metrics E m param = Inr (sizes, kps) \<Longrightarrow> \<exists>r. run E m param = Inr r"
    and lists_cover: "env_ok E \<Longrightarrow> table_list E param = Inr ss \<Longrightarrow> table_metrics E m param = Inr (sizes, kps) \<Longrightarrow>
      run E m param = Inr r \<Longrightarrow> mset (concat (lists_of r)) = mset (shards ss sizes kps)"
    and lists_number: "env_ok E \<Longrightarrow> run E m param = Inr r \<Longrightarrow> length (lists_of r) = unat (ap_AssignedListNum param)"
    and entries_ok: "env_ok E \<Longrightarrow> table_list E param = Inr ss \<Longrightarrow> table_metrics E m param = Inr (sizes, kps) \<Longrightarrow>
      run E m param = Inr r \<Longrightarrow> list_all (entry_ok sizes kps) (rs_AssignedShardListInfos r)"
    and totals_ok: "run E m param = Inr r \<Longrightarrow>
      re_SizeSum (rs_TotalShardListInfo r) = sum_list (map re_SizeSum (rs_AssignedShardListInfos r)) \<and>
      re_KpsSum (rs_TotalShardListInfo r) = sum_list (map re_KpsSum (rs_AssignedShardListInfos r)) \<and>
      mset (re_ShardList (rs_TotalShardListInfo r)) = mset (concat (lists_of r))"
begin

lemma sum_over_lists:
  fixes f :: "int64 \<Rightarrow> uint64"
  shows "sum_list (map (\<lambda>xs. sum_list (map f xs)) xss) = sum_list (map f (concat xss))"
  by (induction xss) simp_all

lemma sum_perm:
  fixes f :: "int64 \<Rightarrow> uint64"
  assumes "mset xs = mset ys"
  shows "sum_list (map f xs) = sum_list (map f ys)"
  using assms by (metis mset_map sum_mset_sum_list)

theorem request_total:
  assumes "env_ok E" "ap_AssignedListNum param \<noteq> 0" "table_list E param = Inr ss" "table_metrics E m param = Inr (sizes, kps)"
  shows "\<exists>r. run E m param = Inr r \<and> length (lists_of r) = unat (ap_AssignedListNum param) \<and>
    mset (concat (lists_of r)) = mset (shards ss sizes kps) \<and> list_all (entry_ok sizes kps) (rs_AssignedShardListInfos r) \<and>
    mset (re_ShardList (rs_TotalShardListInfo r)) = mset (shards ss sizes kps) \<and>
    re_SizeSum (rs_TotalShardListInfo r) = sum_list (map (get0 sizes) (shards ss sizes kps)) \<and>
    re_KpsSum (rs_TotalShardListInfo r) = sum_list (map (get0 kps) (shards ss sizes kps))"
proof -
  obtain r where r: "run E m param = Inr r" using run_returns [OF assms] by blast
  note cover = lists_cover [OF assms(1,3,4) r] and entries = entries_ok [OF assms(1,3,4) r] and totals = totals_ok [OF r]
  have "map re_SizeSum (rs_AssignedShardListInfos r) = map (\<lambda>xs. sum_list (map (get0 sizes) xs)) (lists_of r)"
    "map re_KpsSum (rs_AssignedShardListInfos r) = map (\<lambda>xs. sum_list (map (get0 kps) xs)) (lists_of r)"
    using entries by (auto simp: lists_of_def list_all_iff entry_ok_def)
  then have "re_SizeSum (rs_TotalShardListInfo r) = sum_list (map (get0 sizes) (concat (lists_of r)))"
    "re_KpsSum (rs_TotalShardListInfo r) = sum_list (map (get0 kps) (concat (lists_of r)))"
    using totals by (simp_all only: sum_over_lists)
  with r cover entries totals lists_number [OF assms(1) r] sum_perm [OF cover] show ?thesis by auto
qed

end

section \<open>Dealing by number\<close>

definition dealt :: "nat \<Rightarrow> nat \<Rightarrow> nat \<Rightarrow> int64 list \<Rightarrow> int64 list" where
  "dealt n j c shards = map snd (filter (\<lambda>(i, s). i mod n = j) (zip [c..<c + length shards] shards))"

lemma dealt_Cons: "dealt n j c (s # ss) = (if c mod n = j then [s] else []) @ dealt n j (Suc c) ss"
  by (simp add: dealt_def upt_conv_Cons del: upt_Suc)

lemma num_loop_dealt:
  assumes "unat listNum = n" "0 < n" "c + length shards \<le> 4294967296" "length entries = n"
  shows "\<exists>entries' t. num_loop sizes kps listNum shards (of_nat c) entries total_info = Inr (entries', t) \<and>
    map re_ShardList entries' = map (\<lambda>j. re_ShardList (entries ! j) @ dealt n j c shards) [0..<n]"
  using assms(3,4)
proof (induction shards arbitrary: c entries total_info)
  case Nil
  then show ?case by (auto simp: dealt_def intro: nth_equalityI)
next
  case (Cons s ss)
  let ?i = "unat (of_nat c mod listNum)"
  have i: "?i = c mod n" using Cons.prems(1) assms(1) by (simp add: unat_mod unat_of_nat)
  let ?e = "entries[?i := add_shard (get0 sizes s) (get0 kps s) s (entries ! ?i)]"
  let ?t = "total_info\<lparr>re_SizeSum := re_SizeSum total_info + get0 sizes s, re_KpsSum := re_KpsSum total_info + get0 kps s\<rparr>"
  have "Suc c + length ss \<le> 4294967296" "length ?e = n" using Cons.prems by simp_all
  from Cons.IH [OF this, of ?t] obtain entries' t where *: "num_loop sizes kps listNum ss (of_nat (Suc c)) ?e ?t = Inr (entries', t)"
    "map re_ShardList entries' = map (\<lambda>j. re_ShardList (?e ! j) @ dealt n j (Suc c) ss) [0..<n]" by blast
  have "listNum \<noteq> 0" using assms(1,2) by auto
  moreover have "map (\<lambda>j. re_ShardList (?e ! j) @ dealt n j (Suc c) ss) [0..<n] =
      map (\<lambda>j. re_ShardList (entries ! j) @ dealt n j c (s # ss)) [0..<n]"
    using Cons.prems(2) assms(2) by (auto simp: i dealt_Cons nth_list_update add_shard_def)
  moreover have "of_nat (Suc c) = (of_nat c + 1 :: uint32)" by simp
  ultimately show ?case using * by (simp add: Let_def add.commute)
qed


section \<open>Balancing a metric\<close>

lemma sorts_byD: "sorts_by key f \<Longrightarrow> mset (f xs) = mset xs" "sorts_by key f \<Longrightarrow> f xs = y # ys \<Longrightarrow> z \<in> set xs \<Longrightarrow> key y \<le> key z"
proof -
  assume s: "sorts_by key f"
  then show "mset (f xs) = mset xs" by (simp add: sorts_by_def)
  assume eq: "f xs = y # ys" and z: "z \<in> set xs"
  have "sorted (map key (y # ys))" using s eq by (metis sorts_by_def)
  moreover have "z \<in> set (y # ys)" using \<open>mset (f xs) = mset xs\<close> z eq by (metis mset_eq_setD)
  ultimately show "key y \<le> key z" by auto
qed

definition gives :: "uint64 \<Rightarrow> int64 \<Rightarrow> AssignedShardList \<Rightarrow> AssignedShardList" where
  "gives v k l = l\<lparr>as_MetricSum := as_MetricSum l + v, as_ShardList := as_ShardList l @ [k]\<rparr>"

lemma concat_lists_perm: "mset xs = mset ys \<Longrightarrow> mset (concat (map f xs)) = mset (concat (map f ys))"
proof -
  have "mset (concat (map f zs)) = sum_mset (image_mset (\<lambda>x. mset (f x)) (mset zs))" for zs
    by (induction zs) simp_all
  then show "mset xs = mset ys \<Longrightarrow> ?thesis" by simp
qed

lemma metric_loop_lists:
  assumes "sorts_by key sl"
  shows "metric_loop sl pairs ls = Inr ls' \<Longrightarrow> list_all (\<lambda>l. as_MetricSum l = sum_list (map (get0 metric) (as_ShardList l))) ls \<Longrightarrow>
     \<forall>(k, v) \<in> set pairs. get0 metric k = v \<Longrightarrow>
     length ls' = length ls \<and> mset (concat (map as_ShardList ls')) = mset (concat (map as_ShardList ls)) + mset (map fst pairs) \<and>
     list_all (\<lambda>l. as_MetricSum l = sum_list (map (get0 metric) (as_ShardList l))) ls'"
proof (induction pairs arbitrary: ls)
  case (Cons p pairs)
  obtain k v where p: "p = (k, v)" by (cases p)
  then obtain y ys where y: "sl ls = y # ys" using Cons.prems(1) by (auto split: list.splits)
  note perm = sorts_byD(1) [OF assms, of ls, unfolded y]
  have "list_all (\<lambda>l. as_MetricSum l = sum_list (map (get0 metric) (as_ShardList l))) (y # ys)"
    using Cons.prems(2) mset_eq_setD [OF perm] by (simp only: list_all_iff)
  then have "list_all (\<lambda>l. as_MetricSum l = sum_list (map (get0 metric) (as_ShardList l))) (gives v k y # ys)"
    using Cons.prems(3) p by (simp add: gives_def)
  moreover have "metric_loop sl pairs (gives v k y # ys) = Inr ls'" using Cons.prems(1) p y by (simp add: gives_def)
  moreover have "mset (concat (map as_ShardList (gives v k y # ys))) = mset (concat (map as_ShardList ls)) + {#k#}"
    using concat_lists_perm [OF perm, of as_ShardList] by (simp add: gives_def)
  ultimately show ?case
    using Cons.IH [of "gives v k y # ys"] Cons.prems(3) p mset_eq_length [OF perm] by simp
qed auto

lemma metric_loop_returns: "sorts_by key sl \<Longrightarrow> ls \<noteq> [] \<Longrightarrow> \<exists>ls'. metric_loop sl pairs ls = Inr ls'"
proof (induction pairs arbitrary: ls)
  case (Cons p pairs)
  obtain y ys where y: "sl ls = y # ys"
    using Cons.prems sorts_byD(1) [of key sl ls] by (cases "sl ls") auto
  with Cons.IH [of "gives (snd p) (fst p) y # ys"] Cons.prems show ?case by (cases p) (simp add: gives_def)
qed simp

definition even_up_to :: "nat \<Rightarrow> AssignedShardList list \<Rightarrow> bool" where
  "even_up_to M ls \<longleftrightarrow> (\<forall>l \<in> set ls. \<forall>l' \<in> set ls. unat (as_MetricSum l) \<le> unat (as_MetricSum l') + M)"

definition sum_of :: "AssignedShardList list \<Rightarrow> nat" where
  "sum_of ls = sum_list (map (\<lambda>l. unat (as_MetricSum l)) ls)"

lemma metric_loop_even:
  assumes "sorts_by (\<lambda>l. uint (as_MetricSum l)) sl"
  shows "metric_loop sl pairs ls = Inr ls' \<Longrightarrow> even_up_to M ls \<Longrightarrow> \<forall>(k, v) \<in> set pairs. unat v \<le> M \<Longrightarrow>
     sum_of ls + sum_list (map (\<lambda>(k, v). unat v) pairs) < 18446744073709551616 \<Longrightarrow> even_up_to M ls'"
proof (induction pairs arbitrary: ls)
  case (Cons p pairs)
  obtain k v where p: "p = (k, v)" by (cases p)
  then obtain y ys where y: "sl ls = y # ys" using Cons.prems(1) by (auto split: list.splits)
  note perm = sorts_byD(1) [OF assms, of ls, unfolded y]
  have in_ls: "set ls = insert y (set ys)" using mset_eq_setD [OF perm] by simp
  have least: "unat (as_MetricSum y) \<le> unat (as_MetricSum l)" if "l \<in> set ls" for l
    using sorts_byD(2) [OF assms y that] by (simp add: word_le_def [symmetric] word_le_nat_alt [symmetric])
  have sum: "sum_of ls = unat (as_MetricSum y) + sum_of ys"
    using arg_cong [OF perm, of "\<lambda>m. sum_mset (image_mset (\<lambda>l. unat (as_MetricSum l)) m)"] by (simp add: sum_of_def sum_mset_sum_list [symmetric])
  have "unat (as_MetricSum y) + unat v < 18446744073709551616" using Cons.prems(4) p sum by simp
  then have add: "unat (as_MetricSum (gives v k y)) = unat (as_MetricSum y) + unat v"
    by (simp add: gives_def unat_plus_if')
  have "even_up_to M (gives v k y # ys)"
    unfolding even_up_to_def
  proof (intro ballI)
    fix l l' assume l: "l \<in> set (gives v k y # ys)" "l' \<in> set (gives v k y # ys)"
    have v: "unat v \<le> M" using Cons.prems(3) p by simp
    have ev: "unat (as_MetricSum a) \<le> unat (as_MetricSum b) + M" if "a \<in> set ls" "b \<in> set ls" for a b
      using Cons.prems(2) that by (simp add: even_up_to_def)
    show "unat (as_MetricSum l) \<le> unat (as_MetricSum l') + M"
      using l v add least [of l'] ev [of l l'] ev [of l y] in_ls by (cases "l = gives v k y"; cases "l' = gives v k y") auto
  qed
  moreover have "sum_of (gives v k y # ys) = sum_of ls + unat v" using add sum by (simp add: sum_of_def)
  moreover have "metric_loop sl pairs (gives v k y # ys) = Inr ls'" using Cons.prems(1) p y by (simp add: gives_def)
  ultimately show ?case using Cons.IH [of "gives v k y # ys"] Cons.prems(3,4) p by simp
qed auto

lemma env_okD:
  assumes "env_ok E"
  shows "is_order (ae_pairs E)" "sorts_by (\<lambda>(k, v). - uint v) (ae_sortPairs E)"
    "sorts_by (\<lambda>l. uint (as_MetricSum l)) (ae_sortLists E)"
  using assms by (simp_all add: env_ok_def)

lemma sort_shards_mset [simp]: "mset (sort_shards xs) = mset xs"
  by (simp add: sort_shards_def)

definition pairs_of :: "assign_env \<Rightarrow> (int64, uint64) gomap \<Rightarrow> (int64 \<times> uint64) list" where
  "pairs_of E metric = ae_sortPairs E (ae_pairs E metric)"

lemma pairs_of_mset: "env_ok E \<Longrightarrow> mset (pairs_of E metric) = mset metric"
  using sorts_byD(1) [OF env_okD(2), of E] is_orderD(1) [OF env_okD(1), of E] by (simp add: pairs_of_def)

lemma sum_list_perm:
  fixes f :: "'a \<Rightarrow> 'b::comm_monoid_add"
  assumes "mset xs = mset ys"
  shows "sum_list (map f xs) = sum_list (map f ys)"
  using arg_cong [OF assms, of "\<lambda>m. sum_mset (image_mset f m)"] by (simp add: sum_mset_sum_list [symmetric])

lemma by_metric_lists:
  assumes "env_ok E" "distinct (map fst metric)" "assignShardListByMetric E listNum metric = Inr ls"
  shows "length ls = unat listNum" "mset (concat (map as_ShardList ls)) = mset (map fst metric)"
    "list_all (\<lambda>l. as_MetricSum l = sum_list (map (get0 metric) (as_ShardList l))) ls"
proof -
  let ?init = "replicate (unat listNum) \<lparr>as_MetricSum = 0, as_ShardList = []\<rparr>"
  obtain raw where raw: "metric_loop (ae_sortLists E) (pairs_of E metric) ?init = Inr raw"
    and ls: "ls = map (\<lambda>l. l\<lparr>as_ShardList := sort_shards (as_ShardList l)\<rparr>) raw"
    using assms(3) by (auto simp: assignShardListByMetric_def pairs_of_def go_bind_eq_Inr)
  have "\<forall>(k, v) \<in> set (pairs_of E metric). get0 metric k = v"
    using mset_eq_setD [OF pairs_of_mset [OF assms(1), of metric]] assms(2) by (auto simp: get0_def)
  from metric_loop_lists [OF env_okD(3) [OF assms(1)] raw _ this]
  have *: "length raw = unat listNum" "mset (concat (map as_ShardList raw)) = mset (map fst (pairs_of E metric))"
    "list_all (\<lambda>l. as_MetricSum l = sum_list (map (get0 metric) (as_ShardList l))) raw"
    by (simp_all add: list_all_iff)
  show "length ls = unat listNum" using *(1) ls by simp
  have "mset (concat (map (\<lambda>l. sort_shards (as_ShardList l)) raw)) = mset (concat (map as_ShardList raw))"
    by (induction raw) simp_all
  then show "mset (concat (map as_ShardList ls)) = mset (map fst metric)"
    using *(2) ls pairs_of_mset [OF assms(1), of metric] by (simp add: comp_def)
  show "list_all (\<lambda>l. as_MetricSum l = sum_list (map (get0 metric) (as_ShardList l))) ls"
    using *(3) ls sum_list_perm [OF sort_shards_mset, of "get0 metric"] by (simp add: list_all_iff)
qed

lemma by_metric_returns:
  "env_ok E \<Longrightarrow> listNum \<noteq> 0 \<Longrightarrow> \<exists>ls. assignShardListByMetric E listNum metric = Inr ls"
proof -
  assume "env_ok E" "listNum \<noteq> 0"
  then obtain raw where "metric_loop (ae_sortLists E) (pairs_of E metric) (replicate (unat listNum) \<lparr>as_MetricSum = 0, as_ShardList = []\<rparr>) = Inr raw"
    using metric_loop_returns [OF env_okD(3), of E] by (metis replicate_empty unat_eq_0)
  then show ?thesis by (simp add: assignShardListByMetric_def pairs_of_def)
qed

lemma fold_keeps: "(\<And>x s. P s \<Longrightarrow> P (f x s)) \<Longrightarrow> P s \<Longrightarrow> P (fold f xs s)"
  by (induction xs arbitrary: s) auto

lemma metrics_distinct:
  assumes "table_metrics E m param = Inr (sizes, kps)"
  shows "distinct (map fst sizes) \<and> distinct (map fst kps)"
proof -
  let ?P = "\<lambda>sk :: (int64, uint64) gomap \<times> (int64, uint64) gomap. distinct (map fst (fst sk)) \<and> distinct (map fst (snd sk))"
  have part: "?P (add_partition db tb s p sk)" if "?P sk" for db tb s p sk
    using that by (auto simp: add_partition_def add_at_def distinct_update)
  obtain ss where eq: "fold (\<lambda>(_, gm). fold (\<lambda>node. fold (\<lambda>s. fold (add_partition (ap_DatabaseName param) (ap_TableName param) s)
      (shard_partitions (ae_city E) node s)) ss) (ae_nodes E (gm_nodeShardInfo gm))) (ae_groups E m) ([], []) = (sizes, kps)"
    using assms by (auto simp: table_metrics_def GetTableShardSizeAndKps_def go_bind_eq_Inr)
  have "?P (fold (\<lambda>(_, gm). fold (\<lambda>node. fold (\<lambda>s. fold (add_partition (ap_DatabaseName param) (ap_TableName param) s)
      (shard_partitions (ae_city E) node s)) ss) (ae_nodes E (gm_nodeShardInfo gm))) (ae_groups E m) ([], []))"
    unfolding case_prod_unfold
    by (rule fold_keeps [where P = ?P], rule fold_keeps [where P = ?P], rule fold_keeps [where P = ?P], rule fold_keeps [where P = ?P])
      (rule part, simp_all)
  then show ?thesis unfolding eq by simp
qed

section \<open>The three distributions\<close>

lemma result_of_facts:
  "re_SizeSum (rs_TotalShardListInfo (result_of entry ls)) = sum_list (map re_SizeSum (rs_AssignedShardListInfos (result_of entry ls)))"
  "re_KpsSum (rs_TotalShardListInfo (result_of entry ls)) = sum_list (map re_KpsSum (rs_AssignedShardListInfos (result_of entry ls)))"
  "mset (re_ShardList (rs_TotalShardListInfo (result_of entry ls))) = mset (concat (map as_ShardList ls))"
  "rs_AssignedShardListInfos (result_of entry ls) = map entry ls"
  by (simp_all add: result_of_def Let_def)

lemma metric_distribution:
  assumes run: "\<And>E m param. run E m param = go_bind (table_metrics E m param) (\<lambda>sk.
      go_bind (assignShardListByMetric E (ap_AssignedListNum param) (pick sk)) (\<lambda>ls. Inr (result_of (entry sk) ls)))"
    and pick: "pick = fst \<or> pick = snd"
    and lists: "\<And>sk l. re_ShardList (entry sk l) = as_ShardList l"
    and ok: "\<And>sk l. as_MetricSum l = sum_list (map (get0 (pick sk)) (as_ShardList l)) \<Longrightarrow> entry_ok (fst sk) (snd sk) (entry sk l)"
  shows "shard_distribution run (\<lambda>ss sizes kps. map fst (pick (sizes, kps)))"
proof unfold_locales
  fix E :: assign_env and param ss m sizes kps
  assume "env_ok E" "ap_AssignedListNum param \<noteq> 0" "table_list E param = Inr ss" "table_metrics E m param = Inr (sizes, kps)"
  then show "\<exists>r. run E m param = Inr r"
    using by_metric_returns [of E "ap_AssignedListNum param" "pick (sizes, kps)"] by (auto simp: run)
next
  fix E :: assign_env and param ss m sizes kps r
  assume E: "env_ok E" and t: "table_metrics E m param = Inr (sizes, kps)" and r: "run E m param = Inr r"
  obtain ls where ls: "assignShardListByMetric E (ap_AssignedListNum param) (pick (sizes, kps)) = Inr ls"
    and r': "r = result_of (entry (sizes, kps)) ls"
    using r t by (auto simp: run go_bind_eq_Inr)
  have "distinct (map fst (pick (sizes, kps)))" using metrics_distinct [OF t] pick by auto
  note facts = by_metric_lists [OF E this ls]
  show "mset (concat (lists_of r)) = mset (map fst (pick (sizes, kps)))"
    using facts(2) by (simp add: lists_of_def r' result_of_facts comp_def lists)
  show "list_all (entry_ok sizes kps) (rs_AssignedShardListInfos r)"
    using facts(3) ok [of _ "(sizes, kps)"] by (simp add: r' result_of_facts list_all_iff)
next
  fix E :: assign_env and param m r
  assume E: "env_ok E" and r: "run E m param = Inr r"
  then obtain sk ls where t: "table_metrics E m param = Inr sk"
    and ls: "assignShardListByMetric E (ap_AssignedListNum param) (pick sk) = Inr ls" "length (lists_of r) = length ls"
    by (auto simp: run go_bind_eq_Inr lists_of_def result_of_facts)
  have "distinct (map fst (pick sk))" using metrics_distinct [of E m param "fst sk" "snd sk"] t pick by auto
  from by_metric_lists(1) [OF E this ls(1)] ls(2) show "length (lists_of r) = unat (ap_AssignedListNum param)" by simp
next
  fix E :: assign_env and param m r
  assume "run E m param = Inr r"
  then obtain sk ls where "r = result_of (entry sk) ls" by (auto simp: run go_bind_eq_Inr)
  then show "re_SizeSum (rs_TotalShardListInfo r) = sum_list (map re_SizeSum (rs_AssignedShardListInfos r)) \<and>
      re_KpsSum (rs_TotalShardListInfo r) = sum_list (map re_KpsSum (rs_AssignedShardListInfos r)) \<and>
      mset (re_ShardList (rs_TotalShardListInfo r)) = mset (concat (lists_of r))"
    using result_of_facts [of "entry sk" ls] by (simp add: lists_of_def comp_def lists)
qed

interpretation by_size: shard_distribution assignShardListBySize "\<lambda>ss sizes kps. map fst (fst (sizes, kps))"
  by (rule metric_distribution [where entry = "\<lambda>sk l. \<lparr>re_SizeSum = as_MetricSum l,
      re_KpsSum = sum_list (map (get0 (snd sk)) (as_ShardList l)), re_ShardList = as_ShardList l\<rparr>"])
    (simp_all add: assignShardListBySize_def case_prod_unfold entry_ok_def)

interpretation by_kps: shard_distribution assignShardListByKps "\<lambda>ss sizes kps. map fst (snd (sizes, kps))"
  by (rule metric_distribution [where entry = "\<lambda>sk l. \<lparr>re_SizeSum = sum_list (map (get0 (fst sk)) (as_ShardList l)),
      re_KpsSum = as_MetricSum l, re_ShardList = as_ShardList l\<rparr>"])
    (simp_all add: assignShardListByKps_def case_prod_unfold entry_ok_def)








text \<open>C18. When a metric is balanced, the sums of any two lists differ by no more than the greatest value of a
  shard, as long as the sum over all the shards is below \<open>2^64\<close>.\<close>

theorem assignShardListByMetric_balanced:
  assumes "env_ok E" "listNum \<noteq> 0" "\<forall>(k, v) \<in> set metric. unat v \<le> M"
    and "sum_list (map (\<lambda>(k, v). unat v) metric) < 18446744073709551616"
  shows "\<exists>ls. assignShardListByMetric E listNum metric = Inr ls \<and>
    (\<forall>l \<in> set ls. \<forall>l' \<in> set ls. unat (as_MetricSum l) \<le> unat (as_MetricSum l') + M)"
proof -
  obtain ls where ls: "assignShardListByMetric E listNum metric = Inr ls" using by_metric_returns [OF assms(1,2)] by blast
  let ?init = "replicate (unat listNum) \<lparr>as_MetricSum = 0, as_ShardList = []\<rparr> :: AssignedShardList list"
  obtain raw where raw: "metric_loop (ae_sortLists E) (pairs_of E metric) ?init = Inr raw"
    and ls': "ls = map (\<lambda>l. l\<lparr>as_ShardList := sort_shards (as_ShardList l)\<rparr>) raw"
    using ls by (auto simp: assignShardListByMetric_def pairs_of_def go_bind_eq_Inr)
  note perm = pairs_of_mset [OF assms(1), of metric]
  have "even_up_to M ?init" "sum_of ?init = 0" by (simp_all add: even_up_to_def sum_of_def)
  moreover have "\<forall>(k, v) \<in> set (pairs_of E metric). unat v \<le> M" using assms(3) mset_eq_setD [OF perm] by simp
  moreover have "sum_list (map (\<lambda>(k, v). unat v) (pairs_of E metric)) < 18446744073709551616"
    using assms(4) sum_list_perm [OF perm, of "\<lambda>(k, v). unat v"] by simp
  ultimately have "even_up_to M raw" using metric_loop_even [OF env_okD(3) [OF assms(1)] raw] by simp
  with ls ls' show ?thesis by (auto simp: even_up_to_def)
qed

lemma length_dealt_positions: "j < n \<Longrightarrow> length (filter (\<lambda>i. i mod n = j) [0..<N]) = (N + n - 1 - j) div n"
proof (induction N)
  case 0
  then show ?case by simp
next
  case (Suc N)
  define q r where "q = N div n" and "r = N mod n"
  have r: "N = q * n + r" "r < n" using Suc.prems by (simp_all add: q_def r_def)
  have "(N + n - j) mod n = (r + n - j) mod n"
    using r Suc.prems by (metis add.assoc diff_add_assoc less_imp_le mod_mult_self3 mult.commute)
  moreover have "(r + n - j) mod n = 0 \<longleftrightarrow> r = j"
  proof (cases "j \<le> r")
    case True
    then have "(r + n - j) mod n = (r - j) mod n" by (metis Nat.add_diff_assoc2 mod_add_self2)
    also have "\<dots> = r - j" using r by simp
    finally show ?thesis using True by simp
  qed (use r Suc.prems in simp)
  ultimately have "(N + n - j) mod n = 0 \<longleftrightarrow> N mod n = j" using r_def by simp
  moreover have "Suc (N + n - 1 - j) = N + n - j" using Suc.prems by simp
  ultimately show ?case using Suc div_Suc [of "N + n - 1 - j" n] by simp
qed

lemma dealt_positions: "dealt n j 0 xs = map (\<lambda>i. xs ! i) (filter (\<lambda>i. i mod n = j) [0..<length xs])"
proof -
  have "zip [0..<length xs] xs = map (\<lambda>i. (i, xs ! i)) [0..<length xs]" by (rule nth_equalityI) simp_all
  then show ?thesis by (simp add: dealt_def filter_map comp_def)
qed

text \<open>C29. When the shards are counted, they are dealt in turn in their order: the list at position \<open>j\<close> of \<open>n\<close> has the
  shards at the positions \<open>j\<close>, \<open>j + n\<close>, and so on, so that the lengths of the lists differ by one at most.\<close>

theorem assignShardListByNum_deals:
  assumes "table_list E param = Inr ss" "table_metrics E m param = Inr sk" "length ss \<le> 4294967296"
    and "n = unat (ap_AssignedListNum param)" "0 < n"
  shows "\<exists>r. assignShardListByNum E m param = Inr r \<and>
    lists_of r = map (\<lambda>j. map (\<lambda>i. sort_shards ss ! i) (filter (\<lambda>i. i mod n = j) [0..<length ss])) [0..<n] \<and>
    map length (lists_of r) = map (\<lambda>j. (length ss + n - 1 - j) div n) [0..<n]"
proof -
  let ?init = "replicate n empty_entry"
  have len: "length (sort_shards ss) = length ss" by (simp add: sort_shards_def)
  obtain entries t where loop: "num_loop (fst sk) (snd sk) (ap_AssignedListNum param) (sort_shards ss) 0 ?init empty_entry = Inr (entries, t)"
    "map re_ShardList entries = map (\<lambda>j. re_ShardList (?init ! j) @ dealt n j 0 (sort_shards ss)) [0..<n]"
    using num_loop_dealt [of "ap_AssignedListNum param" n 0 "sort_shards ss" ?init "fst sk" "snd sk" empty_entry] assms(3-5) len
    by (simp only: of_nat_0) auto
  let ?lists = "map (\<lambda>j. map (\<lambda>i. sort_shards ss ! i) (filter (\<lambda>i. i mod n = j) [0..<length ss])) [0..<n]"
  have "map (\<lambda>j. re_ShardList (?init ! j) @ dealt n j 0 (sort_shards ss)) [0..<n] = ?lists"
    by (simp add: empty_entry_def dealt_positions len)
  with loop(2) have lists: "map re_ShardList entries = ?lists" by simp
  have "map length ?lists = map (\<lambda>j. (length ss + n - 1 - j) div n) [0..<n]"
    by (auto simp: length_dealt_positions)
  moreover have "assignShardListByNum E m param =
      Inr \<lparr>rs_TotalShardListInfo = t\<lparr>re_ShardList := sort_shards ss\<rparr>, rs_AssignedShardListInfos = entries\<rparr>"
    using loop(1) assms(1,2,4) by (simp add: assignShardListByNum_def Let_def case_prod_unfold)
  ultimately show ?thesis using lists unfolding lists_of_def by (intro exI conjI) (assumption, simp_all only: AssignedTableShardResult.simps)
qed

text \<open>A shard for which the cache holds no metrics of the table is left out when sizes or reads are to be balanced:
  before the first metrics are pulled, such a request is answered with lists that are all empty.\<close>

theorem AssignTableShardList_unmeasured:
  assumes "env_ok E" "table_list E param = Inr ss" "ap_AssignedListNum param \<noteq> 0" "\<not> of_nat (length ss) < ap_AssignedListNum param"
    and "ap_Type param = AssignByShardSize \<or> ap_Type param = AssignByShardKps"
  shows "\<exists>r. AssignTableShardList E [] param = Inr (r, AssignOk) \<and> concat (lists_of r) = []"
proof -
  have "ae_groups E [] = []" using assms(1) is_orderD(1) [of "ae_groups E" "[]"] by (simp add: env_ok_def)
  then have t: "table_metrics E [] param = Inr ([], [])"
    using assms(2) by (simp add: table_metrics_def table_list_def GetTableShardSizeAndKps_def)
  obtain r where "assignShardListBySize E [] param = Inr r" "mset (concat (lists_of r)) = mset []"
    using by_size.request_total [OF assms(1,3,2) t] by auto
  moreover obtain r' where "assignShardListByKps E [] param = Inr r'" "mset (concat (lists_of r')) = mset []"
    using by_kps.request_total [OF assms(1,3,2) t] by auto
  ultimately show ?thesis using assms(2,4,5) by (auto simp: AssignTableShardList_def)
qed

section \<open>Examples\<close>

definition example_assign :: assign_env where
  "example_assign = \<lparr>ae_city = (\<lambda>s n seed. seed), ae_clusters = example_clusters, ae_tables = example_tables,
     ae_groups = rev, ae_nodes = rev, ae_pairs = rev, ae_sortPairs = sort_key (\<lambda>(k, v). - uint v),
     ae_sortLists = sort_key (\<lambda>l. uint (as_MetricSum l))\<rparr>"

definition example_request :: "AssignType \<Rightarrow> AssignShardListParams" where
  "example_request t = \<lparr>ap_DatabaseName = ''db'', ap_TableName = ''t'', ap_Type = t, ap_AssignedListNum = 2\<rparr>"

lemma example_assign_ok: "env_ok example_assign"
  by (simp add: env_ok_def example_assign_def is_order_rev sorts_by_def)

lemma example_table_list: "table_list example_assign (example_request t) = Inr [0, 1]"
proof -
  have "GetTableShardList (\<lambda>s n seed. seed) example_clusters example_tables ''db'' ''t'' = Inr [0, 1]" by code_simp
  then show ?thesis by (simp add: table_list_def example_assign_def example_request_def)
qed

lemma example_table_metrics: "\<exists>sizes kps. table_metrics example_assign m (example_request t) = Inr (sizes, kps)"
  using example_table_list [of t] by (auto simp: table_metrics_def table_list_def GetTableShardSizeAndKps_def)


theorem assignShardListByMetric_balanced_witness:
  "\<exists>ls. assignShardListByMetric example_assign 2 [(0, 7), (1, 4), (2, 5)] = Inr ls \<and>
     (\<forall>l \<in> set ls. \<forall>l' \<in> set ls. unat (as_MetricSum l) \<le> unat (as_MetricSum l') + 7)"
  by (rule assignShardListByMetric_balanced [OF example_assign_ok]) simp_all

theorem assignShardListByNum_deals_witness:
  "\<exists>r. assignShardListByNum example_assign example_metrics (example_request AssignByShardNum) = Inr r \<and>
     map length (lists_of r) = [1, 1]"
proof -
  obtain sizes kps where t: "table_metrics example_assign example_metrics (example_request AssignByShardNum) = Inr (sizes, kps)"
    using example_table_metrics by blast
  have "2 = unat (ap_AssignedListNum (example_request AssignByShardNum))" by (simp add: example_request_def)
  from assignShardListByNum_deals [OF example_table_list t _ this] show ?thesis by (auto simp: upt_rec)
qed

theorem AssignTableShardList_unmeasured_witness:
  "\<exists>r. AssignTableShardList example_assign [] (example_request AssignByShardSize) = Inr (r, AssignOk) \<and> concat (lists_of r) = []"
  by (rule AssignTableShardList_unmeasured [OF example_assign_ok example_table_list]) (simp_all add: example_request_def)

end
