(* ===== verification/Laser_Reduce.thy ===== *)
theory Laser_Reduce
  imports Laser_Metrics
begin

text \<open>
  The reduction of the load of a group by disabling shards on its nodes, from
  \<^verbatim>\<open>src/control/service/reduce_metrics.go\<close>. The rows of the group's nodes and the metrics cache are arguments, as are
  the orders in which the maps are ranged over. What the code sends to the nodes is a list of addresses with the shards to
  be disabled; the answers are only logged. The result of \<open>sortByMode\<close> is discarded by its caller, so that it has no part here.
\<close>

record reduce_env =
  rn_city :: cityhash
  rn_groups :: "(string \<times> GroupShardMetrics) list \<Rightarrow> (string \<times> GroupShardMetrics) list"
  rn_nodes :: "(uint64 \<times> (string, ShardInfo) gomap) list \<Rightarrow> (uint64 \<times> (string, ShardInfo) gomap) list"
  rn_shards :: "(string \<times> ShardInfo) list \<Rightarrow> (string \<times> ShardInfo) list"
  rn_hosts :: "(uint64 \<times> NodeBasicInfo) list \<Rightarrow> (uint64 \<times> NodeBasicInfo) list"
  rn_result :: "(string \<times> (string, ShardInfo) gomap) list \<Rightarrow> (string \<times> (string, ShardInfo) gomap) list"

definition metric_at :: "string \<Rightarrow> ShardInfo \<Rightarrow> rat" where
  "metric_at mode s = (case si_Metrics s mode of None \<Rightarrow> 0 | Some v \<Rightarrow> v)"

section \<open>The nodes that can give up shards\<close>

definition without_leaders :: "(string, ShardInfo) gomap \<Rightarrow> (string, ShardInfo) gomap" where
  "without_leaders infos = filter (\<lambda>(_, s). si_Role s \<noteq> Leader) infos"

fun all_hosts ::
  "reduce_env \<Rightarrow> ShardMetricsManager \<Rightarrow> Node list \<Rightarrow> (uint64, NodeBasicInfo) gomap \<Rightarrow> (uint64, (string, ShardInfo) gomap) gomap \<Rightarrow>
   ((uint64, NodeBasicInfo) gomap \<times> (uint64, (string, ShardInfo) gomap) gomap) go" where
  "all_hosts R m [] nodeBasicInfo nodeShardMetrics = Inr (nodeBasicInfo, nodeShardMetrics)"
| "all_hosts R m (node # nodes) nodeBasicInfo nodeShardMetrics =
     (let nodeHash = GetNodeHash (rn_city R) (nd_GroupName node) (nd_NodeId node);
          (basic, infos) = GetNodeShardInfo (rn_city R) m (nd_GroupName node) (nd_NodeId node)
      in case nb_Master basic of
           None \<Rightarrow> Inl NilDereference
         | Some True \<Rightarrow> all_hosts R m nodes nodeBasicInfo nodeShardMetrics
         | Some False \<Rightarrow> all_hosts R m nodes (AList.update nodeHash basic nodeBasicInfo)
             (AList.update nodeHash (without_leaders infos) nodeShardMetrics))"

definition getAllHostShardInfo ::
  "reduce_env \<Rightarrow> ShardMetricsManager \<Rightarrow> Node list \<Rightarrow>
   ((uint64, NodeBasicInfo) gomap \<times> (uint64, (string, ShardInfo) gomap) gomap) go" where
  "getAllHostShardInfo R m nodeList = all_hosts R m nodeList [] []"

section \<open>The shards to disable\<close>

definition sum_metric :: "string \<Rightarrow> (string \<times> ShardInfo) list \<Rightarrow> rat \<Rightarrow> rat" where
  "sum_metric mode infos = fold (\<lambda>(_, s) v. fl (v + metric_at mode s)) infos"

definition getTotalMetricsValue :: "reduce_env \<Rightarrow> (uint64, (string, ShardInfo) gomap) gomap \<Rightarrow> string \<Rightarrow> rat" where
  "getTotalMetricsValue R data reduceMode =
     fold (\<lambda>(_, hostMetrics). sum_metric reduceMode (rn_shards R hostMetrics)) (rn_nodes R data) 0"

definition reduce_GetSpecShardNum :: "uint32 \<Rightarrow> (string, ShardInfo) gomap \<Rightarrow> uint32" where
  "reduce_GetSpecShardNum shardId reduceShard = of_nat (length (filter (\<lambda>(_, s). si_ShardId s = shardId) reduceShard))"

definition checkShardCanDisable ::
  "reduce_env \<Rightarrow> ShardMetricsManager \<Rightarrow> ShardInfo \<Rightarrow> (string, ShardInfo) gomap \<Rightarrow> rat \<Rightarrow> rat \<Rightarrow> bool" where
  "checkShardCanDisable R m info reduceShard currentValue shouldDisableValue =
     (if si_Role info = Leader then False
      else 0 < currentValue \<and> currentValue < shouldDisableValue \<and>
        1 < GetSpecShardNum (rn_groups R) (rn_nodes R) (rn_shards R) m (si_ShardId info) Follower -
            reduce_GetSpecShardNum (si_ShardId info) reduceShard)"

fun disable_loop ::
  "reduce_env \<Rightarrow> ShardMetricsManager \<Rightarrow> string \<Rightarrow> (string \<times> ShardInfo) list \<Rightarrow> (string, ShardInfo) gomap \<Rightarrow> rat \<Rightarrow> (string, ShardInfo) gomap" where
  "disable_loop R m reduceMode [] reduceShardList left = reduceShardList"
| "disable_loop R m reduceMode ((shardHash, info) # infos) reduceShardList left =
     (if checkShardCanDisable R m info reduceShardList (metric_at reduceMode info) left
      then let reduceShardList = AList.update shardHash info reduceShardList;
               left = fl (left - metric_at reduceMode info)
           in if left \<le> 0 then reduceShardList else disable_loop R m reduceMode infos reduceShardList left
      else disable_loop R m reduceMode infos reduceShardList left)"

definition host_address :: "NodeBasicInfo \<Rightarrow> string" where
  "host_address b = nb_Host b @ '':'' @ Itoa (uint (nb_Port b))"

definition reduce_host ::
  "reduce_env \<Rightarrow> ShardMetricsManager \<Rightarrow> string \<Rightarrow> (uint64, (string, ShardInfo) gomap) gomap \<Rightarrow> rat \<Rightarrow> uint64 \<times> NodeBasicInfo \<Rightarrow>
   (string, (string, ShardInfo) gomap) gomap \<Rightarrow> (string, (string, ShardInfo) gomap) gomap" where
  "reduce_host R m reduceMode hostMetrics leftValuePerHost host result =
     (let infos = (case map_of hostMetrics (fst host) of None \<Rightarrow> [] | Some i \<Rightarrow> i);
          left = fl (sum_metric reduceMode (rn_shards R infos) 0 - leftValuePerHost)
      in if left < 0 then result
         else AList.update (host_address (snd host)) (disable_loop R m reduceMode (rn_shards R infos) [] left) result)"

definition reduceMetricsHandle ::
  "reduce_env \<Rightarrow> ShardMetricsManager \<Rightarrow> Node list \<Rightarrow> rat \<Rightarrow> string \<Rightarrow> (string, (string, ShardInfo) gomap) gomap go" where
  "reduceMetricsHandle R m nodeList leftRate reduceMode =
     go_bind (getAllHostShardInfo R m nodeList) (\<lambda>(hostInfo, hostMetrics).
       let leftValuePerHost = fl_div (fl_mult (getTotalMetricsValue R hostMetrics reduceMode) leftRate) (of_nat (length hostInfo))
       in Inr (fold (reduce_host R m reduceMode hostMetrics leftValuePerHost) (rn_hosts R hostInfo) []))"

section \<open>A request\<close>




section \<open>What is disabled\<close>


lemma disable_loop_shards:
  "(h, s) \<in> set (disable_loop R m mode infos acc left) \<Longrightarrow>
   (h, s) \<in> set acc \<or> (h, s) \<in> set infos \<and> si_Role s \<noteq> Leader \<and> 0 < metric_at mode s"
proof (induction infos arbitrary: acc left)
  case (Cons x infos)
  obtain k info where x: "x = (k, info)" by (cases x)
  let ?can = "checkShardCanDisable R m info acc (metric_at mode info) left"
  let ?acc = "AList.update k info acc"
  have new: "(h, s) \<in> set acc \<or> (h, s) = (k, info)" if "(h, s) \<in> set ?acc"
    using that by (induction acc) (auto split: if_splits)
  have can: "?can \<Longrightarrow> si_Role info \<noteq> Leader \<and> 0 < metric_at mode info"
    by (auto simp: checkShardCanDisable_def split: if_splits)
  consider "\<not> ?can" | "?can" "fl (left - metric_at mode info) \<le> 0" | "?can" "\<not> fl (left - metric_at mode info) \<le> 0" by blast
  then show ?case
  proof cases
    case 1
    then show ?thesis using Cons x by auto
  next
    case 2
    then show ?thesis using Cons.prems x new can by (auto simp: Let_def)
  next
    case 3
    then show ?thesis using Cons.IH [of ?acc "fl (left - metric_at mode info)"] Cons.prems x new can by (auto simp: Let_def)
  qed
qed simp

lemma all_hosts_infos:
  "all_hosts R m nodes hs ms = Inr (hs', ms') \<Longrightarrow> map_of ms' k = Some infos \<Longrightarrow>
   map_of ms k = Some infos \<or> (\<exists>node \<in> set nodes.
     nb_Master (fst (GetNodeShardInfo (rn_city R) m (nd_GroupName node) (nd_NodeId node))) = Some False \<and>
     infos = without_leaders (snd (GetNodeShardInfo (rn_city R) m (nd_GroupName node) (nd_NodeId node))))"
proof (induction nodes arbitrary: hs ms)
  case (Cons node nodes)
  obtain basic i where g: "GetNodeShardInfo (rn_city R) m (nd_GroupName node) (nd_NodeId node) = (basic, i)" by fastforce
  show ?case
  proof (cases "nb_Master basic")
    case None
    then show ?thesis using Cons.prems g by simp
  next
    case (Some b)
    let ?h = "GetNodeHash (rn_city R) (nd_GroupName node) (nd_NodeId node)"
    show ?thesis
    proof (cases b)
      case True
      then show ?thesis using Cons.IH [of hs ms] Cons.prems g Some by auto
    next
      case False
      then have "all_hosts R m nodes (AList.update ?h basic hs) (AList.update ?h (without_leaders i) ms) = Inr (hs', ms')"
        using Cons.prems(1) g Some by (simp add: Let_def)
      from Cons.IH [OF this Cons.prems(2)] False Some g show ?thesis by (auto simp: update_conv' split: if_splits)
    qed
  qed
qed simp

lemma reduce_hosts_result:
  "(address, shards) \<in> set (fold (reduce_host R m mode ms perHost) hosts acc) \<Longrightarrow>
   (address, shards) \<in> set acc \<or> (\<exists>k infos left. map_of ms k = Some infos \<and> shards = disable_loop R m mode (rn_shards R infos) [] left) \<or>
   (\<exists>left. shards = disable_loop R m mode (rn_shards R []) [] left)"
proof (induction hosts arbitrary: acc)
  case (Cons host hosts)
  have "(address, shards) \<in> set acc \<or> (\<exists>k infos left. map_of ms k = Some infos \<and> shards = disable_loop R m mode (rn_shards R infos) [] left) \<or>
      (\<exists>left. shards = disable_loop R m mode (rn_shards R []) [] left)"
    if "(address, shards) \<in> set (reduce_host R m mode ms perHost host acc)"
  proof -
    have upd: "(a, b) \<in> set (AList.update k v al) \<Longrightarrow> (a, b) \<in> set al \<or> b = v" for a b k v and al :: "(string, (string, ShardInfo) gomap) gomap"
      by (induction al) (auto split: if_splits)
    show ?thesis using that
      by (auto simp: reduce_host_def Let_def split: if_splits option.splits dest!: upd)
  qed
  then show ?case using Cons.IH [of "reduce_host R m mode ms perHost host acc"] Cons.prems by auto
qed simp

text \<open>C19. What a reduction disables on a node are shards that the node serves as a follower, with a positive value of the
  metric, on a node that is no master. That is so in every order in which the maps are ranged over.\<close>

theorem reduction_disables_followers:
  assumes "is_order (rn_shards R)" "reduceMetricsHandle R m nodeList leftRate mode = Inr result"
    and "(address, shards) \<in> set result" "(h, s) \<in> set shards"
  shows "si_Role s \<noteq> Leader \<and> 0 < metric_at mode s \<and> (\<exists>node \<in> set nodeList.
    nb_Master (fst (GetNodeShardInfo (rn_city R) m (nd_GroupName node) (nd_NodeId node))) = Some False \<and>
    (h, s) \<in> set (snd (GetNodeShardInfo (rn_city R) m (nd_GroupName node) (nd_NodeId node))))"
proof -
  obtain hs ms perHost where hosts: "all_hosts R m nodeList [] [] = Inr (hs, ms)"
    and result: "result = fold (reduce_host R m mode ms perHost) (rn_hosts R hs) []"
    using assms(2) by (auto simp: reduceMetricsHandle_def getAllHostShardInfo_def go_bind_eq_Inr Let_def)
  have "rn_shards R [] = []" using is_orderD(1) [OF assms(1), of "[]"] by simp
  then obtain k infos left where k: "map_of ms k = Some infos" "shards = disable_loop R m mode (rn_shards R infos) [] left"
    using reduce_hosts_result [OF assms(3) [unfolded result]] assms(4) by auto
  have s: "(h, s) \<in> set infos" "si_Role s \<noteq> Leader" "0 < metric_at mode s"
    using disable_loop_shards [OF assms(4) [unfolded k(2)]] is_orderD(2) [OF assms(1)] by auto
  from all_hosts_infos [OF hosts k(1)] s show ?thesis by (auto simp: without_leaders_def)
qed


section \<open>Two followers\<close>

definition reduce_plain :: reduce_env where
  "reduce_plain = \<lparr>rn_city = (\<lambda>s n seed. seed), rn_groups = (\<lambda>x. x), rn_nodes = (\<lambda>x. x), rn_shards = (\<lambda>x. x),
     rn_hosts = (\<lambda>x. x), rn_result = (\<lambda>x. x)\<rparr>"

definition follower_shard :: "uint32 \<Rightarrow> rat \<Rightarrow> string \<times> ShardInfo" where
  "follower_shard i v = (FormatUint (unat i), zero_ShardInfo\<lparr>si_ShardId := i, si_Role := Follower, si_Metrics := [''kps'' \<mapsto> v]\<rparr>)"

definition follower_node :: "uint32 \<Rightarrow> string \<Rightarrow> NodeBasicInfo" where
  "follower_node i host = zero_NodeBasicInfo\<lparr>nb_GroupName := ''g'', nb_NodeId := i, nb_Host := host, nb_Port := 80, nb_Master := Some False\<rparr>"

definition two_followers :: ShardMetricsManager where
  "two_followers = [(''g'', \<lparr>gm_nodeInfo = [1 \<mapsto> follower_node 1 ''a'', 2 \<mapsto> follower_node 2 ''b''],
     gm_nodeShardInfo = [(1, [follower_shard 7 10, follower_shard 8 20]), (2, [follower_shard 7 10, follower_shard 8 20])]\<rparr>)]"

definition follower_row :: "uint32 \<Rightarrow> Node" where
  "follower_row i = \<lparr>nd_NodeId = i, nd_Active = 1, nd_Host = [], nd_Port = 80, nd_Weight = 1, nd_Master = False, nd_IsEdgeNode = False,
     nd_GroupName = ''g'', nd_LeaderShardList = None, nd_FollowerShardList = None\<rparr>"

lemma fl_numeral: "(numeral k :: nat) < 9007199254740992 \<Longrightarrow> fl (numeral k) = numeral k"
  using fl_small [of "numeral k"] by simp

lemma two_followers_node:
  "GetNodeShardInfo (\<lambda>s n seed. seed) two_followers ''g'' 1 = (follower_node 1 ''a'', [follower_shard 7 10, follower_shard 8 20])"
  "GetNodeShardInfo (\<lambda>s n seed. seed) two_followers ''g'' 2 = (follower_node 2 ''b'', [follower_shard 7 10, follower_shard 8 20])"
  by (simp_all add: GetNodeShardInfo_def two_followers_def GetNodeHash_def hash_str_def Let_def)

lemma two_followers_disabled:
  "disable_loop reduce_plain two_followers ''kps'' [follower_shard 7 10, follower_shard 8 20] [] 15 = [follower_shard 7 10]"
proof -
  have n: "GetSpecShardNum (\<lambda>x. x) (\<lambda>x. x) (\<lambda>x. x) two_followers 7 Follower = 2"
    by (simp add: GetSpecShardNum_def cached_shards_def two_followers_def follower_shard_def)
  have v: "metric_at ''kps'' (snd (follower_shard i x)) = x" "si_ShardId (snd (follower_shard i x)) = i" "si_Role (snd (follower_shard i x)) = Follower"
    for i x by (simp_all add: follower_shard_def metric_at_def)
  obtain h7 s7 h8 s8 where e: "follower_shard 7 10 = (h7, s7)" "follower_shard 8 20 = (h8, s8)" by fastforce
  have "checkShardCanDisable reduce_plain two_followers s7 [] 10 15" "\<not> checkShardCanDisable reduce_plain two_followers s8 l 20 5" for l
    using v(2,3) [of 7 10] e n by (simp_all add: checkShardCanDisable_def reduce_plain_def reduce_GetSpecShardNum_def)
  then show ?thesis using v(1) [of 7 10] v(1) [of 8 20] e by (simp add: Let_def fl_numeral)
qed

lemma two_followers_reduced:
  "reduceMetricsHandle reduce_plain two_followers [follower_row 1, follower_row 2] (1 / 2) ''kps'' =
     Inr [(''a:80'', [follower_shard 7 10]), (''b:80'', [follower_shard 7 10])]"
proof -
  let ?infos = "[follower_shard 7 10, follower_shard 8 20]"
  have "filter (\<lambda>(_, s). si_Role s \<noteq> Leader) ?infos = ?infos" by (simp add: follower_shard_def)
  then have infos: "without_leaders ?infos = ?infos" by (simp only: without_leaders_def)
  have nodes: "getAllHostShardInfo reduce_plain two_followers [follower_row 1, follower_row 2] =
      Inr ([(1, follower_node 1 ''a''), (2, follower_node 2 ''b'')], [(1, ?infos), (2, ?infos)])"
    using two_followers_node infos
    by (simp add: getAllHostShardInfo_def follower_row_def reduce_plain_def follower_node_def GetNodeHash_def hash_str_def Let_def)
  have plain: "rn_shards reduce_plain = (\<lambda>x. x)" "rn_nodes reduce_plain = (\<lambda>x. x)" "rn_hosts reduce_plain = (\<lambda>x. x)"
    by (simp_all add: reduce_plain_def)
  have sum: "sum_metric ''kps'' ?infos 0 = 30" "sum_metric ''kps'' ?infos 30 = 60"
    by (simp_all add: sum_metric_def follower_shard_def metric_at_def fl_numeral)
  have rate: "fl_div (fl_mult 60 (1 / 2)) 2 = 15" by code_simp
  have addr: "host_address (follower_node 1 ''a'') = ''a:80''" "host_address (follower_node 2 ''b'') = ''b:80''"
    by (simp_all add: host_address_def follower_node_def) code_simp+
  show ?thesis
    by (simp add: reduceMetricsHandle_def nodes getTotalMetricsValue_def reduce_host_def plain sum rate addr fl_numeral two_followers_disabled Let_def)
qed


theorem reduction_disables_followers_witness:
  "si_Role (snd (follower_shard 7 10)) \<noteq> Leader \<and> 0 < metric_at ''kps'' (snd (follower_shard 7 10))"
proof -
  have "is_order (rn_shards reduce_plain)" by (simp add: reduce_plain_def is_order_id)
  moreover have "(''a:80'', [follower_shard 7 10]) \<in> set [(''a:80'', [follower_shard 7 10]), (''b:80'', [follower_shard 7 10])]" by simp
  moreover have "(fst (follower_shard 7 10), snd (follower_shard 7 10)) \<in> set [follower_shard 7 10]" by simp
  ultimately show ?thesis using reduction_disables_followers [OF _ two_followers_reduced] by blast
qed


end
