(* ===== verification/Spec2Isabelle.thy ===== *)
theory Spec2Isabelle
  imports Laser_Mops Laser_Wire Laser_Validator Laser_Assigner Laser_Reduce
begin

text \<open>
  LaserDB is a sharded key-value store. This development models its Go client library, \<^verbatim>\<open>src/sdk/go\<close>, and
  the parts of its control service, \<^verbatim>\<open>src/control\<close>, that decide where shards live. A table is cut into
  partitions, a partition belongs to a shard, and the shards of a data centre are spread over nodes as leaders
  and followers. Nodes register in Consul; the service router of a client pulls the registered nodes and the
  configuration, keeps a table of routes and picks a server for each key; the client sends the request over a
  pooled thrift connection. The control service reads metrics from the nodes, watches followers, assigns shards
  to nodes, checks a group before it becomes the master group and disables shards to shed load.

  \<^bold>\<open>Vocabulary.\<close> \<open>Laser_Prelude\<close> has sized integers as words, panics as values (\<open>'a go\<close>), Go maps and the
  orders in which they may be ranged over (\<open>is_order\<close>); \<open>Laser_Strconv\<close> has what is used of \<^verbatim>\<open>strconv\<close> and
  \<^verbatim>\<open>strings\<close>; \<open>Laser_Float\<close> has \<^verbatim>\<open>float64\<close> arithmetic as rational numbers with rounding. Small definitions that
  stand for one expression or one loop of a Go function are named after what they compute and stand before the
  definition of that function.

  \<^bold>\<open>Partitioning and configuration.\<close> \<open>Laser_Partition\<close> (\<^verbatim>\<open>lib/format.go\<close>, \<^verbatim>\<open>lib/partition.go\<close>) maps keys to
  partitions and partitions to shards: the result is in range unless the hash is the one number without an
  absolute value. \<open>Laser_Config\<close> (\<^verbatim>\<open>lib/config_manager.go\<close>) is the client's copy of table schemas and cluster
  information: a notification replaces it.

  \<^bold>\<open>Service router\<close> (\<^verbatim>\<open>sdk/go/common/service_router\<close>). \<open>Laser_Entity\<close> has the entities and key paths
  (\<^verbatim>\<open>node.go\<close>); \<open>Laser_Balance\<close> the six balancers (\<^verbatim>\<open>load_balance.go\<close>), interpreted as instances of the locales
  \<open>balancer\<close> and \<open>total_balancer\<close>: a balancer answers with a server of the list, and the weighted one returns
  under the conditions stated there and hangs otherwise; \<open>Laser_RouterDb\<close> the table of routes (\<^verbatim>\<open>router_db.go\<close>):
  a lookup after an update finds exactly the registered servers that serve the route; \<open>Laser_Pool\<close> the pool
  (\<^verbatim>\<open>pool.go\<close>) as a step relation over goroutines, cut where the mutex is dropped: no connection has two users, the
  counters agree with what is in use, and every step refines the abstract lender \<open>lending\<close>; \<open>Laser_Conn\<close>
  connections and the pools per address (\<^verbatim>\<open>thrift.go\<close>); \<open>Laser_Registry\<close> subscriptions, discovery and
  configuration in Consul (\<^verbatim>\<open>registry.go\<close>), with the locale \<open>subscriptions\<close>; \<open>Laser_Timers\<close> the periodic pullers and
  pushers (\<^verbatim>\<open>service_puller.go\<close>, \<^verbatim>\<open>service_pusher.go\<close>), with the locale \<open>periodic_task\<close>: one loop at a time;
  \<open>Laser_Router\<close> the router that composes them (\<^verbatim>\<open>router.go\<close>): a discovery finds a registered server, creating
  pullers on demand ends without deadlock, the restart handler can deadlock.

  \<^bold>\<open>Client\<close> (\<^verbatim>\<open>sdk/go/laser_client\<close>). \<open>Laser_Thrift\<close> and \<open>Laser_Wire\<close> are the generated types of \<^verbatim>\<open>ttypes.go\<close>: the
  data, and reading and writing it over an arbitrary protocol, with round trips and the treatment of unknown and
  missing fields. \<open>Laser_Client\<close>, \<open>Laser_Batch\<close> and \<open>Laser_Mops\<close> are \<^verbatim>\<open>laser_client.go\<close>: routing, the call with its
  retries and the operations on one key; the grouping of a batch by server; the goroutines of a batch as schedules
  of their steps and the operations on many keys. An acknowledged write was accepted by a leader of the key's
  shard; the groups of a batch partition it; answers are stored at the positions of their keys unless two
  goroutines race on the shared options.

  \<^bold>\<open>Control service\<close> (\<^verbatim>\<open>control/service\<close>). \<open>Laser_Metrics\<close> is the metrics cache (\<^verbatim>\<open>metrics_info.go\<close>);
  \<open>Laser_ShardStatus\<close> compares followers with leaders (\<^verbatim>\<open>shard_status.go\<close>); \<open>Laser_Shards\<close> assigns shards to nodes
  and converts the stored forms (\<^verbatim>\<open>shard_manager.go\<close>, \<^verbatim>\<open>node_manager.go\<close>): a first assignment covers every shard once
  per role, adding a node to a running group does not; \<open>Laser_Assigner\<close> distributes the shards of a table over lists
  (\<^verbatim>\<open>table_shard_assigner.go\<close>), the three ways being interpretations of the locale \<open>shard_distribution\<close>;
  \<open>Laser_Validator\<close> decides whether a group is ready (\<^verbatim>\<open>config_validator.go\<close>); \<open>Laser_Reduce\<close> chooses shards to
  disable (\<^verbatim>\<open>reduce_metrics.go\<close>). The theorem below spans both sides: the shard to which a client routes a key is
  among the shards that the control service lists for the table.

  \<^bold>\<open>Bounds and fuel.\<close> The cascade of notifications in \<open>Laser_Router\<close> has a fuel, one unit per notification; the
  number of subscribers of the service plus two is enough to create a puller or pusher, and two for the first
  discovery of a router. Reading a thrift structure has a fuel for its fields, one more than the number of fields
  of the message; three and five are enough for a response and a list of pairs. Every other loop is total or, for
  the weighted balancer, a partial function that is shown to return. Numbers of nodes and shards in
  \<open>Laser_Shards\<close> are bounded so that the rounding of \<^verbatim>\<open>float64\<close> and 32-bit integers are exact enough; the bounds are
  premises of its theorems.

  \<^bold>\<open>Parameters.\<close> The city hash, JSON coders, the Consul store, the thrift protocol and the network, entropy and
  clocks, sorting functions, and the rows that database queries return are arguments, with what is used of them as
  premises (for instance \<open>faithful\<close> for a protocol that reads what it wrote).

  \<^bold>\<open>Not modelled.\<close> The C++ server, client and proxy, the Java jobs and the web frontend; the generated
  \<^verbatim>\<open>laserservice.go\<close>, which sends one message per call; timers that only measure; HTTP handlers, database
  tables, tickets, mails, reports, ansible and the push of configuration in the control service, which are calls of
  the database, HTTP, JSON and Consul libraries; the tickers of the control service, of which one round is
  modelled; and the unused store of shard versions in \<^verbatim>\<open>shard_manager.go\<close>.
\<close>

section \<open>The client and the control service agree\<close>

text \<open>C9. When the control service and a client have the same number of partitions for a table and the same number of
  shards for its data centre, the shard to which the client routes a key of the table is in the list of the
  table's shards that the control service computes, whatever the key, except for the one hash value without
  an absolute value.\<close>

theorem route_in_control_list:
  assumes "GetTableSchema city (lc_configManager client) (lk_DatabaseName key) (lk_TableName key) = Some schema"
    and "GetPartitionNumAndDc tables (lk_DatabaseName key) (lk_TableName key) = (n, ts_Dc schema)"
    and "ts_PartitionNumber schema = ucast n" and "n \<noteq> 0"
    and "GetShardNumber (lc_configManager client) (ts_Dc schema) = GetShardNum clusters (ts_Dc schema)"
    and "partition_key city (lk_DatabaseName key) (lk_TableName key)
      (GetKeyHash city (NewLaserKeyFormat (lk_PrimaryKeys key) (lk_ColumnKeys key))) \<noteq> MinInt64"
  shows "\<exists>info ss. getRouteInfo city rnd key readMode client = Inr info \<and>
    GetTableShardList city clusters tables (lk_DatabaseName key) (lk_TableName key) = Inr ss \<and> ri_shardId info \<in> set ss"
proof -
  let ?db = "lk_DatabaseName key" and ?tb = "lk_TableName key" and ?kf = "NewLaserKeyFormat (lk_PrimaryKeys key) (lk_ColumnKeys key)"
  have n: "sint (ucast n :: int64) = int (unat n)" by (simp add: sint_ucast32)
  have "0 < int (unat n)" using assms(4) by (metis of_nat_0_less_iff unat_gt_0)
  then obtain i where i: "GetPartitionId city ?db ?tb ?kf (ucast n) = Inr i" "unat i < unat n"
    using partition_id_below [OF assms(6), of "ucast n"] unat32_less [of n] n by (auto simp del: of_nat_unat)
  obtain s where s: "GetShardIdByShardNumber city (NewPartition ?db ?tb i) (GetShardNum clusters (ts_Dc schema)) = Inr s"
    using getShardId_returns by (auto simp: GetShardIdByShardNumber_def)
  obtain ss where ss: "table_shards city ?db ?tb (GetShardNum clusters (ts_Dc schema)) (map of_nat [0..<unat n]) [] = Inr ss"
    "set ss = {s. \<exists>p \<in> set (map of_nat [0..<unat n]). GetShardIdByShardNumber city (NewPartition ?db ?tb p)
      (GetShardNum clusters (ts_Dc schema)) = Inr s}"
    using table_shards_spec [of "[]" city ?db ?tb "GetShardNum clusters (ts_Dc schema)" "map of_nat [0..<unat n]"] by auto
  have "i \<in> set (map of_nat [0..<unat n])" using i(2) by (auto intro!: image_eqI [of _ _ "unat i"])
  then have "s \<in> set ss" unfolding ss(2) using s by blast
  moreover have "GetTableShardList city clusters tables ?db ?tb = Inr ss" using ss(1) assms(2) by (simp add: GetTableShardList_def)
  moreover have "\<exists>info. getRouteInfo city rnd key readMode client = Inr info \<and> ri_shardId info = s"
    using assms(1,3,5) i(1) s by (simp add: getRouteInfo_def GetShardId_def GetShardIdByShardNumber_def Let_def)
  ultimately show ?thesis by blast
qed

definition example_routed_client :: LaserClient where
  "example_routed_client = example_client\<lparr>lc_configManager := (NewConfigManager ''svc'')\<lparr>
     cm_tableSchemas := [getTableSchemaHash (\<lambda>s n seed. seed) ''db'' ''t'' \<mapsto>
       \<lparr>ts_DatabaseName = ''db'', ts_TableName = ''t'', ts_PartitionNumber = 4, ts_Ttl = 0, ts_BindEdgeNodes = None,
        ts_EdgeFlowRatio = 0, ts_Dc = ''dc'', ts_DistDc = []\<rparr>],
     cm_clusterInfo := \<lparr>ci_ClusterName = ''laser'', ci_ShardNumber = 2, ci_Dcs = [], ci_Groups = []\<rparr>\<rparr>\<rparr>"

theorem route_in_control_list_witness:
  "\<exists>info ss. getRouteInfo (\<lambda>s n seed. seed) 0 example_key LEADER_READ example_routed_client = Inr info \<and>
    GetTableShardList (\<lambda>s n seed. seed) example_clusters example_tables ''db'' ''t'' = Inr ss \<and> ri_shardId info \<in> set ss"
proof -
  let ?city = "\<lambda>s n seed. seed" and ?schema = "\<lparr>ts_DatabaseName = ''db'', ts_TableName = ''t'', ts_PartitionNumber = 4,
    ts_Ttl = 0, ts_BindEdgeNodes = None, ts_EdgeFlowRatio = 0, ts_Dc = ''dc'', ts_DistDc = []\<rparr>"
  have a: "GetTableSchema ?city (lc_configManager example_routed_client) (lk_DatabaseName example_key) (lk_TableName example_key)
      = Some ?schema"
    by (simp add: example_routed_client_def example_key_def GetTableSchema_def)
  have b: "GetPartitionNumAndDc example_tables (lk_DatabaseName example_key) (lk_TableName example_key) = (4, ts_Dc ?schema)"
    by (simp add: example_tables_def example_key_def)
  have c: "GetShardNumber (lc_configManager example_routed_client) (ts_Dc ?schema) = GetShardNum example_clusters (ts_Dc ?schema)"
    by (simp add: example_routed_client_def example_clusters_def GetShardNumber_def GetShardNum_def NewConfigManager_def)
  have d: "partition_key ?city (lk_DatabaseName example_key) (lk_TableName example_key)
      (GetKeyHash ?city (NewLaserKeyFormat (lk_PrimaryKeys example_key) (lk_ColumnKeys example_key))) \<noteq> MinInt64"
    by code_simp
  show ?thesis using route_in_control_list [OF a b _ _ c d, of 0 LEADER_READ] by (simp add: example_key_def)
qed

end
